(* ===== verification/Record_Store.thy ===== *)
theory Record_Store
  imports SP_Prelude
begin

text \<open>
  The interface of a per-row record store. The control plane keeps its deployments, its
  enrolled nodes, its join tokens and its deploys waiting on a download in tables it writes one
  row at a time: a write of a whole row, a merge into the row that is there, a removal. The
  locale names these three operations, the lookup they are judged by and the laws a table
  promises; what its clients rely on (the answer after any sequence of writes by any number of
  threads, independence of writes to different rows, no removed row coming back through a
  merge) is proved here once and interpreted on every table of the model.
\<close>

datatype ('k, 'r) row_op = Put 'r | Drop 'k | Modify 'k "'r \<Rightarrow> 'r"

locale record_store =
  fixes look :: "'s \<Rightarrow> 'k \<Rightarrow> 'r option"
    and put :: "'r \<Rightarrow> 's \<Rightarrow> 's"
    and drop :: "'k \<Rightarrow> 's \<Rightarrow> 's"
    and modify :: "'k \<Rightarrow> ('r \<Rightarrow> 'r) \<Rightarrow> 's \<Rightarrow> 's"
    and key :: "'r \<Rightarrow> 'k"
    and ok :: "'s \<Rightarrow> bool"
    and okr :: "'r \<Rightarrow> bool"
  assumes ok_put: "ok s \<Longrightarrow> okr r \<Longrightarrow> ok (put r s)"
    and ok_drop: "ok s \<Longrightarrow> ok (drop k s)"
    and ok_modify: "ok s \<Longrightarrow> (\<forall>r. key (f r) = key r) \<Longrightarrow> ok (modify k f s)"
    and look_put: "ok s \<Longrightarrow> okr r \<Longrightarrow> look (put r s) = (look s)(key r \<mapsto> r)"
    and look_drop: "ok s \<Longrightarrow> look (drop k s) = (look s)(k := None)"
    and look_modify: "ok s \<Longrightarrow> (\<forall>r. key (f r) = key r) \<Longrightarrow>
      look (modify k f s) = (look s)(k := map_option f (look s k))"
    and key_look: "ok s \<Longrightarrow> look s k = Some r \<Longrightarrow> key r = k"
begin

fun run_op :: "('k, 'r) row_op \<Rightarrow> 's \<Rightarrow> 's" where
  "run_op (Put r) s = put r s"
| "run_op (Drop k) s = drop k s"
| "run_op (Modify k f) s = modify k f s"

fun op_key :: "('k, 'r) row_op \<Rightarrow> 'k" where
  "op_key (Put r) = key r"
| "op_key (Drop k) = k"
| "op_key (Modify k f) = k"

fun op_ok :: "('k, 'r) row_op \<Rightarrow> bool" where
  "op_ok (Put r) = okr r"
| "op_ok (Drop k) = True"
| "op_ok (Modify k f) = (\<forall>r. key (f r) = key r)"

text \<open>What an operation makes of the one row it names.\<close>

fun op_row :: "('k, 'r) row_op \<Rightarrow> 'r option \<Rightarrow> 'r option" where
  "op_row (Put r) x = Some r"
| "op_row (Drop k) x = None"
| "op_row (Modify k f) x = map_option f x"

lemma run_op_ok: "ok s \<Longrightarrow> op_ok a \<Longrightarrow> ok (run_op a s)"
  by (cases a) (auto intro: ok_put ok_drop ok_modify)

lemma look_run_op: "ok s \<Longrightarrow> op_ok a \<Longrightarrow>
    look (run_op a s) = (look s)(op_key a := op_row a (look s (op_key a)))"
  by (cases a) (auto simp: look_put look_drop look_modify)

lemma run_ops_ok: "ok s \<Longrightarrow> \<forall>a \<in> set as. op_ok a \<Longrightarrow> ok (fold run_op as s)"
  by (induction as arbitrary: s) (auto intro: run_op_ok)

text \<open>A row depends only on the operations that name it, in their order.\<close>

lemma look_run_ops: "ok s \<Longrightarrow> \<forall>a \<in> set as. op_ok a \<Longrightarrow>
    look (fold run_op as s) k = fold op_row (filter (\<lambda>a. op_key a = k) as) (look s k)"
  by (induction as arbitrary: s) (auto simp: run_op_ok look_run_op)

lemma other_rows_kept: "ok s \<Longrightarrow> \<forall>a \<in> set as. op_ok a \<and> op_key a \<noteq> k \<Longrightarrow>
    look (fold run_op as s) k = look s k"
  by (induction as arbitrary: s) (auto simp: run_op_ok look_run_op)

text \<open>Writes to different rows commute, as far as any reader can see.\<close>

lemma run_op_commute: "ok s \<Longrightarrow> op_ok a \<Longrightarrow> op_ok b \<Longrightarrow> op_key a \<noteq> op_key b \<Longrightarrow>
    look (run_op a (run_op b s)) = look (run_op b (run_op a s))"
  by (auto simp: look_run_op run_op_ok fun_upd_twist)

definition is_put :: "'k \<Rightarrow> ('k, 'r) row_op \<Rightarrow> bool" where
  "is_put k a \<longleftrightarrow> (case a of Put r \<Rightarrow> key r = k | _ \<Rightarrow> False)"

text \<open>A row that is not there is brought back only by a write of the whole row.\<close>

lemma absent_stays: "ok s \<Longrightarrow> look s k = None \<Longrightarrow> \<forall>a \<in> set as. op_ok a \<and> \<not> is_put k a \<Longrightarrow>
    look (fold run_op as s) k = None"
proof (induction as arbitrary: s)
  case (Cons a as)
  then have "look (run_op a s) k = None"
    by (cases a) (auto simp: look_put look_drop look_modify is_put_def)
  moreover have "ok (run_op a s)"
    using Cons.prems by (auto intro: run_op_ok)
  ultimately show ?case
    using Cons.IH[of "run_op a s"] Cons.prems(3) by simp
qed simp

lemma dropped_stays: "ok s \<Longrightarrow> \<forall>a \<in> set as. op_ok a \<and> \<not> is_put k a \<Longrightarrow>
    look (fold run_op as (drop k s)) k = None"
  by (rule absent_stays) (auto simp: ok_drop look_drop)

lemma keyed: "ok s \<Longrightarrow> k \<in> dom (look s) \<Longrightarrow> \<exists>r. look s k = Some r \<and> key r = k"
  using key_look by blast

end

end
