(* ===== verification/Deploy_Records.thy ===== *)
theory Deploy_Records
  imports Record_Store
begin

text \<open>
  The deployment record store, \<open>spark_pulse/tools/deployment_records.py\<close>: the table of
  rows, the one-time import of the JSON file, reading, whole-set and per-row writes and
  deletion. A record is the dictionary \<open>native_runtime._record_from_plan\<close> builds, with the
  keys the control plane reads back; a key that may be absent or null is an option, an absent
  string is the empty one (the code reads it as \<open>record.get(k) or ""\<close>), and where the code
  tells an absent key from a null one (\<open>stopped_at\<close>, the GPU fraction) the option is doubled. The event log
  (\<open>event_log\<close>) is the list of recorded events; \<open>forget\<close> removes one resource's.
\<close>

section \<open>Records and rows\<close>

record rank_entry =
  re_rank :: nat
  re_node :: string
  re_host :: string
  re_container :: string
  re_is_head :: bool

record orphan =
  or_rank :: nat
  or_node :: string
  or_container :: string
  or_reason :: string
  or_since :: string

record dep =
  d_id :: string
  d_recipe_id :: string
  d_name :: string
  d_nodes :: "string list"
  d_status :: string
  d_created_at :: string
  d_started_at :: "string option"
  d_ready_at :: "string option"
  d_stopped_at :: "string option option"
  d_error_message :: "string option"
  d_port :: "nat option"
  d_rendezvous_port :: "nat option"
  d_rpc_port :: "nat option"
  d_launch_command :: string
  d_runtime :: string
  d_image_ref :: string
  d_container_name :: string
  d_image_present :: bool
  d_node_count :: nat
  d_readiness_url :: string
  d_served_model :: string
  d_gpu_fraction :: "rat option option"
  d_generation :: "nat option"
  d_ranks :: "rank_entry list"
  d_orphans :: "orphan list"
  d_final_logs :: "(nat \<times> string) list"
  d_warnings :: "string list"
  d_reconciled :: bool
  d_sync :: string
  d_sync_reason :: string
  d_sync_intent :: string

text \<open>A row: the columns denormalised out of the document, and the document.\<close>

record drow =
  row_id :: string
  row_status :: string
  row_runtime :: string
  row_created_at :: string
  row_record :: dep

definition fields_of :: "dep \<Rightarrow> drow" where
  "fields_of r = \<lparr>row_id = d_id r, row_status = d_status r, row_runtime = d_runtime r,
     row_created_at = d_created_at r, row_record = r\<rparr>"

definition row_of :: "dep \<Rightarrow> drow" where
  "row_of r = fields_of r"

text \<open>\<open>_apply\<close>: every column that differs is set; the answer says whether one did.\<close>

definition apply_row :: "drow \<Rightarrow> dep \<Rightarrow> bool \<times> drow" where
  "apply_row row r = (let new = fields_of r in
     (row_id row \<noteq> row_id new \<or> row_status row \<noteq> row_status new \<or>
      row_runtime row \<noteq> row_runtime new \<or> row_created_at row \<noteq> row_created_at new \<or>
      row_record row \<noteq> row_record new, new))"

section \<open>The store\<close>

record event =
  ev_type :: string
  ev_resource :: string
  ev_message :: string

text \<open>The legacy JSON file: absent, unreadable, or a list whose items may not be objects.\<close>

datatype legacy_item = LRecord dep | LOther

datatype legacy_file = LMissing | LUnreadable string | LItems "legacy_item list"

datatype store_error = StateFileError string | ValueError string

record store =
  st_rows :: "drow list"
  st_imported :: bool
  st_file :: legacy_file
  st_events :: "event list"

abbreviation find_row :: "string \<Rightarrow> drow list \<Rightarrow> drow option" where
  "find_row i \<equiv> find (\<lambda>r. row_id r = i)"

text \<open>\<open>_write_row\<close>: get, then add or apply.\<close>

definition write_row :: "dep \<Rightarrow> drow list \<Rightarrow> drow list" where
  "write_row r rows =
     (case find_row (d_id r) rows of
        None \<Rightarrow> rows @ [row_of r]
      | Some _ \<Rightarrow> map (\<lambda>row. if row_id row = d_id r then snd (apply_row row r) else row) rows)"

fun import_items :: "legacy_item list \<Rightarrow> drow list \<Rightarrow> drow list" where
  "import_items [] rows = rows"
| "import_items (LOther # xs) rows = import_items xs rows"
| "import_items (LRecord r # xs) rows =
     import_items xs (if d_id r = [] then rows else write_row r rows)"

text \<open>
  \<open>_migrate_from_json\<close>: nothing when the marker is set; an unreadable file raises; a missing
  file is not remembered; otherwise marker and rows land together.
\<close>

definition migrate_from_json :: "store \<Rightarrow> store_error + store" where
  "migrate_from_json st =
     (if st_imported st then Inr st
      else case st_file st of
             LUnreadable m \<Rightarrow> Inl (StateFileError m)
           | LMissing \<Rightarrow> Inr st
           | LItems items \<Rightarrow>
               Inr (st\<lparr>st_imported := True, st_rows := import_items items (st_rows st)\<rparr>))"

subsection \<open>Redaction\<close>

text \<open>
  \<open>_SENSITIVE_ENV_RE = (-e\s+\w+=)\S+\<close>, matched at the head of a string: the text kept and
  the rest after the secret. Neither \<open>\s+\<close> nor \<open>\w+\<close> can give a character back to what
  follows it, so the greedy match is the only one.
\<close>

definition match_env :: "string \<Rightarrow> (string \<times> string) option" where
  "match_env s =
     (case s of
        a # b # r \<Rightarrow>
          if a = CHR ''-'' \<and> b = CHR ''e'' then
            (let ws = takeWhile is_space r; r1 = dropWhile is_space r;
                 w = takeWhile is_word r1; r2 = dropWhile is_word r1
             in if ws = [] \<or> w = [] then None
                else case r2 of
                       c # r3 \<Rightarrow>
                         if c = CHR ''='' \<and> takeWhile (\<lambda>c. \<not> is_space c) r3 \<noteq> []
                         then Some (a # b # ws @ w @ ''='', dropWhile (\<lambda>c. \<not> is_space c) r3)
                         else None
                     | [] \<Rightarrow> None)
          else None
      | _ \<Rightarrow> None)"

lemma match_env_shorter: "match_env s = Some (p, rest) \<Longrightarrow> length rest < length s"
  unfolding match_env_def
  by (auto simp: Let_def split: list.splits if_splits)
     (metis (no_types, lifting) le_SucI length_Cons length_dropWhile_le order_trans le_imp_less_Suc)+

function redact :: "string \<Rightarrow> string" where
  "redact s =
     (case match_env s of
        Some (p, rest) \<Rightarrow> p @ ''[REDACTED]'' @ redact rest
      | None \<Rightarrow> (case s of [] \<Rightarrow> [] | c # cs \<Rightarrow> c # redact cs))"
  by pat_completeness auto
termination
  by (relation "measure length") (auto dest: match_env_shorter)

declare redact.simps [simp del]

text \<open>\<open>_SENSITIVE_ENV_RE.search(s)\<close>, as a truth value.\<close>

fun has_secret :: "string \<Rightarrow> bool" where
  "has_secret [] = False"
| "has_secret (c # cs) = (match_env (c # cs) \<noteq> None \<or> has_secret cs)"

section \<open>Operations\<close>

text \<open>
  \<open>update(id, **fields)\<close>: the fields are a function on the document. \<open>None\<close> when there is
  no such row.
\<close>

definition update :: "string \<Rightarrow> (dep \<Rightarrow> dep) \<Rightarrow> store \<Rightarrow> store_error + (dep option \<times> store)" where
  "update i f st =
     (case migrate_from_json st of
        Inl e \<Rightarrow> Inl e
      | Inr st1 \<Rightarrow>
          (case find_row i (st_rows st1) of
             None \<Rightarrow> Inr (None, st1)
           | Some row \<Rightarrow>
               (let r = f (row_record row)
                in Inr (Some r, st1\<lparr>st_rows :=
                     map (\<lambda>x. if row_id x = i then snd (apply_row x r) else x) (st_rows st1)\<rparr>))))"

text \<open>One turn of \<open>load\<close>'s loop over the rows it read.\<close>

fun load_loop :: "dep list \<Rightarrow> store \<Rightarrow> store_error + (dep list \<times> store)" where
  "load_loop [] st = Inr ([], st)"
| "load_loop (r # rs) st =
     (let cmd = d_launch_command r in
      if cmd \<noteq> [] \<and> has_secret cmd then
        (let r' = r\<lparr>d_launch_command := redact cmd\<rparr> in
         case (if d_id r \<noteq> [] then update (d_id r) (\<lambda>x. x\<lparr>d_launch_command := redact cmd\<rparr>) st
               else Inr (None, st)) of
           Inl e \<Rightarrow> Inl e
         | Inr (_, st') \<Rightarrow>
             (case load_loop rs st' of Inl e \<Rightarrow> Inl e | Inr (out, st'') \<Rightarrow> Inr (r' # out, st'')))
      else
        (case load_loop rs st of Inl e \<Rightarrow> Inl e | Inr (out, st') \<Rightarrow> Inr (r # out, st')))"

definition load :: "store \<Rightarrow> store_error + (dep list \<times> store)" where
  "load st =
     (case migrate_from_json st of
        Inl e \<Rightarrow> Inl e
      | Inr st1 \<Rightarrow> load_loop (map row_record (st_rows st1)) st1)"

text \<open>The dictionary \<open>wanted\<close> of \<open>save\<close>: by id, the last record of an id wins.\<close>

definition wanted :: "dep list \<Rightarrow> (string \<times> dep) list" where
  "wanted rs = foldl (\<lambda>m r. if d_id r = [] then m else dict_set (d_id r) r m) [] rs"

definition save :: "dep list \<Rightarrow> store \<Rightarrow> store" where
  "save rs st =
     (let w = wanted rs;
          kept = filter (\<lambda>row. row_id row \<in> set (map fst w)) (st_rows st);
          written = map (\<lambda>row. case dict_get w (row_id row) of
                                 Some r \<Rightarrow> snd (apply_row row r) | None \<Rightarrow> row) kept;
          added = filter (\<lambda>(i, r). find_row i (st_rows st) = None) w
      in st\<lparr>st_rows := written @ map (\<lambda>(i, r). row_of r) added\<rparr>)"

definition upsert :: "dep \<Rightarrow> store \<Rightarrow> store_error + store" where
  "upsert r st =
     (if d_id r = [] then Inl (ValueError ''a deployment record needs an id to be stored'')
      else case migrate_from_json st of
             Inl e \<Rightarrow> Inl e
           | Inr st1 \<Rightarrow> Inr (st1\<lparr>st_rows := write_row r (st_rows st1)\<rparr>))"

definition get :: "string \<Rightarrow> store \<Rightarrow> store_error + (dep option \<times> store)" where
  "get i st =
     (case migrate_from_json st of
        Inl e \<Rightarrow> Inl e
      | Inr st1 \<Rightarrow> Inr (map_option row_record (find_row i (st_rows st1)), st1))"

definition forget_events :: "string \<Rightarrow> store \<Rightarrow> store" where
  "forget_events i st = st\<lparr>st_events := filter (\<lambda>e. ev_resource e \<noteq> i) (st_events st)\<rparr>"

text \<open>
  The loop of \<open>delete_many\<close>: \<open>db.get\<close> answers from the session, so a row marked deleted is found
  until the transaction ends; every named id that has a row counts, and the rows go together.
\<close>

definition delete_rows :: "string list \<Rightarrow> drow list \<Rightarrow> nat \<times> drow list" where
  "delete_rows is rows =
     (length (filter (\<lambda>i. find_row i rows \<noteq> None) is), filter (\<lambda>r. row_id r \<notin> set is) rows)"

definition delete_many :: "string list \<Rightarrow> store \<Rightarrow> store_error + (nat \<times> store)" where
  "delete_many is st =
     (case migrate_from_json st of
        Inl e \<Rightarrow> Inl e
      | Inr st1 \<Rightarrow>
          (case delete_rows is (st_rows st1) of
             (n, rows) \<Rightarrow> Inr (n, fold forget_events is (st1\<lparr>st_rows := rows\<rparr>))))"

definition delete :: "string \<Rightarrow> store \<Rightarrow> store_error + (bool \<times> store)" where
  "delete i st = (case delete_many [i] st of Inl e \<Rightarrow> Inl e | Inr (n, st') \<Rightarrow> Inr (n = 1, st'))"

text \<open>\<open>check_state_file\<close>: an unreadable file refuses the start.\<close>

definition check_state_file :: "store \<Rightarrow> store_error + unit" where
  "check_state_file st =
     (case st_file st of LUnreadable m \<Rightarrow> Inl (StateFileError m) | _ \<Rightarrow> Inr ())"

section \<open>Redaction is a projection\<close>

lemma match_env_SomeD:
  assumes "match_env s = Some (p, rest)"
  obtains ws w sec where "s = ''-e'' @ ws @ w @ ''='' @ sec @ rest"
    and "p = ''-e'' @ ws @ w @ ''=''"
    and "ws \<noteq> []" "\<forall>c \<in> set ws. is_space c" "w \<noteq> []" "\<forall>c \<in> set w. is_word c"
    and "sec \<noteq> []" "\<forall>c \<in> set sec. \<not> is_space c" "rest = [] \<or> is_space (hd rest)"
proof -
  from assms obtain r where s: "s = CHR ''-'' # CHR ''e'' # r"
    by (auto simp: match_env_def split: list.splits if_splits)
  define ws r1 where "ws = takeWhile is_space r" and "r1 = dropWhile is_space r"
  define w r2 where "w = takeWhile is_word r1" and "r2 = dropWhile is_word r1"
  from assms s obtain r3 where r2: "r2 = CHR ''='' # r3"
    and sec: "takeWhile (\<lambda>c. \<not> is_space c) r3 \<noteq> []"
    and p: "p = ''-e'' @ ws @ w @ ''=''" and rest: "rest = dropWhile (\<lambda>c. \<not> is_space c) r3"
    and ne: "ws \<noteq> []" "w \<noteq> []"
    unfolding match_env_def ws_def r1_def w_def r2_def
    by (auto simp: Let_def split: list.splits if_splits)
  have "r = ws @ w @ r2"
    by (simp add: ws_def r1_def w_def r2_def)
  then have "s = ''-e'' @ ws @ w @ ''='' @ takeWhile (\<lambda>c. \<not> is_space c) r3 @ rest"
    by (simp add: s r2 rest)
  moreover have "rest = [] \<or> is_space (hd rest)"
    using dropWhile_stop[of "\<lambda>c. \<not> is_space c" r3] by (simp add: rest)
  ultimately show thesis
    using that ne sec p set_takeWhileD unfolding ws_def w_def by metis
qed

lemma match_env_intro:
  assumes "ws \<noteq> []" "\<forall>c \<in> set ws. is_space c" "w \<noteq> []" "\<forall>c \<in> set w. is_word c"
    and "sec \<noteq> []" "\<forall>c \<in> set sec. \<not> is_space c" "rest = [] \<or> is_space (hd rest)"
  shows "match_env (''-e'' @ ws @ w @ ''='' @ sec @ rest) = Some (''-e'' @ ws @ w @ ''='', rest)"
proof -
  have w0: "\<not> is_space (hd (w @ CHR ''='' # sec @ rest))"
    using assms(3,4) word_not_space by (cases w) auto
  have eq: "\<not> is_word CHR ''=''"
    by (simp add: is_word_def)
  have 1: "takeWhile is_space (ws @ w @ CHR ''='' # sec @ rest) = ws"
    and 2: "dropWhile is_space (ws @ w @ CHR ''='' # sec @ rest) = w @ CHR ''='' # sec @ rest"
    using takeWhile_append_stop[OF assms(2)] dropWhile_append_stop[OF assms(2)] w0 by blast+
  have 3: "takeWhile is_word (w @ CHR ''='' # sec @ rest) = w"
    and 4: "dropWhile is_word (w @ CHR ''='' # sec @ rest) = CHR ''='' # sec @ rest"
    using takeWhile_append_stop[OF assms(4), of "CHR ''='' # sec @ rest"]
      dropWhile_append_stop[OF assms(4), of "CHR ''='' # sec @ rest"] eq by auto
  have 5: "takeWhile (\<lambda>c. \<not> is_space c) (sec @ rest) = sec"
    and 6: "dropWhile (\<lambda>c. \<not> is_space c) (sec @ rest) = rest"
    using takeWhile_append_stop[OF assms(6), of rest] dropWhile_append_stop[OF assms(6), of rest]
      assms(7) by auto
  show ?thesis
    using assms(1,3,5) by (simp add: match_env_def Let_def 1 2 3 4 5 6)
qed

lemma match_env_head: "match_env s = Some (p, rest) \<Longrightarrow> s \<noteq> [] \<and> hd s = CHR ''-'' \<and> p \<noteq> [] \<and> hd p = CHR ''-''"
  by (erule match_env_SomeD) auto

lemma match_env_not_dash: "c \<noteq> CHR ''-'' \<Longrightarrow> match_env (c # cs) = None"
  using match_env_head by (cases "match_env (c # cs)") fastforce+

lemma redact_Nil [simp]: "redact [] = []"
  by (subst redact.simps) (simp add: match_env_def)

lemma redact_skip: "match_env (c # cs) = None \<Longrightarrow> redact (c # cs) = c # redact cs"
  by (subst redact.simps) simp

lemma redact_hit: "match_env s = Some (p, rest) \<Longrightarrow> redact s = p @ ''[REDACTED]'' @ redact rest"
  by (subst redact.simps) simp

lemma redact_plain_prefix: "\<forall>c \<in> set xs. c \<noteq> CHR ''-'' \<Longrightarrow> redact (xs @ ys) = xs @ redact ys"
  by (induction xs) (auto simp: redact_skip match_env_not_dash)

lemma redact_empty_iff: "redact s = [] \<longleftrightarrow> s = []"
  by (subst redact.simps) (auto simp: match_env_def split: option.splits list.splits)

lemma redact_hd: "s \<noteq> [] \<Longrightarrow> hd (redact s) = hd s"
proof (cases "match_env s")
  case None
  assume "s \<noteq> []"
  with None show ?thesis by (cases s) (simp_all add: redact_skip)
next
  case (Some a)
  then obtain p rest where a: "match_env s = Some (p, rest)" by (cases a) auto
  then show ?thesis
    using match_env_head[OF a] by (simp add: redact_hit[OF a] hd_append)
qed

lemma redact_prefix_origin:
  assumes "\<forall>x \<in> set pre. x \<noteq> CHR ''-''" and "redact cs = pre @ tl0"
  shows "\<exists>ys. cs = pre @ ys \<and> redact ys = tl0"
  using assms
proof (induction pre arbitrary: cs)
  case Nil
  then show ?case by simp
next
  case (Cons x xs)
  have "cs \<noteq> []" using Cons.prems(2) by auto
  then obtain c cs' where cs: "cs = c # cs'" by (cases cs) auto
  have "hd (redact cs) = x" unfolding Cons.prems(2) by simp
  then have "c = x" using redact_hd[OF \<open>cs \<noteq> []\<close>] unfolding cs by simp
  with Cons.prems(1) have "match_env cs = None" by (simp add: cs match_env_not_dash)
  with cs Cons.prems have "redact cs' = xs @ tl0" by (simp add: redact_skip)
  then obtain ys where "cs' = xs @ ys" "redact ys = tl0"
    using Cons.IH[of cs'] Cons.prems(1) by auto
  then show ?case using \<open>c = x\<close> cs by auto
qed

text \<open>Redacting what follows a position never makes the position match.\<close>

lemma match_env_redact_tail:
  assumes "match_env (c # cs) = None"
  shows "match_env (c # redact cs) = None"
proof (rule ccontr)
  assume "match_env (c # redact cs) \<noteq> None"
  then obtain p rest where "match_env (c # redact cs) = Some (p, rest)" by auto
  then obtain ws w sec where eq: "c # redact cs = ''-e'' @ ws @ w @ ''='' @ sec @ rest"
    and ws: "ws \<noteq> []" "\<forall>c \<in> set ws. is_space c" and w: "w \<noteq> []" "\<forall>c \<in> set w. is_word c"
    and sec: "sec \<noteq> []" "\<forall>c \<in> set sec. \<not> is_space c"
    by (rule match_env_SomeD)
  text \<open>Everything up to the equals sign is free of dashes, so it was there before.\<close>
  define pre where "pre = ''e'' @ ws @ w @ ''=''"
  have red: "redact cs = pre @ sec @ rest" and c: "c = CHR ''-''"
    using eq by (simp_all add: pre_def)
  have plain: "\<forall>x \<in> set pre. x \<noteq> CHR ''-''"
    using ws(2) w(2) word_not_dash space_not_dash by (auto simp: pre_def)
  obtain ys where cs: "cs = pre @ ys" and ys: "redact ys = sec @ rest"
    using redact_prefix_origin[OF plain red] by blast
  have ne: "ys \<noteq> []"
    using sec(1) redact_empty_iff[of ys] unfolding ys by simp
  then have hd: "hd ys = hd sec"
    using redact_hd[of ys] hd_append2[OF sec(1)] unfolding ys by simp
  define s1 where "s1 = takeWhile (\<lambda>c. \<not> is_space c) ys"
  have "s1 \<noteq> []"
    using ne hd sec by (cases ys; cases sec) (auto simp: s1_def)
  moreover have "ys = s1 @ dropWhile (\<lambda>c. \<not> is_space c) ys"
    by (simp add: s1_def)
  ultimately have "match_env (''-e'' @ ws @ w @ ''='' @ s1 @ dropWhile (\<lambda>c. \<not> is_space c) ys)
      = Some (''-e'' @ ws @ w @ ''='', dropWhile (\<lambda>c. \<not> is_space c) ys)"
    using ws w dropWhile_stop[of "\<lambda>c. \<not> is_space c" ys]
    by (intro match_env_intro) (auto simp: s1_def dest: set_takeWhileD)
  then show False
    using assms cs c \<open>ys = s1 @ _\<close> by (simp add: pre_def)
qed

lemma redact_idem: "redact (redact s) = redact s"
proof (induction s rule: redact.induct)
  case (1 s)
  show ?case
  proof (cases "match_env s")
    case None
    show ?thesis
    proof (cases s)
      case Nil
      then show ?thesis by simp
    next
      case (Cons c cs)
      with None have "match_env (c # cs) = None" by simp
      with "1"(1)[OF None Cons] show ?thesis
        by (simp add: Cons redact_skip match_env_redact_tail)
    qed
  next
    case (Some a)
    obtain p rest where a: "a = (p, rest)" by (cases a) auto
    with Some have m: "match_env s = Some (p, rest)" by simp
    from m obtain ws w and sec :: string where p: "p = ''-e'' @ ws @ w @ ''=''"
      and ws: "ws \<noteq> []" "\<forall>c \<in> set ws. is_space c" and w: "w \<noteq> []" "\<forall>c \<in> set w. is_word c"
      and rest: "rest = [] \<or> is_space (hd rest)"
      by (rule match_env_SomeD)
    have "redact rest = [] \<or> is_space (hd (redact rest))"
      using rest redact_hd redact_empty_iff by metis
    then have "match_env (p @ ''[REDACTED]'' @ redact rest) = Some (p, redact rest)"
      using match_env_intro[OF ws w, of "''[REDACTED]''" "redact rest"] p
      by (simp add: is_space_def)
    moreover have "redact (redact rest) = redact rest"
      using "1"(2)[OF Some] a by simp
    ultimately show ?thesis
      by (simp add: redact_hit[OF m] redact_hit)
  qed
qed

section \<open>Well-formed tables\<close>

text \<open>
  The table's invariant: ids are unique and never empty (the primary key), and the columns are
  the document's own projection.
\<close>

definition wf_rows :: "drow list \<Rightarrow> bool" where
  "wf_rows rows \<longleftrightarrow> distinct (map row_id rows) \<and>
     (\<forall>row \<in> set rows. row = fields_of (row_record row) \<and> row_id row \<noteq> [])"

definition wf_store :: "store \<Rightarrow> bool" where
  "wf_store st \<longleftrightarrow> wf_rows (st_rows st)"

text \<open>The record set a reader sees, as a list and as a map from ids.\<close>

definition view :: "store \<Rightarrow> dep list" where
  "view st = map row_record (st_rows st)"

definition lookup :: "store \<Rightarrow> string \<Rightarrow> dep option" where
  "lookup st i = map_option row_record (find_row i (st_rows st))"

lemma fields_of_sel [simp]:
  "row_id (fields_of r) = d_id r" "row_record (fields_of r) = r"
  "row_status (fields_of r) = d_status r" "row_runtime (fields_of r) = d_runtime r"
  "row_created_at (fields_of r) = d_created_at r"
  by (simp_all add: fields_of_def)

lemma snd_apply_row [simp]: "snd (apply_row row r) = fields_of r"
  by (simp add: apply_row_def Let_def)

lemma row_of_fields [simp]: "row_of r = fields_of r"
  by (simp add: row_of_def)

text \<open>\<open>_apply\<close> reports a change exactly when the stored row differs from the wanted one.\<close>

lemma apply_row_changed: "fst (apply_row row r) \<longleftrightarrow> row \<noteq> fields_of r"
  by (cases row) (auto simp: apply_row_def Let_def fields_of_def)

lemma find_replace:
  "(\<And>x. row_id x = i \<Longrightarrow> row_id (g x) = i) \<Longrightarrow>
   find_row j (map (\<lambda>x. if row_id x = i then g x else x) rows) =
     (if j = i then map_option g (find_row j rows) else find_row j rows)"
  by (induction rows) auto

lemma find_write_row [store_laws]:
  "find_row j (write_row r rows) = (if j = d_id r then Some (fields_of r) else find_row j rows)"
  by (auto simp: write_row_def find_append find_replace split: option.splits)

lemma wf_rows_map_replace:
  "wf_rows rows \<Longrightarrow> d_id r = i \<Longrightarrow>
   wf_rows (map (\<lambda>x. if row_id x = i then fields_of r else x) rows)"
  unfolding wf_rows_def by (auto simp: comp_def if_distrib cong: if_cong)

lemma wf_write_row [wf_preserve]:
  assumes "wf_rows rows" and "d_id r \<noteq> []"
  shows "wf_rows (write_row r rows)"
proof (cases "find_row (d_id r) rows")
  case None
  then have "\<forall>x \<in> set rows. row_id x \<noteq> d_id r" by (simp add: find_None_iff')
  with assms None show ?thesis
    by (auto simp: write_row_def wf_rows_def)
next
  case (Some a)
  with assms show ?thesis
    unfolding write_row_def snd_apply_row by (simp add: wf_rows_map_replace)
qed

lemma wf_import_items: "wf_rows rows \<Longrightarrow> wf_rows (import_items items rows)"
  by (induction items rows rule: import_items.induct) (auto simp: wf_write_row)

lemma wf_migrate [wf_preserve]: "wf_store st \<Longrightarrow> migrate_from_json st = Inr st1 \<Longrightarrow> wf_store st1"
  by (auto simp: migrate_from_json_def wf_store_def wf_import_items
      split: if_splits legacy_file.splits)

text \<open>A store with nothing left to import: what \<open>migrate_from_json\<close> leaves behind.\<close>

definition settled :: "store \<Rightarrow> bool" where
  "settled st \<longleftrightarrow> st_imported st \<or> st_file st = LMissing"

lemma settled_migrate [simp]: "settled st \<Longrightarrow> migrate_from_json st = Inr st"
  by (auto simp: settled_def migrate_from_json_def)

lemma migrate_settles: "migrate_from_json st = Inr st1 \<Longrightarrow> settled st1"
  by (auto simp: settled_def migrate_from_json_def split: if_splits legacy_file.splits)

lemma settled_rows [simp]:
  "settled (st\<lparr>st_rows := rows\<rparr>) = settled st" "settled (st\<lparr>st_events := es\<rparr>) = settled st"
  by (simp_all add: settled_def)

lemma find_row_in: "find_row i rows = Some row \<Longrightarrow> row \<in> set rows \<and> row_id row = i"
  by (auto dest: find_SomeD')

lemma wf_find_id: "wf_rows rows \<Longrightarrow> find_row i rows = Some row \<Longrightarrow> d_id (row_record row) = i"
  by (auto simp: wf_rows_def dest!: find_row_in) (metis fields_of_sel(1))

lemma lookup_id: "wf_store st \<Longrightarrow> lookup st i = Some r \<Longrightarrow> d_id r = i"
  by (auto simp: lookup_def wf_store_def dest: wf_find_id)

subsection \<open>Per-row operations\<close>

lemma update_lookup [store_laws]:
  assumes wf: "wf_store st" and m: "settled st" and f: "\<And>r. d_id (f r) = d_id r"
  shows "\<exists>st'. update i f st = Inr (map_option f (lookup st i), st') \<and>
           lookup st' = (\<lambda>j. if j = i then map_option f (lookup st i) else lookup st j) \<and>
           wf_store st' \<and> settled st' \<and> st_events st' = st_events st"
proof (cases "find_row i (st_rows st)")
  case None
  then have "update i f st = Inr (None, st)" and "lookup st i = None"
    by (simp_all add: update_def m lookup_def)
  then show ?thesis using wf m by auto
next
  case (Some row)
  let ?r = "f (row_record row)"
  let ?st = "st\<lparr>st_rows := map (\<lambda>x. if row_id x = i then fields_of ?r else x) (st_rows st)\<rparr>"
  have id: "d_id ?r = i"
    using wf_find_id[OF wf[unfolded wf_store_def] Some] f by simp
  have "update i f st = Inr (Some ?r, ?st)"
    unfolding update_def snd_apply_row by (simp add: m Some Let_def)
  moreover have "lookup ?st = (\<lambda>j. if j = i then Some ?r else lookup st j)"
    using id Some by (auto simp: lookup_def find_replace fun_eq_iff)
  moreover have "wf_store ?st"
    using wf id by (simp add: wf_store_def wf_rows_map_replace)
  moreover have "settled ?st"
    using m by simp
  ultimately show ?thesis using Some by (auto simp: lookup_def)
qed

lemma upsert_lookup [store_laws]:
  assumes "wf_store st" and "settled st" and "d_id r \<noteq> []"
  shows "\<exists>st'. upsert r st = Inr st' \<and> lookup st' = (lookup st)(d_id r \<mapsto> r) \<and>
           wf_store st' \<and> settled st' \<and> st_events st' = st_events st"
  using assms
  by (auto simp: upsert_def lookup_def find_write_row fun_eq_iff wf_store_def wf_write_row)

lemma delete_rows_find:
  "find_row j (snd (delete_rows is rows)) = (if j \<in> set is then None else find_row j rows)"
  unfolding delete_rows_def by (induction rows) auto

lemma wf_delete_rows: "wf_rows rows \<Longrightarrow> wf_rows (snd (delete_rows is rows))"
  by (auto simp: delete_rows_def wf_rows_def distinct_map inj_on_def)

lemma forget_events_simps [simp]:
  "st_rows (fold forget_events is st) = st_rows st"
  "st_imported (fold forget_events is st) = st_imported st"
  "st_file (fold forget_events is st) = st_file st"
  "st_events (fold forget_events is st) = filter (\<lambda>e. ev_resource e \<notin> set is) (st_events st)"
  by (induction "is" arbitrary: st) (auto simp: forget_events_def intro: filter_cong)

lemma delete_many_lookup [store_laws]:
  assumes "wf_store st" and "settled st"
  shows "\<exists>n st'. delete_many is st = Inr (n, st') \<and>
           lookup st' = (\<lambda>j. if j \<in> set is then None else lookup st j) \<and>
           wf_store st' \<and> settled st' \<and>
           st_events st' = filter (\<lambda>e. ev_resource e \<notin> set is) (st_events st)"
proof -
  obtain n rows where d: "delete_rows is (st_rows st) = (n, rows)" by (cases "delete_rows is (st_rows st)")
  then have rows: "rows = snd (delete_rows is (st_rows st))" by simp
  let ?st = "fold forget_events is (st\<lparr>st_rows := rows\<rparr>)"
  have "delete_many is st = Inr (n, ?st)"
    by (simp add: delete_many_def assms d)
  moreover have "lookup ?st = (\<lambda>j. if j \<in> set is then None else lookup st j)"
    by (auto simp: lookup_def rows delete_rows_find fun_eq_iff)
  moreover have "wf_store ?st"
    using assms(1) wf_delete_rows by (simp add: wf_store_def rows)
  moreover have "settled ?st"
    using assms(2) by (simp add: settled_def)
  ultimately show ?thesis by auto
qed

subsection \<open>Whole-set operations\<close>

lemma wanted_Nil [simp]: "wanted [] = []"
  by (simp add: wanted_def)

lemma wanted_snoc:
  "wanted (rs @ [r]) = (if d_id r = [] then wanted rs else dict_set (d_id r) r (wanted rs))"
  by (simp add: wanted_def)

lemma wanted_lookup: "map_of (wanted rs) i = (if i = [] then None else find (\<lambda>r. d_id r = i) (rev rs))"
  by (induction rs rule: rev_induct) (auto simp: wanted_snoc)

lemma wanted_distinct: "distinct (map fst (wanted rs))"
  by (induction rs rule: rev_induct) (auto simp: wanted_snoc distinct_update)

lemma wanted_id: "(i, r) \<in> set (wanted rs) \<Longrightarrow> d_id r = i \<and> i \<noteq> []"
proof -
  assume "(i, r) \<in> set (wanted rs)"
  then have "map_of (wanted rs) i = Some r"
    by (rule map_of_is_SomeI[OF wanted_distinct])
  then show ?thesis
    by (auto simp: wanted_lookup split: if_splits dest: find_SomeD')
qed

lemma find_row_fields:
  assumes "\<forall>x \<in> set w. d_id (snd x) = fst x"
  shows "find_row j (map (\<lambda>(i, r). row_of r) w) = map_option fields_of (map_of w j)"
  using assms by (induction w) auto

lemma find_map_keep:
  assumes "\<And>x. x \<in> set xs \<Longrightarrow> row_id (g x) = row_id x"
  shows "find_row j (map g xs) = map_option g (find_row j xs)"
  using assms by (induction xs) auto

lemma find_row_filter:
  "find_row j (filter (\<lambda>x. row_id x \<in> S) rows) = (if j \<in> S then find_row j rows else None)"
  by (induction rows) auto

lemma map_of_filter_keys:
  "map_of (filter (\<lambda>(i, r). P i) w) j = (if P j then map_of w j else None)"
  by (induction w) auto

text \<open>\<open>save\<close> replaces the set: afterwards the table holds the given records, the last of each id.\<close>

lemma save_lookup [store_laws]:
  "lookup (save rs st) i = (if i = [] then None else find (\<lambda>r. d_id r = i) (rev rs))"
proof -
  let ?w = "wanted rs"
  let ?g = "\<lambda>row. case map_of ?w (row_id row) of Some r \<Rightarrow> snd (apply_row row r) | None \<Rightarrow> row"
  let ?kept = "filter (\<lambda>row. row_id row \<in> set (map fst ?w)) (st_rows st)"
  let ?added = "filter (\<lambda>(i, r). find_row i (st_rows st) = None) ?w"
  have g: "row_id (?g x) = row_id x" for x
    using wanted_lookup[of rs] by (auto split: option.splits if_splits dest!: find_SomeD')
  have wid: "\<forall>x \<in> set ?w. d_id (snd x) = fst x"
    using wanted_id by auto
  have kept: "find_row i (map ?g ?kept) = (if i \<in> set (map fst ?w) then map_option ?g (find_row i (st_rows st)) else None)"
    using g by (simp only: find_map_keep find_row_filter) simp
  have added: "find_row i (map (\<lambda>(i, r). row_of r) ?added)
      = (if find_row i (st_rows st) = None then map_option fields_of (map_of ?w i) else None)"
    using wid by (subst find_row_fields) (auto simp: map_of_filter_keys)
  have "lookup (save rs st) i = map_of ?w i"
  proof (cases "map_of ?w i")
    case None
    then have "i \<notin> set (map fst ?w)"
      by (simp add: map_of_eq_None_iff)
    then show ?thesis
      using kept added None by (simp add: lookup_def save_def Let_def find_append)
  next
    case (Some r)
    then have "i \<in> set (map fst ?w)"
      by (simp add: map_of_Some_in)
    with Some show ?thesis
      using kept added
      by (auto simp: lookup_def save_def Let_def find_append split: option.splits dest!: find_SomeD')
  qed
  then show ?thesis by (simp add: wanted_lookup)
qed

lemma save_wf [wf_preserve]:
  assumes "wf_store st" shows "wf_store (save rs st)"
proof -
  let ?w = "wanted rs"
  let ?g = "\<lambda>row. case map_of ?w (row_id row) of Some r \<Rightarrow> snd (apply_row row r) | None \<Rightarrow> row"
  let ?kept = "filter (\<lambda>row. row_id row \<in> set (map fst ?w)) (st_rows st)"
  let ?added = "filter (\<lambda>(i, r). find_row i (st_rows st) = None) ?w"
  have g: "row_id (?g x) = row_id x" for x
    using wanted_lookup[of rs] by (auto split: option.splits if_splits dest!: find_SomeD')
  have ids: "map row_id (map ?g ?kept) = map row_id ?kept"
    by (simp only: map_map comp_def g)
  have aids: "map row_id (map (\<lambda>(i, r). row_of r) ?added) = map fst ?added"
    using wanted_id by (auto simp: comp_def)
  have "distinct (map row_id ?kept)"
    using assms by (auto simp: wf_store_def wf_rows_def distinct_map intro: inj_on_subset)
  moreover have "distinct (map fst ?added)"
    using wanted_distinct[of rs] by (auto simp: distinct_map intro: inj_on_subset)
  moreover have "set (map row_id ?kept) \<inter> set (map fst ?added) = {}"
    by (auto simp: find_None_iff')
  ultimately have d: "distinct (map row_id (map ?g ?kept @ map (\<lambda>(i, r). row_of r) ?added))"
    unfolding map_append ids aids by simp
  have g_wf: "?g x = fields_of (row_record (?g x)) \<and> row_id (?g x) \<noteq> []" if "x \<in> set (st_rows st)" for x
    using assms that g[of x] by (auto simp: wf_store_def wf_rows_def split: option.splits)
  have "\<forall>row \<in> set (map ?g ?kept @ map (\<lambda>(i, r). row_of r) ?added).
          row = fields_of (row_record row) \<and> row_id row \<noteq> []"
    using g_wf wanted_id by auto
  with d show ?thesis
    by (simp add: save_def Let_def wf_store_def wf_rows_def)
qed

lemma save_settled [simp]: "settled (save rs st) = settled st"
  by (simp add: save_def Let_def settled_def)

lemma view_lookup:
  "wf_store st \<Longrightarrow> lookup st i = find (\<lambda>r. d_id r = i) (view st)"
proof -
  have "wf_rows rows \<Longrightarrow> map_option row_record (find_row i rows) = find (\<lambda>r. d_id r = i) (map row_record rows)" for rows
  proof (induction rows)
    case (Cons row rows)
    then have "row_id row = d_id (row_record row)" and "wf_rows rows"
      by (auto simp: wf_rows_def) (metis fields_of_sel(1))
    with Cons.IH show ?case by auto
  qed simp
  then show "wf_store st \<Longrightarrow> lookup st i = find (\<lambda>r. d_id r = i) (view st)"
    by (simp add: lookup_def view_def wf_store_def)
qed

lemma wf_view: "wf_store st \<Longrightarrow> distinct (map d_id (view st)) \<and> (\<forall>r \<in> set (view st). d_id r \<noteq> [] \<and> lookup st (d_id r) = Some r)"
proof -
  assume wf: "wf_store st"
  then have rid: "\<forall>row \<in> set (st_rows st). row_id row = d_id (row_record row)"
    by (auto simp: wf_store_def wf_rows_def) (metis fields_of_sel(1))
  then have "map d_id (view st) = map row_id (st_rows st)"
    by (simp add: view_def)
  with wf have d: "distinct (map d_id (view st))"
    by (simp add: wf_store_def wf_rows_def)
  have find: "distinct (map d_id rs) \<Longrightarrow> r \<in> set rs \<Longrightarrow> find (\<lambda>x. d_id x = d_id r) rs = Some r" for rs :: "dep list" and r
    by (induction rs) (auto simp: rev_image_eqI)
  show ?thesis
    using d find[OF d] wf rid by (auto simp: view_lookup[OF wf]) (auto simp: view_def wf_store_def wf_rows_def)
qed

subsection \<open>Loading redacts\<close>

definition redact_record :: "dep \<Rightarrow> dep" where
  "redact_record r = r\<lparr>d_launch_command := redact (d_launch_command r)\<rparr>"

lemma no_secret_redact: "\<not> has_secret s \<Longrightarrow> redact s = s"
proof (induction s)
  case (Cons c s)
  then have "match_env (c # s) = None" "\<not> has_secret s"
    by (cases "match_env (c # s)"; simp)+
  with Cons.IH show ?case by (simp add: redact_skip)
qed simp

lemma redact_record_id [simp]: "d_id (redact_record r) = d_id r"
  by (simp add: redact_record_def)

lemma load_loop_redacts:
  assumes "wf_store st" "settled st" "distinct (map d_id rs)"
    and "\<forall>r \<in> set rs. d_id r \<noteq> [] \<and> lookup st (d_id r) = Some r"
  shows "\<exists>st'. load_loop rs st = Inr (map redact_record rs, st') \<and> wf_store st' \<and> settled st' \<and>
           lookup st' = (\<lambda>j. if j \<in> d_id ` set rs then map_option redact_record (lookup st j) else lookup st j)"
  using assms
proof (induction rs arbitrary: st)
  case Nil
  then show ?case by auto
next
  case (Cons r rs)
  let ?cmd = "d_launch_command r"
  show ?case
  proof (cases "?cmd \<noteq> [] \<and> has_secret ?cmd")
    case False
    then have "redact ?cmd = ?cmd" using no_secret_redact by auto
    then have r: "redact_record r = r" by (simp add: redact_record_def)
    from Cons.IH[of st] Cons.prems obtain st' where
      "load_loop rs st = Inr (map redact_record rs, st')" "wf_store st'" "settled st'"
      "lookup st' = (\<lambda>j. if j \<in> d_id ` set rs then map_option redact_record (lookup st j) else lookup st j)"
      by auto
    then show ?thesis using False r Cons.prems by (auto simp: Let_def fun_eq_iff)
  next
    case True
    let ?f = "\<lambda>x. x\<lparr>d_launch_command := redact ?cmd\<rparr>"
    from update_lookup[OF Cons.prems(1,2), of ?f "d_id r"] obtain st1 where u:
      "update (d_id r) ?f st = Inr (map_option ?f (lookup st (d_id r)), st1)"
      "lookup st1 = (\<lambda>j. if j = d_id r then map_option ?f (lookup st (d_id r)) else lookup st j)"
      "wf_store st1" "settled st1"
      by auto
    have r: "lookup st (d_id r) = Some r" "?f r = redact_record r" "d_id r \<noteq> []"
      using Cons.prems by (auto simp: redact_record_def)
    have ne: "d_id x \<noteq> d_id r" if "x \<in> set rs" for x
      using Cons.prems(3) that by (auto simp: image_iff)
    have "\<forall>x \<in> set rs. d_id x \<noteq> [] \<and> lookup st1 (d_id x) = Some x"
      using Cons.prems(4) ne by (simp add: u(2))
    with Cons.IH[OF u(3,4)] Cons.prems obtain st' where
      "load_loop rs st1 = Inr (map redact_record rs, st')" "wf_store st'" "settled st'"
      "lookup st' = (\<lambda>j. if j \<in> d_id ` set rs then map_option redact_record (lookup st1 j) else lookup st1 j)"
      by auto
    then show ?thesis
      using True r u Cons.prems by (auto simp: Let_def fun_eq_iff)
  qed
qed

lemma load_redacts:
  assumes "wf_store st" and "settled st"
  shows "\<exists>st'. load st = Inr (map redact_record (view st), st') \<and> wf_store st' \<and> settled st' \<and>
           lookup st' = map_option redact_record \<circ> lookup st"
proof -
  have v: "distinct (map d_id (view st))" "\<forall>r \<in> set (view st). d_id r \<noteq> [] \<and> lookup st (d_id r) = Some r"
    using wf_view[OF assms(1)] by auto
  have "lookup st j = None" if "j \<notin> d_id ` set (view st)" for j
    using that by (auto simp: view_lookup[OF assms(1)] find_None_iff')
  with load_loop_redacts[OF assms v] show ?thesis
    by (fastforce simp: load_def assms(2) view_def fun_eq_iff)
qed

section \<open>The table as a record store\<close>

text \<open>The effect of a per-row operation on the store, when it succeeds.\<close>

definition do_upsert :: "dep \<Rightarrow> store \<Rightarrow> store" where
  "do_upsert r st = (case upsert r st of Inl _ \<Rightarrow> st | Inr st' \<Rightarrow> st')"

definition do_delete :: "string \<Rightarrow> store \<Rightarrow> store" where
  "do_delete i st = (case delete i st of Inl _ \<Rightarrow> st | Inr (_, st') \<Rightarrow> st')"

definition do_update :: "string \<Rightarrow> (dep \<Rightarrow> dep) \<Rightarrow> store \<Rightarrow> store" where
  "do_update i f st = (case update i f st of Inl _ \<Rightarrow> st | Inr (_, st') \<Rightarrow> st')"

definition store_ok :: "store \<Rightarrow> bool" where
  "store_ok st \<longleftrightarrow> wf_store st \<and> settled st"

lemma delete_lookup:
  assumes "wf_store st" and "settled st"
  shows "\<exists>b st'. delete i st = Inr (b, st') \<and> lookup st' = (lookup st)(i := None) \<and>
           wf_store st' \<and> settled st'"
  using delete_many_lookup[OF assms, of "[i]"] by (auto simp: delete_def fun_eq_iff)

interpretation deployments: record_store lookup do_upsert do_delete do_update d_id store_ok
  "\<lambda>r. d_id r \<noteq> []"
proof unfold_locales
  fix s and r :: dep
  assume "store_ok s" and "d_id r \<noteq> []"
  with upsert_lookup[of s r] show "store_ok (do_upsert r s)"
    and "lookup (do_upsert r s) = (lookup s)(d_id r \<mapsto> r)"
    by (auto simp: do_upsert_def store_ok_def)
next
  fix s k
  assume "store_ok s"
  with delete_lookup[of s k] show "store_ok (do_delete k s)"
    and "lookup (do_delete k s) = (lookup s)(k := None)"
    by (auto simp: do_delete_def store_ok_def)
next
  fix s k and f :: "dep \<Rightarrow> dep"
  assume "store_ok s" and "\<forall>r. d_id (f r) = d_id r"
  with update_lookup[of s f k] show "store_ok (do_update k f s)"
    and "lookup (do_update k f s) = (lookup s)(k := map_option f (lookup s k))"
    by (auto simp: do_update_def store_ok_def fun_eq_iff)
next
  fix s k and r :: dep
  assume "store_ok s" and "lookup s k = Some r"
  then show "d_id r = k"
    by (auto simp: store_ok_def intro: lookup_id)
qed

section \<open>Secrets do not reach a reader\<close>

text \<open>
  A match never reaches over a space followed by a dash: text that ends in a space is redacted
  on its own.
\<close>

lemma match_env_append_None:
  assumes "match_env s = None" and "s \<noteq> []" and "is_space (last s)" and "hd x = CHR ''-''" and "x \<noteq> []"
  shows "match_env (s @ x) = None"
proof (rule ccontr)
  assume "match_env (s @ x) \<noteq> None"
  then obtain p rest where "match_env (s @ x) = Some (p, rest)" by auto
  then obtain ws w and sec :: string where eq: "s @ x = ''-e'' @ ws @ w @ ''='' @ sec @ rest"
    and ws: "ws \<noteq> []" "\<forall>c \<in> set ws. is_space c" and w: "w \<noteq> []" "\<forall>c \<in> set w. is_word c"
    and sec: "sec \<noteq> []" "\<forall>c \<in> set sec. \<not> is_space c" and rest: "rest = [] \<or> is_space (hd rest)"
    by (rule match_env_SomeD)
  let ?pre = "''e'' @ ws @ w @ ''=''"
  have nodash: "\<forall>c \<in> set ?pre. c \<noteq> CHR ''-''"
    using ws w space_not_dash word_not_dash by auto
  obtain s' where s: "s = CHR ''-'' # s'" using eq assms(2) by (cases s) auto
  have eq': "s' @ x = ?pre @ sec @ rest" using eq s by simp
  text \<open>The dash that opens \<open>x\<close> lies behind the equals sign.\<close>
  have "length ?pre \<le> length s'"
  proof (rule ccontr)
    assume "\<not> length ?pre \<le> length s'"
    then have lt: "length s' < length ?pre" by simp
    then have "?pre ! length s' = (s' @ x) ! length s'"
      by (metis eq' nth_append)
    also have "\<dots> = CHR ''-''" using assms(4,5) by (simp add: nth_append hd_conv_nth)
    finally show False using nodash lt nth_mem by metis
  qed
  define pre where "pre = ?pre"
  have len: "length pre \<le> length s'" and eq2: "s' @ x = pre @ (sec @ rest)"
    using \<open>length ?pre \<le> length s'\<close> eq' unfolding pre_def by simp_all
  have "take (length pre) s' = pre"
    using arg_cong[OF eq2, of "take (length pre)"] len by simp
  moreover have "drop (length pre) s' @ x = sec @ rest"
    using arg_cong[OF eq2, of "drop (length pre)"] len by simp
  ultimately obtain u where u: "s' = ?pre @ u" "u @ x = sec @ rest"
    unfolding pre_def by (metis append_take_drop_id)
  have "\<not> is_space CHR ''=''" by (simp add: is_space_def)
  with u(1) s assms(3) have "u \<noteq> []" by (auto)
  then have lastu: "is_space (last u)" using u(1) s assms(3) by simp
  have "\<exists>v. u = sec @ v"
  proof -
    from u(2) obtain v where "u = sec @ v \<or> sec = u @ v"
      by (auto simp: append_eq_append_conv2)
    moreover have "\<not> (\<exists>v. sec = u @ v)"
    proof
      assume "\<exists>v. sec = u @ v"
      then have "last u \<in> set sec" using \<open>u \<noteq> []\<close> by auto
      then show False using sec(2) lastu by blast
    qed
    ultimately show ?thesis by blast
  qed
  then obtain v where v: "u = sec @ v" ..
  with lastu sec have "v \<noteq> []" by (cases "v = []") auto
  with v u(2) rest have "is_space (hd v)" by (auto simp: hd_append)
  then have "match_env (''-e'' @ ws @ w @ ''='' @ sec @ v) = Some (''-e'' @ ws @ w @ ''='', v)"
    using ws w sec by (intro match_env_intro) auto
  with assms(1) s u(1) v show False by simp
qed

lemma match_env_append_Some:
  assumes "match_env s = Some (p, rest)" and "is_space (last s)" and "hd x = CHR ''-''"
  shows "match_env (s @ x) = Some (p, rest @ x) \<and> rest \<noteq> [] \<and> is_space (last rest)"
proof -
  from assms(1) obtain ws w and sec :: string where eq: "s = ''-e'' @ ws @ w @ ''='' @ sec @ rest"
    and p: "p = ''-e'' @ ws @ w @ ''=''"
    and ws: "ws \<noteq> []" "\<forall>c \<in> set ws. is_space c" and w: "w \<noteq> []" "\<forall>c \<in> set w. is_word c"
    and sec: "sec \<noteq> []" "\<forall>c \<in> set sec. \<not> is_space c" and rest: "rest = [] \<or> is_space (hd rest)"
    by (rule match_env_SomeD)
  have ne: "rest \<noteq> []" using eq assms(2) sec by (cases "rest = []") auto
  then have "is_space (last rest)" using eq assms(2) by simp
  moreover have "match_env (''-e'' @ ws @ w @ ''='' @ sec @ (rest @ x)) = Some (p, rest @ x)"
    unfolding p using ws w sec rest ne by (intro match_env_intro) (auto simp: hd_append)
  ultimately show ?thesis using eq ne by simp
qed

lemma redact_append:
  assumes "s = [] \<or> is_space (last s)" and "hd x = CHR ''-''" and "x \<noteq> []"
  shows "redact (s @ x) = redact s @ redact x"
  using assms(1)
proof (induction s rule: redact.induct)
  case (1 s)
  show ?case
  proof (cases s)
    case Nil
    then show ?thesis by simp
  next
    case (Cons c cs)
    with "1.prems" have last: "is_space (last s)" by simp
    show ?thesis
    proof (cases "match_env s")
      case None
      have "cs = [] \<or> is_space (last cs)" using last Cons by (cases cs) auto
      with "1.IH"(1)[OF None Cons] have "redact (cs @ x) = redact cs @ redact x" by simp
      moreover have "match_env (s @ x) = None"
        using None last assms(2,3) Cons by (intro match_env_append_None) auto
      ultimately show ?thesis using None Cons by (simp add: redact_skip)
    next
      case (Some a)
      obtain p rest where a: "a = (p, rest)" by (cases a) auto
      with Some have m: "match_env s = Some (p, rest)" by simp
      note app = match_env_append_Some[OF m last assms(2)]
      have "redact (rest @ x) = redact rest @ redact x"
        using "1.IH"(2)[OF Some] a app by simp
      with app m show ?thesis by (simp add: redact_hit)
    qed
  qed
qed

text \<open>
  The value of a \<open>-e KEY=value\<close> argument has no influence on the redacted command, wherever
  in the command it stands.
\<close>

lemma redact_env_arg:
  assumes "pre = [] \<or> is_space (last pre)"
    and "ws \<noteq> []" "\<forall>c \<in> set ws. is_space c" "w \<noteq> []" "\<forall>c \<in> set w. is_word c"
    and "sec \<noteq> []" "\<forall>c \<in> set sec. \<not> is_space c" "rest = [] \<or> is_space (hd rest)"
  shows "redact (pre @ ''-e'' @ ws @ w @ ''='' @ sec @ rest)
       = redact pre @ ''-e'' @ ws @ w @ ''=[REDACTED]'' @ redact rest"
proof -
  have "redact (''-e'' @ ws @ w @ ''='' @ sec @ rest) = ''-e'' @ ws @ w @ ''=[REDACTED]'' @ redact rest"
    using match_env_intro[OF assms(2-8)] by (subst redact_hit) auto
  then show ?thesis
    using redact_append[OF assms(1), of "''-e'' @ ws @ w @ ''='' @ sec @ rest"] by simp
qed

section \<open>Properties\<close>

text \<open>A record with every key at its default, and the store the witnesses use.\<close>

definition blank_dep :: "string \<Rightarrow> dep" where
  "blank_dep i = \<lparr>d_id = i, d_recipe_id = [], d_name = [], d_nodes = [], d_status = ''starting'',
     d_created_at = [], d_started_at = None, d_ready_at = None, d_stopped_at = Some None,
     d_error_message = None, d_port = None, d_rendezvous_port = None, d_rpc_port = None,
     d_launch_command = [], d_runtime = ''native'', d_image_ref = [], d_container_name = [],
     d_image_present = False, d_node_count = 1, d_readiness_url = [], d_served_model = [],
     d_gpu_fraction = None, d_generation = None, d_ranks = [], d_orphans = [],
     d_final_logs = [], d_warnings = [], d_reconciled = False, d_sync = [], d_sync_reason = [],
     d_sync_intent = []\<rparr>"

lemma blank_dep_id [simp]: "d_id (blank_dep i) = i"
  by (simp add: blank_dep_def)

definition ex_store :: store where
  "ex_store = \<lparr>st_rows = [row_of (blank_dep ''a''), row_of (blank_dep ''b'')], st_imported = True,
     st_file = LItems [LRecord (blank_dep ''a'')], st_events = []\<rparr>"

lemma ex_store_ok [simp]: "store_ok ex_store"
  by (simp add: store_ok_def wf_store_def wf_rows_def ex_store_def settled_def)

lemma ex_store_wf: "wf_store ex_store" "settled ex_store"
  using ex_store_ok by (simp_all add: store_ok_def)

text \<open>A write of one row, as any thread may issue it.\<close>

fun row_write :: "(string, dep) row_op \<Rightarrow> store \<Rightarrow> store" where
  "row_write (Put r) st = do_upsert r st"
| "row_write (Drop i) st = do_delete i st"
| "row_write (Modify i f) st = do_update i f st"

definition write_ok :: "(string, dep) row_op \<Rightarrow> bool" where
  "write_ok a \<longleftrightarrow> (case a of Put r \<Rightarrow> d_id r \<noteq> [] | Drop _ \<Rightarrow> True | Modify _ f \<Rightarrow> (\<forall>r. d_id (f r) = d_id r))"

definition writes_whole :: "string \<Rightarrow> (string, dep) row_op \<Rightarrow> bool" where
  "writes_whole i a \<longleftrightarrow> (case a of Put r \<Rightarrow> d_id r = i | _ \<Rightarrow> False)"

definition write_names :: "string \<Rightarrow> (string, dep) row_op \<Rightarrow> bool" where
  "write_names i a \<longleftrightarrow> (case a of Put r \<Rightarrow> d_id r = i | Drop j \<Rightarrow> j = i | Modify j _ \<Rightarrow> j = i)"

fun row_effect :: "(string, dep) row_op \<Rightarrow> dep option \<Rightarrow> dep option" where
  "row_effect (Put r) x = Some r"
| "row_effect (Drop i) x = None"
| "row_effect (Modify i f) x = map_option f x"

lemma row_write_run: "row_write = deployments.run_op"
proof (intro ext)
  show "row_write a s = deployments.run_op a s" for a s by (cases a) simp_all
qed

lemma write_ok_op: "write_ok = deployments.op_ok"
proof (intro ext)
  show "write_ok a = deployments.op_ok a" for a by (cases a) (simp_all add: write_ok_def)
qed

lemma writes_whole_put: "writes_whole = deployments.is_put"
proof (intro ext)
  show "writes_whole i a = deployments.is_put i a" for i a
    by (cases a) (simp_all add: writes_whole_def deployments.is_put_def)
qed

lemma write_names_key: "write_names i = (\<lambda>a. deployments.op_key a = i)"
proof (intro ext)
  show "write_names i a = (deployments.op_key a = i)" for a by (cases a) (simp_all add: write_names_def)
qed

lemma row_effect_op: "row_effect = deployments.op_row"
proof (intro ext)
  show "row_effect a x = deployments.op_row a x" for a x by (cases a) simp_all
qed

text \<open>
  C28. Whatever per-row writes any number of threads issue, in whatever order they land, the
  record of an id is what the writes naming that id make of it in their order; a write to
  another deployment never changes it.
\<close>

theorem row_writes_independent:
  assumes "store_ok st" and "\<forall>a \<in> set ops. write_ok a"
  shows "lookup (fold row_write ops st) i
       = fold row_effect (filter (write_names i) ops) (lookup st i)"
  using deployments.look_run_ops[of st ops i] assms
  by (simp add: row_write_run write_ok_op row_effect_op write_names_key)

theorem row_writes_independent_witness:
  "lookup (fold row_write [Drop ''a'', Put (blank_dep ''b'')] ex_store) ''a'' = None"
  using row_writes_independent[of ex_store "[Drop ''a'', Put (blank_dep ''b'')]" "''a''"]
  by (simp add: write_ok_def write_names_def)

text \<open>
  C29. A deleted deployment stays deleted: after \<open>delete\<close>, no sequence of merges and deletions, and
  no write of another record, brings its row back, so a background thread that keeps reporting
  progress on it through \<open>update\<close> cannot resurrect it.
\<close>

theorem deleted_stays_deleted:
  assumes "store_ok st" and "\<forall>a \<in> set ops. write_ok a \<and> \<not> writes_whole i a"
  shows "lookup (fold row_write ops (do_delete i st)) i = None"
  using deployments.dropped_stays[of st ops i] assms
  by (simp add: row_write_run write_ok_op writes_whole_put)

theorem deleted_stays_deleted_witness:
  "lookup (fold row_write [Modify ''a'' (\<lambda>r. r\<lparr>d_status := ''running''\<rparr>), Put (blank_dep ''b'')]
     (do_delete ''a'' ex_store)) ''a'' = None"
  by (rule deleted_stays_deleted) (auto simp: write_ok_def writes_whole_def)

text \<open>
  C30. Saving a set and loading it back yields, for every id, the last record of that id in the
  saved list with the secrets of its launch command redacted, and no other id; the loaded ids
  are distinct and the table stays well formed.
\<close>

theorem save_load_roundtrip:
  assumes "wf_store st" and "settled st"
  shows "\<exists>out st'. load (save rs st) = Inr (out, st') \<and> wf_store st' \<and> distinct (map d_id out) \<and>
     (\<forall>i. find (\<lambda>r. d_id r = i) out =
        (if i = [] then None else map_option redact_record (find (\<lambda>r. d_id r = i) (rev rs))))"
proof -
  have wf: "wf_store (save rs st)" and s: "settled (save rs st)"
    using assms by (simp_all add: save_wf)
  then obtain st' where l: "load (save rs st) = Inr (map redact_record (view (save rs st)), st')"
    and wf': "wf_store st'"
    using load_redacts by blast
  have "distinct (map d_id (map redact_record (view (save rs st))))"
    using wf_view[OF wf] by (simp add: comp_def)
  moreover have "find (\<lambda>r. d_id r = i) (map redact_record (view (save rs st)))
      = map_option redact_record (lookup (save rs st) i)" for i
    by (simp add: find_map_inv view_lookup[OF wf])
  ultimately show ?thesis
    using l wf' by (auto simp: save_lookup)
qed

theorem save_load_roundtrip_witness:
  "\<exists>out st'. load (save [blank_dep ''c'', blank_dep ''c''] ex_store) = Inr (out, st') \<and> wf_store st' \<and>
     distinct (map d_id out) \<and> find (\<lambda>r. d_id r = ''a'') out = None"
proof -
  obtain out st' where "load (save [blank_dep ''c'', blank_dep ''c''] ex_store) = Inr (out, st')"
    "wf_store st'" "distinct (map d_id out)" and "\<forall>i. find (\<lambda>r. d_id r = i) out =
        (if i = [] then None else map_option redact_record
           (find (\<lambda>r. d_id r = i) (rev [blank_dep ''c'', blank_dep ''c''])))"
    using save_load_roundtrip[OF ex_store_wf] by blast
  moreover have "find (\<lambda>r. d_id r = ''a'') out = None"
    using spec[OF calculation(4), of "''a''"] by simp
  ultimately show ?thesis by blast
qed

text \<open>
  C31. The legacy file is imported at most once and an unreadable one is never taken for an empty
  cluster: while the import is owed, every operation on an unreadable file raises and writes
  nothing; once a file was imported, records deleted afterwards are not imported again, even
  when the deletion empties the table.
\<close>

theorem import_once:
  "(\<not> st_imported st \<and> st_file st = LUnreadable m \<longrightarrow>
     load st = Inl (StateFileError m) \<and> get i st = Inl (StateFileError m) \<and>
     update i f st = Inl (StateFileError m) \<and> delete_many is st = Inl (StateFileError m) \<and>
     (d_id r \<noteq> [] \<longrightarrow> upsert r st = Inl (StateFileError m)) \<and>
     check_state_file st = Inl (StateFileError m)) \<and>
   (wf_store st \<and> migrate_from_json st = Inr st1 \<and> st_imported st1 \<and> delete_many is st1 = Inr (n, st2) \<longrightarrow>
     migrate_from_json st2 = Inr st2 \<and> (\<forall>j \<in> set is. get j st2 = Inr (None, st2)))"
proof (rule conjI; rule impI)
  assume "\<not> st_imported st \<and> st_file st = LUnreadable m"
  then show "load st = Inl (StateFileError m) \<and> get i st = Inl (StateFileError m) \<and>
     update i f st = Inl (StateFileError m) \<and> delete_many is st = Inl (StateFileError m) \<and>
     (d_id r \<noteq> [] \<longrightarrow> upsert r st = Inl (StateFileError m)) \<and>
     check_state_file st = Inl (StateFileError m)"
    by (simp add: load_def get_def update_def delete_many_def upsert_def check_state_file_def
        migrate_from_json_def)
next
  assume a: "wf_store st \<and> migrate_from_json st = Inr st1 \<and> st_imported st1 \<and> delete_many is st1 = Inr (n, st2)"
  then have "wf_store st1" "settled st1"
    by (auto intro: wf_migrate migrate_settles)
  from delete_many_lookup[OF this, of "is"] a have l: "settled st2"
    "lookup st2 = (\<lambda>j. if j \<in> set is then None else lookup st1 j)" by auto
  moreover have "get j st2 = Inr (lookup st2 j, st2)" for j
    by (simp add: get_def l(1) lookup_def)
  ultimately show "migrate_from_json st2 = Inr st2 \<and> (\<forall>j \<in> set is. get j st2 = Inr (None, st2))"
    by simp
qed

definition ex_fresh :: store where
  "ex_fresh = \<lparr>st_rows = [], st_imported = False, st_file = LItems [LRecord (blank_dep ''a'')],
     st_events = []\<rparr>"

theorem import_once_witness:
  "load (ex_fresh\<lparr>st_file := LUnreadable ''bad''\<rparr>) = Inl (StateFileError ''bad'') \<and>
   (\<exists>st1 n st2. migrate_from_json ex_fresh = Inr st1 \<and> lookup st1 ''a'' \<noteq> None \<and>
      delete_many [''a''] st1 = Inr (n, st2) \<and> get ''a'' st2 = Inr (None, st2))"
proof -
  have 1: "load (ex_fresh\<lparr>st_file := LUnreadable ''bad''\<rparr>) = Inl (StateFileError ''bad'')"
    using import_once[of "ex_fresh\<lparr>st_file := LUnreadable ''bad''\<rparr>" "''bad''"]
    by (simp add: ex_fresh_def)
  obtain st1 where m: "migrate_from_json ex_fresh = Inr st1" and i: "st_imported st1"
    and l: "lookup st1 ''a'' \<noteq> None"
    by (simp add: migrate_from_json_def ex_fresh_def write_row_def lookup_def)
  have wf: "wf_store ex_fresh" by (simp add: wf_store_def wf_rows_def ex_fresh_def)
  obtain n st2 where d: "delete_many [''a''] st1 = Inr (n, st2)"
    using delete_many_lookup[of st1 "[''a'']"] wf_migrate[OF wf m] migrate_settles[OF m] by blast
  have "get ''a'' st2 = Inr (None, st2)"
    using import_once[of ex_fresh "[]" _ _ "[''a'']" _ st1 n st2] m i wf d by simp
  with 1 m l d show ?thesis by blast
qed

text \<open>
  C32. The value of a \<open>-e KEY=value\<close> argument never reaches a reader: wherever it stands in the
  launch command, the redacted command is the same for every value, and redacting a redacted
  command changes nothing.
\<close>

theorem redact_hides_value:
  assumes "pre = [] \<or> is_space (last pre)"
    and "ws \<noteq> []" "\<forall>c \<in> set ws. is_space c" "w \<noteq> []" "\<forall>c \<in> set w. is_word c"
    and "sec \<noteq> []" "\<forall>c \<in> set sec. \<not> is_space c" "rest = [] \<or> is_space (hd rest)"
  shows "redact (pre @ ''-e'' @ ws @ w @ ''='' @ sec @ rest)
       = redact pre @ ''-e'' @ ws @ w @ ''=[REDACTED]'' @ redact rest \<and>
     redact (redact (pre @ ''-e'' @ ws @ w @ ''='' @ sec @ rest))
       = redact (pre @ ''-e'' @ ws @ w @ ''='' @ sec @ rest)"
  by (rule conjI[OF redact_env_arg[OF assms] redact_idem])

theorem redact_hides_value_witness:
  "redact (''run '' @ ''-e'' @ '' '' @ ''HF_TOKEN'' @ ''='' @ ''hf_x'' @ '' img'') = ''run -e HF_TOKEN=[REDACTED] img''"
proof -
  have p: "redact ''run '' = ''run ''" "redact '' img'' = '' img''"
    using redact_plain_prefix[of "''run ''" "[]"] redact_plain_prefix[of "'' img''" "[]"] by simp_all
  have "redact (''run '' @ ''-e'' @ '' '' @ ''HF_TOKEN'' @ ''='' @ ''hf_x'' @ '' img'')
      = redact ''run '' @ ''-e'' @ '' '' @ ''HF_TOKEN'' @ ''=[REDACTED]'' @ redact '' img''"
    by (rule redact_hides_value[THEN conjunct1]) (simp_all add: is_space_def is_word_def)
  then show ?thesis by (simp only: p append.simps)
qed

end
