(* ===== verification/Docker_Service.thy ===== *)
theory Docker_Service
  imports SP_Prelude
begin

text \<open>
  The container service of one machine, \<open>spark_pulse/tools/docker.py\<close>, over the in-memory Docker
  daemon of \<open>spark_pulse/mock/docker.py\<close>: the labels a container carries
  (\<open>tools/labels.py\<close>, \<open>ContainerMetadata\<close>, \<open>prepare_labels\<close>), the keyword arguments
  \<open>run_container\<close> hands to the Docker SDK, and stopping, inspecting, listing, exec and logs.
  A daemon operation either answers or raises one of Docker's two error classes. Two figures of
  the metadata that are floats (memory and shared memory in GB) are carried as their label text.
\<close>

section \<open>Labels\<close>

abbreviation label_prefix :: string where "label_prefix \<equiv> ''spark-pulse.''"

definition label :: "string \<Rightarrow> string" where
  "label n = label_prefix @ n"

type_synonym labels = "(string \<times> string) list"

definition identity_labels :: "string \<Rightarrow> nat \<Rightarrow> nat \<Rightarrow> nat \<Rightarrow> labels" where
  "identity_labels d g r w =
     [(label ''deployment'', d), (label ''generation'', str_of_nat g),
      (label ''rank'', str_of_nat r), (label ''world_size'', str_of_nat w)]"

record metadata =
  md_deployment :: string
  md_recipe :: string
  md_image :: string
  md_mode :: string
  md_created_at :: string
  md_memory :: string
  md_shm :: string
  md_privileged :: bool
  md_generation :: nat
  md_rank :: nat
  md_world :: nat

text \<open>\<open>labels.update(other)\<close>, key by key.\<close>

definition dict_update :: "('k \<times> 'v) list \<Rightarrow> ('k \<times> 'v) list \<Rightarrow> ('k \<times> 'v) list" where
  "dict_update d other = foldl (\<lambda>d (k, v). dict_set k v d) d other"

definition to_labels :: "metadata \<Rightarrow> labels" where
  "to_labels m =
     (let base =
       [(label ''managed'', ''true''), (label ''deployment'', md_deployment m),
        (label ''recipe'', md_recipe m), (label ''image'', md_image m), (label ''mode'', md_mode m),
        (label ''created_at'', md_created_at m), (label ''version'', ''1''),
        (label ''memory_limit_gb'', md_memory m), (label ''shm_size_gb'', md_shm m),
        (label ''privileged'', if md_privileged m then ''true'' else ''false'')]
      in if md_generation m \<noteq> 0
         then dict_update base
                (identity_labels (md_deployment m) (md_generation m) (md_rank m) (md_world m))
         else base)"

definition int_label :: "string \<Rightarrow> nat \<Rightarrow> nat" where
  "int_label raw dflt =
     (if strip raw \<noteq> [] \<and> (\<forall>c \<in> set (strip raw). is_digit c) then nat_of_str (strip raw) else dflt)"

definition from_labels :: "labels \<Rightarrow> metadata" where
  "from_labels ls =
     (let g = (\<lambda>k d. dict_lookup ls (label k) d)
      in \<lparr>md_deployment = g ''deployment'' [], md_recipe = g ''recipe'' [], md_image = g ''image'' [],
          md_mode = g ''mode'' ''solo'', md_created_at = g ''created_at'' [],
          md_memory = g ''memory_limit_gb'' [], md_shm = g ''shm_size_gb'' ''64'',
          md_privileged = (g ''privileged'' ''true'' = ''true''),
          md_generation = int_label (g ''generation'' []) 0,
          md_rank = int_label (g ''rank'' []) 0,
          md_world = int_label (g ''world_size'' []) 1\<rparr>)"

text \<open>\<open>prepare_labels\<close>: \<open>now\<close> is the clock reading stamped when the caller brought no time.\<close>

definition prepare_labels :: "string \<Rightarrow> metadata \<Rightarrow> string \<Rightarrow> string \<Rightarrow> metadata \<times> labels" where
  "prepare_labels now m name img =
     (let m1 = (if md_image m = [] then m\<lparr>md_image := img\<rparr> else m);
          m2 = (if md_created_at m1 = [] then m1\<lparr>md_created_at := now\<rparr> else m1)
      in (m2, dict_set (label ''name'') name (to_labels m2)))"

lemma label_inject [simp]: "label a = label b \<longleftrightarrow> a = b"
  by (simp add: label_def)

lemma digit_not_space: "is_digit c \<Longrightarrow> \<not> is_space c"
  using word_not_space digit_word by blast

lemma strip_digits: "\<forall>c \<in> set s. is_digit c \<Longrightarrow> strip s = s"
proof -
  assume "\<forall>c \<in> set s. is_digit c"
  then have 1: "\<not> is_space c" if "c \<in> set s" for c
    using that digit_not_space by blast
  then have "dropWhile is_space s = s"
    by (cases s) (simp_all add: dropWhile_eq_self_iff)
  moreover have "dropWhile is_space (rev s) = rev s"
  proof (cases "rev s")
    case (Cons c r)
    then have "c \<in> set s" by (metis list.set_intros(1) set_rev)
    with 1 Cons show ?thesis by simp
  qed simp
  ultimately show ?thesis by (simp add: strip_def)
qed

lemma int_label_str [simp]: "int_label (str_of_nat n) d = n"
  using strip_digits[OF str_of_nat_digits] str_of_nat_digits[of n] by (simp add: int_label_def)

lemma int_label_Nil [simp]: "int_label [] d = d"
  by (simp add: int_label_def strip_def)

lemma map_of_dict_update:
  "map_of (dict_update d other) k = (case map_of (rev other) k of None \<Rightarrow> map_of d k | Some v \<Rightarrow> Some v)"
  by (induction other arbitrary: d)
     (auto simp: dict_update_def map_of_append map_add_def split: option.splits)

lemma map_of_identity_labels:
  "map_of (rev (identity_labels d g r w)) (label n) =
     (if n = ''deployment'' then Some d else if n = ''generation'' then Some (str_of_nat g)
      else if n = ''rank'' then Some (str_of_nat r) else if n = ''world_size'' then Some (str_of_nat w)
      else None)"
  by (simp add: identity_labels_def)

definition base_label :: "metadata \<Rightarrow> string \<Rightarrow> string option" where
  "base_label m n =
     (if n = ''managed'' then Some ''true'' else if n = ''deployment'' then Some (md_deployment m)
      else if n = ''recipe'' then Some (md_recipe m) else if n = ''image'' then Some (md_image m)
      else if n = ''mode'' then Some (md_mode m) else if n = ''created_at'' then Some (md_created_at m)
      else if n = ''version'' then Some ''1'' else if n = ''memory_limit_gb'' then Some (md_memory m)
      else if n = ''shm_size_gb'' then Some (md_shm m)
      else if n = ''privileged'' then Some (if md_privileged m then ''true'' else ''false'') else None)"

lemma to_labels_lookup:
  "map_of (to_labels m) (label n) =
     (if md_generation m \<noteq> 0 then
        (if n = ''generation'' then Some (str_of_nat (md_generation m))
         else if n = ''rank'' then Some (str_of_nat (md_rank m))
         else if n = ''world_size'' then Some (str_of_nat (md_world m))
         else base_label m n)
      else base_label m n)"
  by (simp add: to_labels_def map_of_dict_update map_of_identity_labels base_label_def)

text \<open>What the node reads back from a container's labels is what the planner put on it.\<close>

lemma labels_roundtrip:
  "from_labels (to_labels m) =
     (if md_generation m \<noteq> 0 then m else m\<lparr>md_generation := 0, md_rank := 0, md_world := 1\<rparr>)"
  by (simp add: from_labels_def dict_lookup_def to_labels_lookup base_label_def)

section \<open>What a container is started with\<close>

record cspec =
  cs_image :: string
  cs_name :: string
  cs_command :: string
  cs_env :: "(string \<times> string) list"
  cs_labels :: labels
  cs_mounts :: "(string \<times> string) list"
  cs_privileged :: bool
  cs_ipc_host :: bool
  cs_network_host :: bool
  cs_shm_gb :: rat
  cs_devices :: "string list"
  cs_cap_add :: "string list"
  cs_ulimits :: "(string \<times> string) list"
  cs_memory_gb :: "rat option"
  cs_pids_limit :: int
  cs_nofile_limit :: int
  cs_ports :: "string list"
  cs_entrypoint_clear :: bool
  cs_user :: "string option"

text \<open>
  The keyword arguments of \<open>containers.run\<close>. An argument the code leaves out is \<open>None\<close>.
  A limit is a name with its soft and hard value.
\<close>

record run_kwargs =
  rk_name :: string
  rk_env :: "(string \<times> string) list"
  rk_labels :: labels
  rk_entrypoint :: "string list option"
  rk_remove :: bool
  rk_privileged :: bool
  rk_pids_limit :: int
  rk_shm_gb :: rat
  rk_ulimits :: "(string \<times> int \<times> int) list"
  rk_volumes :: "(string \<times> string) list"
  rk_restart :: string
  rk_mem_limit :: "int option"
  rk_memswap :: "int option"
  rk_cap_add :: "string list option"
  rk_network_mode :: "string option"
  rk_ipc_mode :: "string option"
  rk_devices :: "string list option"
  rk_ports :: "(string \<times> int) list option"
  rk_command :: "string option"
  rk_user :: "string option"

definition int_of_str :: "string \<Rightarrow> int" where
  "int_of_str s = int (nat_of_str s)"

definition limit_of :: "string \<times> string \<Rightarrow> string \<times> int \<times> int" where
  "limit_of nr = (case partition_at (CHR '':'') (snd nr) of
     (soft, hard) \<Rightarrow> (fst nr, int_of_str soft, int_of_str (py_or hard soft)))"

definition gb_to_bytes :: "rat \<Rightarrow> int" where
  "gb_to_bytes g = \<lfloor>g * 1024 * 1024 * 1024\<rfloor>"

definition memory_swap :: "rat \<Rightarrow> int" where
  "memory_swap g = \<lfloor>(g + 10) * 1024 * 1024 * 1024\<rfloor>"

text \<open>\<open>resolve_user\<close>: the sentinel becomes this process's own \<open>uid:gid\<close>.\<close>

definition resolve_user :: "string \<Rightarrow> string option \<Rightarrow> string option" where
  "resolve_user own u = (case u of None \<Rightarrow> None | Some x \<Rightarrow> Some (if x = ''agent'' then own else x))"

text \<open>
  The call a rank's spec becomes: \<open>_create_rank\<close>'s argument list into \<open>run_container\<close>
  (no cache directories, no automatic removal). \<open>own\<close> is the node's \<open>uid:gid\<close>.
\<close>

definition container_kwargs :: "string \<Rightarrow> labels \<Rightarrow> cspec \<Rightarrow> run_kwargs" where
  "container_kwargs own ls sp =
     (let caps = (if \<not> cs_privileged sp \<and> ''IPC_LOCK'' \<notin> set (cs_cap_add sp)
                  then cs_cap_add sp @ [''IPC_LOCK''] else cs_cap_add sp);
          mem = (case cs_memory_gb sp of None \<Rightarrow> None | Some g \<Rightarrow> if g = 0 then None else Some g)
      in \<lparr>rk_name = cs_name sp, rk_env = cs_env sp, rk_labels = ls,
          rk_entrypoint = (if cs_entrypoint_clear sp then Some [] else None),
          rk_remove = False, rk_privileged = cs_privileged sp,
          rk_pids_limit = cs_pids_limit sp, rk_shm_gb = cs_shm_gb sp,
          rk_ulimits = (''nofile'', cs_nofile_limit sp, cs_nofile_limit sp)
             # map limit_of (filter (\<lambda>nr. fst nr \<noteq> ''nofile'') (cs_ulimits sp)),
          rk_volumes = cs_mounts sp, rk_restart = ''no'',
          rk_mem_limit = map_option gb_to_bytes mem, rk_memswap = map_option memory_swap mem,
          rk_cap_add = (if \<not> cs_privileged sp \<and> caps \<noteq> [] then Some caps else None),
          rk_network_mode = (if cs_network_host sp then Some ''host'' else None),
          rk_ipc_mode = (if cs_ipc_host sp then Some ''host'' else None),
          rk_devices = (if cs_devices sp \<noteq> []
             then Some (map (\<lambda>d. d @ '':'' @ d @ '':rwm'') (cs_devices sp)) else None),
          rk_ports = (if cs_ports sp \<noteq> []
             then Some (map (\<lambda>p. case partition_at (CHR '':'') p of
                              (h, c) \<Rightarrow> (fst (partition_at (CHR '':'') c), int_of_str h)) (cs_ports sp))
             else None),
          rk_command = Some (cs_command sp), rk_user = resolve_user own (cs_user sp)\<rparr>)"

section \<open>The daemon\<close>

datatype docker_error = NotFound string | APIError string

record container =
  ct_name :: string
  ct_status :: string
  ct_image :: string
  ct_labels :: labels
  ct_log :: "string list"
  ct_serving :: bool
  ct_user :: "string option"
  ct_removed :: bool

record daemon =
  dm_down :: bool
  dm_containers :: "(string \<times> container) list"
  dm_images :: "string list"

definition daemon_check :: "daemon \<Rightarrow> docker_error + unit" where
  "daemon_check dm = (if dm_down dm then Inl (APIError ''Cannot connect to the Docker daemon'') else Inr ())"

definition daemon_run :: "string \<Rightarrow> run_kwargs \<Rightarrow> daemon \<Rightarrow> (docker_error + container) \<times> daemon" where
  "daemon_run img kw dm =
     (case daemon_check dm of
        Inl e \<Rightarrow> (Inl e, dm)
      | Inr _ \<Rightarrow>
          (let c = \<lparr>ct_name = rk_name kw, ct_status = ''running'', ct_image = img,
                    ct_labels = rk_labels kw, ct_log = [''[mock] started '' @ rk_name kw @ '' from '' @ img],
                    ct_serving = True, ct_user = rk_user kw, ct_removed = False\<rparr>
           in (Inr c, dm\<lparr>dm_containers := dict_set (rk_name kw) c (dm_containers dm)\<rparr>)))"

definition daemon_get :: "string \<Rightarrow> daemon \<Rightarrow> docker_error + container" where
  "daemon_get name dm =
     (case daemon_check dm of
        Inl e \<Rightarrow> Inl e
      | Inr _ \<Rightarrow> (case dict_get (dm_containers dm) name of
                    None \<Rightarrow> Inl (NotFound (''Container '' @ name @ '' not found''))
                  | Some c \<Rightarrow> if ct_removed c then Inl (NotFound (''Container '' @ name @ '' not found''))
                              else Inr c))"

text \<open>One term of Docker's \<open>label\<close> filter: \<open>key\<close> is presence, \<open>key=value\<close> a value.\<close>

definition term_matches :: "labels \<Rightarrow> string \<Rightarrow> bool" where
  "term_matches ls t =
     (if CHR ''='' \<in> set t
      then (case partition_at (CHR ''='') t of (k, v) \<Rightarrow> dict_get ls k = Some v)
      else dict_get ls t \<noteq> None)"

definition daemon_list :: "bool \<Rightarrow> string list \<Rightarrow> daemon \<Rightarrow> docker_error + container list" where
  "daemon_list every terms dm =
     (case daemon_check dm of
        Inl e \<Rightarrow> Inl e
      | Inr _ \<Rightarrow>
          (let cs = filter (\<lambda>c. \<not> ct_removed c) (map snd (dm_containers dm));
               cs1 = (if every then cs else filter (\<lambda>c. ct_status c = ''running'') cs)
           in Inr (foldl (\<lambda>cs t. filter (\<lambda>c. term_matches (ct_labels c) t) cs) cs1 terms)))"

section \<open>The service\<close>

record cstatus =
  cst_status :: string
  cst_running :: bool
  cst_error :: string
  cst_exit :: "int option"

definition missing_status :: "string \<Rightarrow> cstatus" where
  "missing_status name = \<lparr>cst_status = ''missing'', cst_running = False,
     cst_error = ''Container '' @ CHR 0x27 # name @ CHR 0x27 # '' not found'', cst_exit = None\<rparr>"

definition svc_run :: "string \<Rightarrow> string \<Rightarrow> cspec \<Rightarrow> daemon \<Rightarrow> (string + container) \<times> daemon" where
  "svc_run now own sp dm =
     (case prepare_labels now (from_labels (cs_labels sp)) (cs_name sp) (cs_image sp) of
        (_, ls) \<Rightarrow>
          (case daemon_run (cs_image sp) (container_kwargs own ls sp) dm of
             (Inl (APIError e), dm') \<Rightarrow> (Inl (''Docker API error: '' @ e), dm')
           | (Inl (NotFound e), dm') \<Rightarrow> (Inl (''Image not found: '' @ cs_image sp), dm')
           | (Inr c, dm') \<Rightarrow> (Inr c, dm')))"

text \<open>Stop, then remove with force: the container stays in the daemon's table, marked removed.\<close>

definition svc_stop :: "string \<Rightarrow> daemon \<Rightarrow> bool \<times> daemon" where
  "svc_stop name dm =
     (case daemon_get name dm of
        Inl _ \<Rightarrow> (False, dm)
      | Inr c \<Rightarrow> (True, dm\<lparr>dm_containers := dict_set name
                    (c\<lparr>ct_status := ''removed'', ct_removed := True\<rparr>) (dm_containers dm)\<rparr>))"

definition svc_status :: "string \<Rightarrow> daemon \<Rightarrow> cstatus" where
  "svc_status name dm =
     (case daemon_get name dm of
        Inr c \<Rightarrow> \<lparr>cst_status = ct_status c, cst_running = (ct_status c = ''running''), cst_error = [], cst_exit = None\<rparr>
      | Inl (NotFound _) \<Rightarrow> missing_status name
      | Inl (APIError e) \<Rightarrow> \<lparr>cst_status = ''unknown'', cst_running = False, cst_error = e, cst_exit = None\<rparr>)"

record cinfo =
  ci_name :: string
  ci_status :: string
  ci_image :: string
  ci_labels :: labels
  ci_meta :: metadata

definition container_to_info :: "container \<Rightarrow> cinfo" where
  "container_to_info c = \<lparr>ci_name = ct_name c, ci_status = ct_status c, ci_image = ct_image c,
     ci_labels = ct_labels c, ci_meta = from_labels (ct_labels c)\<rparr>"

definition label_filter :: "labels \<Rightarrow> string list" where
  "label_filter ls = (label ''managed'' @ ''=true'')
     # map (\<lambda>(k, v). if v = [] then k else k @ ''='' @ v) ls"

definition labels_match :: "labels \<Rightarrow> labels \<Rightarrow> bool" where
  "labels_match ls want \<longleftrightarrow>
     (\<forall>(k, v) \<in> set want. if v = [] then dict_get ls k \<noteq> None else dict_get ls k = Some v)"

definition svc_list :: "labels \<Rightarrow> daemon \<Rightarrow> docker_error + cinfo list" where
  "svc_list want dm =
     (case daemon_list True (label_filter want) dm of
        Inl e \<Rightarrow> Inl e
      | Inr cs \<Rightarrow> Inr (filter (\<lambda>i. labels_match (ci_labels i) want) (map container_to_info cs)))"

record exec_result =
  ex_code :: int
  ex_out :: string
  ex_err :: string

text \<open>
  An exec. A \<open>pgrep -f\<close> probe answers by its exit code alone; any other command is logged and
  succeeds with its last word on standard output.
\<close>

fun last_word :: "string \<Rightarrow> string \<Rightarrow> string" where
  "last_word acc [] = acc"
| "last_word acc (c # s) = (if is_space c then
      (if s = [] \<or> is_space (hd s) then last_word acc s else last_word [] s)
    else last_word (acc @ [c]) s)"

definition svc_exec :: "string \<Rightarrow> string list \<Rightarrow> bool \<Rightarrow> daemon \<Rightarrow> (docker_error + exec_result) \<times> daemon" where
  "svc_exec name cmd detach dm =
     (case daemon_get name dm of
        Inl e \<Rightarrow> (Inl e, dm)
      | Inr c \<Rightarrow>
          (let txt = join '' '' cmd;
               probe = contains ''pgrep -f'' txt;
               c' = (if probe then c else c\<lparr>ct_log := ct_log c @ [''[mock] exec: '' @ txt]\<rparr>);
               res = (if probe then \<lparr>ex_code = (if ct_serving c then 0 else 1),
                                     ex_out = (if ct_serving c then ''1'' @ [CHR 0x0A] else []), ex_err = []\<rparr>
                      else \<lparr>ex_code = 0, ex_out = last_word [] txt @ [CHR 0x0A], ex_err = []\<rparr>)
           in (Inr (if detach then \<lparr>ex_code = 0, ex_out = [], ex_err = []\<rparr> else res),
               dm\<lparr>dm_containers := dict_set name c' (dm_containers dm)\<rparr>)))"

definition svc_logs :: "string \<Rightarrow> nat \<Rightarrow> daemon \<Rightarrow> docker_error + string" where
  "svc_logs name n dm =
     (case daemon_get name dm of
        Inl (NotFound _) \<Rightarrow> Inr (''Container '' @ CHR 0x27 # name @ CHR 0x27 # '' not found'')
      | Inl e \<Rightarrow> Inl e
      | Inr c \<Rightarrow>
          (let ls = (if n = 0 then ct_log c else drop (length (ct_log c) - n) (ct_log c))
           in Inr (join [CHR 0x0A] ls @ (if ls = [] then [] else [CHR 0x0A]))))"

definition svc_image_exists :: "string \<Rightarrow> daemon \<Rightarrow> bool" where
  "svc_image_exists ref dm = (ref \<noteq> [] \<and> \<not> dm_down dm \<and> ref \<in> set (dm_images dm))"

definition svc_ensure_directories :: "string list \<Rightarrow> daemon \<Rightarrow> string list" where
  "svc_ensure_directories paths dm = []"

end
