(* ===== verification/Shell_Words.thy ===== *)
theory Shell_Words
  imports SP_Prelude
begin

text \<open>
  What the code uses of Python's \<open>shlex\<close>: \<open>shlex.split\<close> (POSIX rules, no comments) as the
  state machine of the library, and \<open>shlex.quote\<close>. A \<open>ValueError\<close> (an unbalanced quote or a
  trailing backslash) is \<open>None\<close>. Quoting is inverted by splitting.
\<close>

definition is_blank :: "char \<Rightarrow> bool" where
  "is_blank c \<longleftrightarrow> c = CHR '' '' \<or> c = CHR 0x09 \<or> c = CHR 0x0D \<or> c = CHR 0x0A"

abbreviation squote :: char where "squote \<equiv> CHR 0x27"
abbreviation dquote :: char where "dquote \<equiv> CHR 0x22"
abbreviation backslash :: char where "backslash \<equiv> CHR 0x5C"

text \<open>Between words, inside one, inside quotes, after a backslash in a word or in quotes.\<close>

datatype sh_state = SWhite | SWord | SQuote char | SEscWord | SEscQuote char

text \<open>The word read so far is the second argument; whether it holds a quoted part the third.\<close>

fun shlex_go :: "sh_state \<Rightarrow> string \<Rightarrow> string \<Rightarrow> string list option" where
  "shlex_go SWhite w [] = Some []"
| "shlex_go SWhite w (c # s) =
     (if is_blank c then shlex_go SWhite [] s
      else if c = backslash then shlex_go SEscWord [] s
      else if c = squote \<or> c = dquote then shlex_go (SQuote c) [] s
      else shlex_go SWord [c] s)"
| "shlex_go SWord w [] = Some [w]"
| "shlex_go SWord w (c # s) =
     (if is_blank c then map_option ((#) w) (shlex_go SWhite [] s)
      else if c = squote \<or> c = dquote then shlex_go (SQuote c) w s
      else if c = backslash then shlex_go SEscWord w s
      else shlex_go SWord (w @ [c]) s)"
| "shlex_go (SQuote q) w [] = None"
| "shlex_go (SQuote q) w (c # s) =
     (if c = q then shlex_go SWord w s
      else if c = backslash \<and> q = dquote then shlex_go (SEscQuote q) w s
      else shlex_go (SQuote q) (w @ [c]) s)"
| "shlex_go SEscWord w [] = None"
| "shlex_go SEscWord w (c # s) = shlex_go SWord (w @ [c]) s"
| "shlex_go (SEscQuote q) w [] = None"
| "shlex_go (SEscQuote q) w (c # s) =
     (if c \<noteq> backslash \<and> c \<noteq> q then shlex_go (SQuote q) (w @ [backslash, c]) s
      else shlex_go (SQuote q) (w @ [c]) s)"

definition shlex_split :: "string \<Rightarrow> string list option" where
  "shlex_split s = shlex_go SWhite [] s"

text \<open>\<open>s.split()\<close>.\<close>

fun words_go :: "string \<Rightarrow> string \<Rightarrow> string list" where
  "words_go w [] = (if w = [] then [] else [w])"
| "words_go w (c # s) = (if is_space c then (if w = [] then words_go [] s else w # words_go [] s)
                         else words_go (w @ [c]) s)"

definition py_split :: "string \<Rightarrow> string list" where
  "py_split s = words_go [] s"

definition is_safe :: "char \<Rightarrow> bool" where
  "is_safe c \<longleftrightarrow> is_word c \<or> c \<in> set ''@%+=:,./-''"

definition shlex_quote :: "string \<Rightarrow> string" where
  "shlex_quote s =
     (if s = [] then [squote, squote]
      else if \<forall>c \<in> set s. is_safe c then s
      else squote # concat (map (\<lambda>c. if c = squote then [squote, dquote, squote, dquote, squote] else [c]) s)
             @ [squote])"

section \<open>Quoting and splitting\<close>

lemma safe_plain: "is_safe c \<Longrightarrow> \<not> is_blank c \<and> c \<noteq> squote \<and> c \<noteq> dquote \<and> c \<noteq> backslash"
  by (auto simp: is_safe_def is_word_def is_blank_def Let_def)

lemma shlex_word_safe:
  "\<forall>c \<in> set u. is_safe c \<Longrightarrow> shlex_go SWord w (u @ s) = shlex_go SWord (w @ u) s"
  using safe_plain by (induction u arbitrary: w) auto

lemma shlex_white_safe:
  assumes "u \<noteq> []" and "\<forall>c \<in> set u. is_safe c"
  shows "shlex_go SWhite v (u @ s) = shlex_go SWord u s"
  using assms safe_plain shlex_word_safe[of "tl u" "[hd u]" s] by (cases u) auto

lemma shlex_quoted:
  "shlex_go (SQuote squote) w
     (concat (map (\<lambda>c. if c = squote then [squote, dquote, squote, dquote, squote] else [c]) u) @ squote # s)
   = shlex_go SWord (w @ u) s"
proof (induction u arbitrary: w)
  case (Cons c u)
  show ?case
  proof (cases "c = squote")
    case True
    have "\<not> is_blank dquote" "\<not> is_blank squote" by (simp_all add: is_blank_def)
    with True Cons.IH[of "w @ [c]"] show ?thesis by simp
  next
    case False
    with Cons.IH[of "w @ [c]"] show ?thesis by simp
  qed
qed simp

lemma shlex_go_quote: "shlex_go SWhite v (shlex_quote u @ s) = shlex_go SWord u s"
proof -
  have b: "\<not> is_blank squote" by (simp add: is_blank_def)
  consider "u = []" | "u \<noteq> []" "\<forall>c \<in> set u. is_safe c" | "u \<noteq> []" "\<not> (\<forall>c \<in> set u. is_safe c)"
    by blast
  then show ?thesis
  proof cases
    case 1
    with b show ?thesis by (simp add: shlex_quote_def)
  next
    case 2
    then show ?thesis using shlex_white_safe[OF 2] by (simp add: shlex_quote_def)
  next
    case 3
    have "shlex_quote u = squote # concat (map (\<lambda>c. if c = squote then [squote, dquote, squote, dquote, squote] else [c]) u) @ [squote]"
      unfolding shlex_quote_def using 3 by (metis (no_types, lifting))
    then show ?thesis using shlex_quoted[of "[]" u s] b by simp
  qed
qed

text \<open>A shell reads back exactly the words that were quoted into the line.\<close>

lemma shlex_split_quote: "shlex_split (join '' '' (map shlex_quote ws)) = Some ws"
proof -
  have "shlex_go SWhite [] (join '' '' (map shlex_quote ws)) = Some ws"
  proof (induction ws)
    case (Cons u ws)
    show ?case
    proof (cases ws)
      case Nil
      then show ?thesis using shlex_go_quote[of "[]" u "[]"] by simp
    next
      case (Cons v vs)
      have "is_blank CHR '' ''" by (simp add: is_blank_def)
      with Cons Cons.IH show ?thesis
        by (simp add: shlex_go_quote)
    qed
  qed simp
  then show ?thesis by (simp add: shlex_split_def)
qed

end
