(* ===== verification/Node_Service.thy ===== *)
theory Node_Service
  imports Docker_Service Shell_Words
begin

text \<open>
  The interface the gang runtime drives its nodes through (\<open>rank_services\<close> and the node service
  of \<open>spark_pulse/tools/node_service.py\<close>): one container service per node address. Every call
  takes the state of the world and returns an answer or an exception with the world afterwards;
  a node that is unreachable raises. The locale names the laws the runtime's safety rests on,
  which are about the containers on the nodes: only \<open>run_container\<close> makes one appear, a status
  of \<open>missing\<close> means there is none, a listing that answers is complete. The simulated cluster
  (\<open>spark_pulse/mock/node_service.py\<close>: one Docker per peer, each reachable or not, its daemon
  up or down) satisfies them.
\<close>

section \<open>The interface\<close>

text \<open>
  The exceptions the runtime tells apart: its own \<open>NativeRuntimeError\<close>, \<open>PullCancelled\<close>, and
  everything else (\<open>NodeUnreachable\<close>, \<open>NoAgent\<close>, \<open>NodeOperationError\<close>, ...), with its text.
\<close>

datatype exc = NativeError string | PullCancelled string | PullStalled string | OtherExc string

fun exc_text :: "exc \<Rightarrow> string" where
  "exc_text (NativeError m) = m"
| "exc_text (PullCancelled m) = m"
| "exc_text (PullStalled m) = m"
| "exc_text (OtherExc m) = m"

text \<open>
  Beside the container service: \<open>ks_looks\<close> is how many more times a removal is looked for before
  the confirmation deadline (the clock decides; at least one look is always taken), \<open>ks_tick\<close>
  what happens to the world during a sleep, \<open>ks_now\<close> a clock reading, \<open>ks_local\<close> which
  addresses name this machine, \<open>ks_listening\<close> a TCP connect from the control plane, \<open>ks_http\<close> an
  HTTP GET: no answer, or the status code and the model ids of the body where it is a listing;
  \<open>ks_mod\<close> is the operator's directory of mods: the sorted entries of one that has a \<open>run.sh\<close>.
\<close>

record 'w node_services =
  ks_resolve :: "string \<Rightarrow> 'w \<Rightarrow> exc + unit"
  ks_stop :: "string \<Rightarrow> string \<Rightarrow> 'w \<Rightarrow> (exc + bool) \<times> 'w"
  ks_status :: "string \<Rightarrow> string \<Rightarrow> 'w \<Rightarrow> (exc + cstatus) \<times> 'w"
  ks_list :: "string \<Rightarrow> labels \<Rightarrow> 'w \<Rightarrow> (exc + cinfo list) \<times> 'w"
  ks_run :: "string \<Rightarrow> cspec \<Rightarrow> 'w \<Rightarrow> (exc + unit) \<times> 'w"
  ks_logs :: "string \<Rightarrow> string \<Rightarrow> nat \<Rightarrow> 'w \<Rightarrow> (exc + string) \<times> 'w"
  ks_exec :: "string \<Rightarrow> string \<Rightarrow> string list \<Rightarrow> bool \<Rightarrow> string option \<Rightarrow> 'w \<Rightarrow> (exc + exec_result) \<times> 'w"
  ks_copy :: "string \<Rightarrow> string \<Rightarrow> string \<Rightarrow> string \<Rightarrow> 'w \<Rightarrow> (exc + bool) \<times> 'w"
  ks_mkdirs :: "string \<Rightarrow> string list \<Rightarrow> 'w \<Rightarrow> (exc + string list) \<times> 'w"
  ks_image :: "string \<Rightarrow> string \<Rightarrow> 'w \<Rightarrow> (exc + bool) \<times> 'w"
  ks_listening :: "string \<Rightarrow> nat \<Rightarrow> 'w \<Rightarrow> bool \<times> 'w"
  ks_http :: "string \<Rightarrow> 'w \<Rightarrow> (nat \<times> string list option) option \<times> 'w"
  ks_tick :: "'w \<Rightarrow> 'w"
  ks_looks :: nat
  ks_now :: "'w \<Rightarrow> string"
  ks_local :: "string \<Rightarrow> bool"
  ks_simulated :: bool
  ks_mod :: "string \<Rightarrow> string list option"

text \<open>
  In a sound world (\<open>ok\<close>) containers may be gone afterwards; none appeared, none changed its
  labels, and the world is still sound.
\<close>

definition shrinks :: "('w \<Rightarrow> bool) \<Rightarrow> ('w \<Rightarrow> string \<Rightarrow> string \<Rightarrow> labels option) \<Rightarrow> 'w \<Rightarrow> 'w \<Rightarrow> bool" where
  "shrinks ok lab w w' \<longleftrightarrow> (ok w \<longrightarrow> ok w' \<and> (\<forall>a n. lab w' a n = None \<or> lab w' a n = lab w a n))"

lemma shrinks_refl [simp]: "shrinks ok lab w w"
  by (simp add: shrinks_def)

lemma shrinks_trans: "shrinks ok lab w w' \<Longrightarrow> shrinks ok lab w' w'' \<Longrightarrow> shrinks ok lab w w''"
  unfolding shrinks_def by metis

lemma shrinks_None: "shrinks ok lab w w' \<Longrightarrow> ok w \<Longrightarrow> lab w a n = None \<Longrightarrow> lab w' a n = None"
  unfolding shrinks_def by metis

lemma shrinks_ok: "shrinks ok lab w w' \<Longrightarrow> ok w \<Longrightarrow> ok w'"
  unfolding shrinks_def by simp

locale node_service_laws =
  fixes D :: "'w node_services"
    and ok :: "'w \<Rightarrow> bool"
    and lab :: "'w \<Rightarrow> string \<Rightarrow> string \<Rightarrow> labels option"
  assumes stop_shrinks: "shrinks ok lab w (snd (ks_stop D a n w))"
    and status_shrinks: "shrinks ok lab w (snd (ks_status D a n w))"
    and list_shrinks: "shrinks ok lab w (snd (ks_list D a want w))"
    and logs_shrinks: "shrinks ok lab w (snd (ks_logs D a n k w))"
    and exec_shrinks: "shrinks ok lab w (snd (ks_exec D a n cmd det usr w))"
    and copy_shrinks: "shrinks ok lab w (snd (ks_copy D a n src dst w))"
    and mkdirs_shrinks: "shrinks ok lab w (snd (ks_mkdirs D a ps w))"
    and image_shrinks: "shrinks ok lab w (snd (ks_image D a ref w))"
    and listening_shrinks: "shrinks ok lab w (snd (ks_listening D a p w))"
    and http_shrinks: "shrinks ok lab w (snd (ks_http D url w))"
    and tick_shrinks: "shrinks ok lab w (ks_tick D w)"
    and status_missing: "ok w \<Longrightarrow> ks_status D a n w = (Inr s, w') \<Longrightarrow> cst_status s = ''missing'' \<Longrightarrow>
      lab w' a n = None"
    and list_complete: "ok w \<Longrightarrow> ks_list D a want w = (Inr is, w') \<Longrightarrow> lab w' a n = Some ls \<Longrightarrow>
      dict_get ls (label ''managed'') = Some ''true'' \<Longrightarrow> labels_match ls want \<Longrightarrow>
      (\<forall>(k, v) \<in> set want. CHR ''='' \<notin> set k) \<Longrightarrow> \<exists>i \<in> set is. ci_name i = n \<and> ci_labels i = ls"
    and run_ok: "ok w \<Longrightarrow> ok (snd (ks_run D a sp w))"
    and run_only: "ok w \<Longrightarrow> lab (snd (ks_run D a sp w)) b n = lab w b n \<or> n = cs_name sp"
begin

lemmas call_shrinks = stop_shrinks status_shrinks list_shrinks logs_shrinks exec_shrinks copy_shrinks
  mkdirs_shrinks image_shrinks listening_shrinks http_shrinks tick_shrinks

end

section \<open>The simulated cluster\<close>

record sim_node =
  sn_connected :: bool
  sn_daemon :: daemon
  sn_own :: string

record sim =
  sim_nodes :: "(string \<times> sim_node) list"
  sim_clock :: string

definition empty_daemon :: daemon where
  "empty_daemon = \<lparr>dm_down = False, dm_containers = [], dm_images = []\<rparr>"

text \<open>A peer is created on first ask; the control node is the empty address and always answers.\<close>

definition sim_key :: "string \<Rightarrow> string" where
  "sim_key a = (if a \<in> {''127.0.0.1'', ''localhost'', ''::1''} then [] else a)"

definition sim_node :: "string \<Rightarrow> sim \<Rightarrow> sim_node" where
  "sim_node a w = (case dict_get (sim_nodes w) (sim_key a) of
     Some n \<Rightarrow> n
   | None \<Rightarrow> \<lparr>sn_connected = True, sn_daemon = empty_daemon, sn_own = ''1000:1000''\<rparr>)"

definition set_daemon :: "string \<Rightarrow> daemon \<Rightarrow> sim \<Rightarrow> sim" where
  "set_daemon a dm w = w\<lparr>sim_nodes := dict_set (sim_key a) ((sim_node a w)\<lparr>sn_daemon := dm\<rparr>) (sim_nodes w)\<rparr>"

text \<open>\<open>SimulatedPeerService.__getattr__\<close>: an unreachable peer raises before its daemon is asked.\<close>

definition sim_call :: "string \<Rightarrow> (daemon \<Rightarrow> (exc + 'a) \<times> daemon) \<Rightarrow> sim \<Rightarrow> (exc + 'a) \<times> sim" where
  "sim_call a f w =
     (if \<not> sn_connected (sim_node a w) \<and> sim_key a \<noteq> []
      then (Inl (OtherExc (''no answer from '' @ a)), w)
      else case f (sn_daemon (sim_node a w)) of (r, dm) \<Rightarrow> (r, set_daemon a dm w))"

fun docker_text :: "docker_error \<Rightarrow> string" where
  "docker_text (NotFound m) = m"
| "docker_text (APIError m) = m"

fun docker_exc :: "docker_error + 'a \<Rightarrow> exc + 'a" where
  "docker_exc (Inl e) = Inl (OtherExc (docker_text e))"
| "docker_exc (Inr x) = Inr x"

definition sim_services :: "sim node_services" where
  "sim_services =
     \<lparr>ks_resolve = (\<lambda>a w. Inr ()),
      ks_stop = (\<lambda>a n. sim_call a (\<lambda>dm. case svc_stop n dm of (b, dm') \<Rightarrow> (Inr b, dm'))),
      ks_status = (\<lambda>a n. sim_call a (\<lambda>dm. (Inr (svc_status n dm), dm))),
      ks_list = (\<lambda>a want. sim_call a (\<lambda>dm. (docker_exc (svc_list want dm), dm))),
      ks_run = (\<lambda>a sp w. sim_call a (\<lambda>dm.
          case svc_run (sim_clock w) (sn_own (sim_node a w)) sp dm of
            (Inl m, dm') \<Rightarrow> (Inl (OtherExc m), dm') | (Inr c, dm') \<Rightarrow> (Inr (), dm')) w),
      ks_logs = (\<lambda>a n k. sim_call a (\<lambda>dm. (docker_exc (svc_logs n k dm), dm))),
      ks_exec = (\<lambda>a n cmd det usr. sim_call a (\<lambda>dm.
          case svc_exec n cmd det dm of (r, dm') \<Rightarrow> (docker_exc r, dm'))),
      ks_copy = (\<lambda>a n src dst. sim_call a (\<lambda>dm. (Inr True, dm))),
      ks_mkdirs = (\<lambda>a ps. sim_call a (\<lambda>dm. (Inr (svc_ensure_directories ps dm), dm))),
      ks_image = (\<lambda>a ref. sim_call a (\<lambda>dm. (Inr (svc_image_exists ref dm), dm))),
      ks_listening = (\<lambda>a p w. (True, w)),
      ks_http = (\<lambda>url w. (Some (200, None), w)), ks_tick = (\<lambda>w. w), ks_looks = 2, ks_now = sim_clock,
      ks_local = (\<lambda>a. sim_key a = []), ks_simulated = True,
      ks_mod = (\<lambda>m. None)\<rparr>"

text \<open>What is on a daemon, and on the machine an address names.\<close>

definition daemon_labels :: "daemon \<Rightarrow> string \<Rightarrow> labels option" where
  "daemon_labels dm n = (case dict_get (dm_containers dm) n of
     None \<Rightarrow> None | Some c \<Rightarrow> if ct_removed c then None else Some (ct_labels c))"

definition sim_labels :: "sim \<Rightarrow> string \<Rightarrow> string \<Rightarrow> labels option" where
  "sim_labels w a n = daemon_labels (sn_daemon (sim_node a w)) n"

text \<open>A container is filed under its own name, and no container has the status of a missing one.\<close>

definition daemon_ok :: "daemon \<Rightarrow> bool" where
  "daemon_ok dm \<longleftrightarrow> (\<forall>(n, c) \<in> set (dm_containers dm). ct_name c = n \<and> ct_status c \<noteq> ''missing'')"

definition sim_ok :: "sim \<Rightarrow> bool" where
  "sim_ok w \<longleftrightarrow> (\<forall>(k, n) \<in> set (sim_nodes w). daemon_ok (sn_daemon n))"

text \<open>What a daemon operation may do to the containers, as a relation on daemons.\<close>

definition daemon_shrinks :: "daemon \<Rightarrow> daemon \<Rightarrow> bool" where
  "daemon_shrinks dm dm' \<longleftrightarrow> (daemon_ok dm \<longrightarrow> daemon_ok dm' \<and>
     (\<forall>n. daemon_labels dm' n = None \<or> daemon_labels dm' n = daemon_labels dm n))"

lemma daemon_get_SomeD:
  "daemon_get n dm = Inr c \<Longrightarrow> dict_get (dm_containers dm) n = Some c \<and> \<not> ct_removed c"
  by (auto simp: daemon_get_def daemon_check_def split: if_splits option.splits)

lemma daemon_get_ok: "daemon_ok dm \<Longrightarrow> daemon_get n dm = Inr c \<Longrightarrow> ct_name c = n \<and> ct_status c \<noteq> ''missing''"
  by (fastforce simp: daemon_ok_def dest!: daemon_get_SomeD map_of_SomeD)

lemma set_dict_set: "x \<in> set (dict_set k v d) \<Longrightarrow> x = (k, v) \<or> x \<in> set d"
  by (induction d) (auto split: if_splits)

lemma daemon_ok_set:
  "daemon_ok dm \<Longrightarrow> ct_name c = n \<Longrightarrow> ct_status c \<noteq> ''missing'' \<Longrightarrow>
   daemon_ok (dm\<lparr>dm_containers := dict_set n c (dm_containers dm)\<rparr>)"
  by (auto simp: daemon_ok_def dest!: set_dict_set)

lemma daemon_get_missing:
  "daemon_get n dm = Inl (NotFound m) \<Longrightarrow> daemon_labels dm n = None"
  by (auto simp: daemon_get_def daemon_check_def daemon_labels_def split: if_splits option.splits)

lemma svc_stop_shrinks: "svc_stop n dm = (b, dm') \<Longrightarrow> daemon_shrinks dm dm'"
  by (auto simp: svc_stop_def daemon_shrinks_def daemon_labels_def split: sum.splits
      intro!: daemon_ok_set dest: daemon_get_ok)

lemma svc_exec_shrinks:
  assumes "svc_exec n cmd det dm = (r, dm')" shows "daemon_shrinks dm dm'"
proof (cases "daemon_get n dm")
  case (Inl e)
  with assms show ?thesis by (simp add: svc_exec_def daemon_shrinks_def)
next
  case (Inr c)
  then obtain c' where dm': "dm' = dm\<lparr>dm_containers := dict_set n c' (dm_containers dm)\<rparr>"
    and c': "ct_name c' = ct_name c" "ct_status c' = ct_status c" "ct_labels c' = ct_labels c"
      "ct_removed c' = ct_removed c"
    using assms by (cases "contains ''pgrep -f'' (join '' '' cmd)") (auto simp: svc_exec_def Let_def)
  have "daemon_ok dm'" if "daemon_ok dm"
    using daemon_get_ok[OF that Inr] c' daemon_ok_set[OF that, of c' n] by (simp add: dm')
  moreover have "daemon_labels dm' m = daemon_labels dm m" for m
    using daemon_get_SomeD[OF Inr] c' by (simp add: dm' daemon_labels_def)
  ultimately show ?thesis by (simp add: daemon_shrinks_def)
qed

lemma svc_run_labels:
  "svc_run t own sp dm = (r, dm') \<Longrightarrow> daemon_labels dm' m = daemon_labels dm m \<or> m = cs_name sp"
  by (auto simp: svc_run_def daemon_run_def Let_def container_kwargs_def daemon_labels_def
      split: sum.splits prod.splits docker_error.splits)

lemma svc_run_ok: "svc_run t own sp dm = (r, dm') \<Longrightarrow> daemon_ok dm \<Longrightarrow> daemon_ok dm'"
  by (auto simp: svc_run_def daemon_run_def Let_def container_kwargs_def daemon_check_def
      split: sum.splits prod.splits docker_error.splits if_splits intro!: daemon_ok_set)

lemma svc_status_missing:
  "cst_status (svc_status n dm) = ''missing'' \<Longrightarrow> daemon_ok dm \<Longrightarrow> daemon_labels dm n = None"
  by (auto simp: svc_status_def dest: daemon_get_missing daemon_get_ok
      split: sum.splits docker_error.splits)

lemma fold_filter: "foldl (\<lambda>cs t. filter (\<lambda>c. P c t) cs) cs ts = filter (\<lambda>c. \<forall>t \<in> set ts. P c t) cs"
  by (induction ts arbitrary: cs) (auto intro: filter_cong)

lemma set_label_plain: "CHR ''='' \<notin> set (label ''managed'')"
  by (simp add: label_def)

lemma term_matches_value: "CHR ''='' \<notin> set k \<Longrightarrow> term_matches ls (k @ ''='' @ v) = (map_of ls k = Some v)"
  by (simp add: term_matches_def)

lemma svc_list_complete:
  assumes "svc_list want dm = Inr is" and "daemon_ok dm" and "daemon_labels dm n = Some ls"
    and "map_of ls (label ''managed'') = Some ''true''" and "labels_match ls want"
    and keys: "\<forall>(k, v) \<in> set want. CHR ''='' \<notin> set k"
  shows "\<exists>i \<in> set is. ci_name i = n \<and> ci_labels i = ls"
proof -
  from assms(3) obtain c where c: "map_of (dm_containers dm) n = Some c" "\<not> ct_removed c" "ct_labels c = ls"
    by (auto simp: daemon_labels_def split: option.splits if_splits)
  then have name: "ct_name c = n" and c_in: "c \<in> set (map snd (dm_containers dm))"
    using assms(2) by (force simp: daemon_ok_def dest: map_of_SomeD)+
  have "term_matches (ct_labels c) t" if "t \<in> set (label_filter want)" for t
  proof -
    from that consider "t = label ''managed'' @ ''='' @ ''true''"
      | k v where "(k, v) \<in> set want" "t = (if v = [] then k else k @ ''='' @ v)"
      by (auto simp: label_filter_def)
    then show ?thesis
    proof cases
      case 1
      then show ?thesis
        using term_matches_value[OF set_label_plain] assms(4) c(3) by simp
    next
      case 2
      then have k: "CHR ''='' \<notin> set k" and m: "if v = [] then map_of ls k \<noteq> None else map_of ls k = Some v"
        using keys assms(5) by (auto simp: labels_match_def split: if_splits)
      show ?thesis
      proof (cases "v = []")
        case True
        with 2 k m c(3) show ?thesis by (simp add: term_matches_def)
      next
        case False
        with 2 k m c(3) show ?thesis using term_matches_value[OF k, of ls v] by simp
      qed
    qed
  qed
  then have f: "c \<in> set (filter (\<lambda>c. \<forall>t \<in> set (label_filter want). term_matches (ct_labels c) t)
      (filter (\<lambda>c. \<not> ct_removed c) (map snd (dm_containers dm))))"
    using c(2) c_in by simp
  have "is = filter (\<lambda>i. labels_match (ci_labels i) want) (map container_to_info
      (filter (\<lambda>c. \<forall>t \<in> set (label_filter want). term_matches (ct_labels c) t)
      (filter (\<lambda>c. \<not> ct_removed c) (map snd (dm_containers dm)))))"
    using assms(1) by (simp add: svc_list_def daemon_list_def Let_def fold_filter split: sum.splits)
  moreover have "ci_labels (container_to_info c) = ls" "ci_name (container_to_info c) = n"
    using name c(3) by (simp_all add: container_to_info_def)
  ultimately show ?thesis using f assms(5) by (intro bexI[of _ "container_to_info c"]) auto
qed

subsection \<open>The cluster satisfies the laws\<close>

lemma sim_node_set: "sim_node b (set_daemon a dm w) =
    (if sim_key b = sim_key a then (sim_node a w)\<lparr>sn_daemon := dm\<rparr> else sim_node b w)"
  by (simp add: sim_node_def set_daemon_def)

lemma sim_labels_set: "sim_labels (set_daemon a dm w) b n =
    (if sim_key b = sim_key a then daemon_labels dm n else sim_labels w b n)"
  by (simp add: sim_labels_def sim_node_set)

lemma sim_labels_key: "sim_key a = sim_key b \<Longrightarrow> sim_labels w a n = sim_labels w b n"
  by (simp add: sim_labels_def sim_node_def)

lemma sim_ok_node: "sim_ok w \<Longrightarrow> daemon_ok (sn_daemon (sim_node a w))"
  by (fastforce simp: sim_ok_def sim_node_def daemon_ok_def empty_daemon_def
      split: option.splits dest!: map_of_SomeD)

lemma sim_ok_set: "sim_ok w \<Longrightarrow> daemon_ok dm \<Longrightarrow> sim_ok (set_daemon a dm w)"
  by (auto simp: sim_ok_def set_daemon_def dest!: set_dict_set)

lemma set_daemon_shrinks:
  assumes "daemon_shrinks (sn_daemon (sim_node a w)) dm'"
  shows "shrinks sim_ok sim_labels w (set_daemon a dm' w)"
  unfolding shrinks_def
proof (intro impI conjI allI)
  assume ok: "sim_ok w"
  then have d: "daemon_ok dm'" "daemon_labels dm' n = None \<or> daemon_labels dm' n = sim_labels w a n" for n
    using assms sim_ok_node[of w a] by (auto simp: daemon_shrinks_def sim_labels_def)
  show "sim_ok (set_daemon a dm' w)"
    by (rule sim_ok_set[OF ok d(1)])
  fix b n
  show "sim_labels (set_daemon a dm' w) b n = None \<or> sim_labels (set_daemon a dm' w) b n = sim_labels w b n"
  proof (cases "sim_key b = sim_key a")
    case True
    with d(2)[of n] sim_labels_key[OF True, of w n] show ?thesis by (simp add: sim_labels_set)
  qed (simp add: sim_labels_set)
qed

lemma daemon_shrinks_refl [simp]: "daemon_shrinks dm dm"
  by (simp add: daemon_shrinks_def)

lemma sim_call_shrinks:
  assumes "\<And>dm r dm'. f dm = (r, dm') \<Longrightarrow> daemon_shrinks dm dm'"
  shows "shrinks sim_ok sim_labels w (snd (sim_call a f w))"
proof -
  obtain r dm' where f: "f (sn_daemon (sim_node a w)) = (r, dm')"
    by (cases "f (sn_daemon (sim_node a w))")
  show ?thesis
    using set_daemon_shrinks[OF assms[OF f]] by (simp add: sim_call_def f del: append.simps)
qed

lemma set_daemon_same: "sim_labels (set_daemon a (sn_daemon (sim_node a w)) w) b n = sim_labels w b n"
proof (cases "sim_key b = sim_key a")
  case True
  from sim_labels_key[OF this, of w n] True show ?thesis by (simp add: sim_labels_set) (simp add: sim_labels_def)
qed (simp add: sim_labels_set)

lemma sim_call_same:
  assumes "sim_call a (\<lambda>dm. (g dm, dm)) w = (r, w')"
  shows "(r = Inl (OtherExc (''no answer from '' @ a)) \<or> r = g (sn_daemon (sim_node a w))) \<and>
    sim_labels w' b n = sim_labels w b n"
proof (cases "\<not> sn_connected (sim_node a w) \<and> sim_key a \<noteq> []")
  case True
  with assms show ?thesis by (simp add: sim_call_def del: append.simps)
next
  case False
  then have "sim_call a (\<lambda>dm. (g dm, dm)) w = (g (sn_daemon (sim_node a w)), set_daemon a (sn_daemon (sim_node a w)) w)"
    unfolding sim_call_def by (metis (no_types, lifting) split_conv)
  with assms show ?thesis using set_daemon_same by auto
qed

interpretation simulated: node_service_laws sim_services sim_ok sim_labels
proof unfold_locales
  fix w a n want k cmd det usr src dst ps ref p url
  show "shrinks sim_ok sim_labels w (snd (ks_stop sim_services a n w))"
    by (auto simp: sim_services_def intro!: sim_call_shrinks dest: svc_stop_shrinks split: prod.splits)
  show "shrinks sim_ok sim_labels w (snd (ks_status sim_services a n w))"
    by (auto simp: sim_services_def intro!: sim_call_shrinks)
  show "shrinks sim_ok sim_labels w (snd (ks_list sim_services a want w))"
    by (auto simp: sim_services_def intro!: sim_call_shrinks)
  show "shrinks sim_ok sim_labels w (snd (ks_logs sim_services a n k w))"
    by (auto simp: sim_services_def intro!: sim_call_shrinks)
  show "shrinks sim_ok sim_labels w (snd (ks_exec sim_services a n cmd det usr w))"
    by (auto simp: sim_services_def intro!: sim_call_shrinks dest: svc_exec_shrinks split: prod.splits)
  show "shrinks sim_ok sim_labels w (snd (ks_copy sim_services a n src dst w))"
    by (auto simp: sim_services_def intro!: sim_call_shrinks)
  show "shrinks sim_ok sim_labels w (snd (ks_mkdirs sim_services a ps w))"
    by (auto simp: sim_services_def intro!: sim_call_shrinks)
  show "shrinks sim_ok sim_labels w (snd (ks_image sim_services a ref w))"
    by (auto simp: sim_services_def intro!: sim_call_shrinks)
  show "shrinks sim_ok sim_labels w (snd (ks_listening sim_services a p w))"
    and "shrinks sim_ok sim_labels w (snd (ks_http sim_services url w))"
    and "shrinks sim_ok sim_labels w (ks_tick sim_services w)"
    by (simp_all add: sim_services_def)
next
  fix w a n s w'
  assume ok: "sim_ok w" and st: "ks_status sim_services a n w = (Inr s, w')" and m: "cst_status s = ''missing''"
  then have "sim_call a (\<lambda>dm. (Inr (svc_status n dm), dm)) w = (Inr s, w')"
    by (simp add: sim_services_def)
  from sim_call_same[OF this] have "s = svc_status n (sn_daemon (sim_node a w))"
    and "sim_labels w' a n = sim_labels w a n" by auto
  then show "sim_labels w' a n = None"
    using svc_status_missing[OF _ sim_ok_node[OF ok]] m by (simp add: sim_labels_def)
next
  fix w a want "is" w' n ls
  assume ok: "sim_ok w" and l: "ks_list sim_services a want w = (Inr is, w')"
    and h: "sim_labels w' a n = Some ls" "map_of ls (label ''managed'') = Some ''true''"
      "labels_match ls want" "\<forall>(k, v) \<in> set want. CHR ''='' \<notin> set k"
  from l have "sim_call a (\<lambda>dm. (docker_exc (svc_list want dm), dm)) w = (Inr is, w')"
    by (simp add: sim_services_def)
  from sim_call_same[OF this] have "docker_exc (svc_list want (sn_daemon (sim_node a w))) = Inr is"
    and "sim_labels w' a n = sim_labels w a n" by auto
  moreover from this(1) have "svc_list want (sn_daemon (sim_node a w)) = Inr is"
    by (cases "svc_list want (sn_daemon (sim_node a w))") auto
  ultimately show "\<exists>i \<in> set is. ci_name i = n \<and> ci_labels i = ls"
    using svc_list_complete[OF _ sim_ok_node[OF ok] _ h(2-4)] h(1) by (simp add: sim_labels_def)
next
  fix w a sp b n
  assume ok: "sim_ok w"
  obtain r dm' where r: "svc_run (sim_clock w) (sn_own (sim_node a w)) sp (sn_daemon (sim_node a w)) = (r, dm')"
    by (cases "svc_run (sim_clock w) (sn_own (sim_node a w)) sp (sn_daemon (sim_node a w))")
  then have w': "snd (ks_run sim_services a sp w) = (if \<not> sn_connected (sim_node a w) \<and> sim_key a \<noteq> [] then w
      else set_daemon a dm' w)"
    by (auto simp: sim_services_def sim_call_def split: sum.splits)
  show "sim_ok (snd (ks_run sim_services a sp w))"
    using ok sim_ok_set[OF ok svc_run_ok[OF r sim_ok_node[OF ok]]] unfolding w' by simp
  show "sim_labels (snd (ks_run sim_services a sp w)) b n = sim_labels w b n \<or> n = cs_name sp"
    using svc_run_labels[OF r, of n, folded sim_labels_def] sim_labels_key[of b a w n] unfolding w'
    by (auto simp: sim_labels_set)
qed

end
