(* ===== verification/Gang_State.thy ===== *)
theory Gang_State
  imports Deploy_Records Node_Service
begin

text \<open>
  The gang runtime's state and plan, \<open>spark_pulse/tools/native_runtime.py\<close>: the record set it
  loads and saves, the event stream, the pulls in flight, and the world of the nodes. The
  record set is the list \<open>_load_records\<close> answers on a settled, readable store: saving keeps the
  last record of each id and a load redacts, so \<open>save_recs\<close> is \<open>save\<close> followed by \<open>load\<close>; the
  refinement to the table itself is proved at the end. The metadata of an event is not kept.
  Text outside ASCII is its UTF-8 bytes.
\<close>

section \<open>The plan\<close>

record rank_plan =
  rp_rank :: nat
  rp_node :: string
  rp_host :: string
  rp_container :: cspec
  rp_command :: string
  rp_script :: string
  rp_is_head :: bool

record deploy_plan =
  p_id :: string
  p_recipe_id :: string
  p_name :: string
  p_engine :: string
  p_variant :: string
  p_image_ref :: string
  p_nodes :: "string list"
  p_node_count :: nat
  p_port :: nat
  p_rendezvous_port :: "nat option"
  p_rpc_port :: "nat option"
  p_readiness_url :: string
  p_served_model :: string
  p_launch_command :: string
  p_mods :: "string list"
  p_container :: cspec
  p_ranks :: "rank_plan list"
  p_generation :: nat
  p_image_present :: bool
  p_gpu_fraction :: "rat option"
  p_created_at :: string
  p_workdir :: string
  p_warnings :: "string list"

text \<open>Workers first, rank zero last; and the reverse.\<close>

definition start_order :: "deploy_plan \<Rightarrow> rank_plan list" where
  "start_order p = rev (p_ranks p)"

definition teardown_order :: "deploy_plan \<Rightarrow> rank_plan list" where
  "teardown_order p = p_ranks p"

abbreviation container_prefix :: string where "container_prefix \<equiv> ''spark-pulse-''"

definition container_name_for :: "string \<Rightarrow> string" where
  "container_name_for i = container_prefix @ i"

definition rank_container_name :: "string \<Rightarrow> nat \<Rightarrow> nat \<Rightarrow> string" where
  "rank_container_name i rank gen = container_prefix @ i @ ''-r'' @ str_of_nat rank @ ''-g'' @ str_of_nat gen"

section \<open>Records\<close>

definition rank_entries :: "dep \<Rightarrow> rank_entry list" where
  "rank_entries r =
     (if d_ranks r \<noteq> [] then d_ranks r
      else [\<lparr>re_rank = 0, re_node = [], re_host = [],
             re_container = py_or (d_container_name r) (container_name_for (d_id r)), re_is_head = True\<rparr>])"

definition rank_record :: "rank_plan \<Rightarrow> rank_entry" where
  "rank_record rp = \<lparr>re_rank = rp_rank rp, re_node = rp_node rp, re_host = rp_host rp,
     re_container = cs_name (rp_container rp), re_is_head = rp_is_head rp\<rparr>"

definition record_from_plan :: "deploy_plan \<Rightarrow> string \<Rightarrow> dep" where
  "record_from_plan p status = \<lparr>d_id = p_id p, d_recipe_id = p_recipe_id p, d_name = p_name p,
     d_nodes = p_nodes p, d_status = status, d_created_at = p_created_at p, d_started_at = None,
     d_ready_at = None, d_stopped_at = Some None, d_error_message = None, d_port = Some (p_port p),
     d_rendezvous_port = p_rendezvous_port p, d_rpc_port = p_rpc_port p,
     d_launch_command = p_launch_command p, d_runtime = ''native'', d_image_ref = p_image_ref p,
     d_container_name = cs_name (p_container p), d_image_present = p_image_present p,
     d_node_count = p_node_count p, d_readiness_url = p_readiness_url p,
     d_served_model = p_served_model p, d_gpu_fraction = Some (p_gpu_fraction p),
     d_generation = Some (p_generation p), d_ranks = map rank_record (p_ranks p), d_orphans = [],
     d_final_logs = [], d_warnings = [], d_reconciled = False, d_sync = [], d_sync_reason = [],
     d_sync_intent = []\<rparr>"

section \<open>State\<close>

record 'w gang =
  g_recs :: "dep list"
  g_events :: "event list"
  g_pulls :: "(string \<times> bool) list"
  g_world :: 'w

definition publish :: "string \<Rightarrow> string \<Rightarrow> string \<Rightarrow> 'w gang \<Rightarrow> 'w gang" where
  "publish typ i m s = s\<lparr>g_events := g_events s @ [\<lparr>ev_type = typ, ev_resource = i, ev_message = py_or m typ\<rparr>]\<rparr>"

definition save_recs :: "dep list \<Rightarrow> dep list" where
  "save_recs rs = map (\<lambda>(i, r). redact_record r) (wanted rs)"

definition get_deployment :: "string \<Rightarrow> 'w gang \<Rightarrow> dep option" where
  "get_deployment i s = find (\<lambda>r. d_id r = i) (g_recs s)"

text \<open>The loop of \<open>_update_record\<close>: the first record of the id is changed and the set saved.\<close>

fun change_first :: "string \<Rightarrow> (dep \<Rightarrow> dep) \<Rightarrow> dep list \<Rightarrow> (dep \<times> dep list) option" where
  "change_first i f [] = None"
| "change_first i f (r # rs) =
     (if d_id r = i then Some (f r, f r # rs)
      else case change_first i f rs of None \<Rightarrow> None | Some (x, rs') \<Rightarrow> Some (x, r # rs'))"

definition update_record :: "string \<Rightarrow> (dep \<Rightarrow> dep) \<Rightarrow> 'w gang \<Rightarrow> dep option \<times> 'w gang" where
  "update_record i f s =
     (case change_first i f (g_recs s) of
        None \<Rightarrow> (None, s)
      | Some (r, rs) \<Rightarrow> (Some r, s\<lparr>g_recs := save_recs rs\<rparr>))"

definition next_generation :: "string \<Rightarrow> 'w gang \<Rightarrow> nat" where
  "next_generation i s =
     (case get_deployment i s of
        None \<Rightarrow> 1
      | Some r \<Rightarrow> (case d_generation r of None \<Rightarrow> 0 | Some g \<Rightarrow> g) + 1)"

definition em_dash :: string where "em_dash = [CHR 0xE2, CHR 0x80, CHR 0x94]"

definition unexplained_error :: string where
  "unexplained_error = ''this deploy failed and nothing recorded why '' @ em_dash
     @ '' please report it, and read the run's logs for the engine's own last words''"

definition error_text :: "string \<Rightarrow> string" where
  "error_text m = py_or (strip m) unexplained_error"

text \<open>\<open>_record_error\<close>: \<open>extra\<close> is the keyword fields beyond the four it always writes.\<close>

definition record_error :: "string \<Rightarrow> string \<Rightarrow> string \<Rightarrow> (dep \<Rightarrow> dep) \<Rightarrow> 'w gang \<Rightarrow> dep option \<times> 'w gang" where
  "record_error now i m extra s =
     (let t = error_text m
      in update_record i
           (\<lambda>r. extra (r\<lparr>d_status := ''error'', d_error_message := Some t, d_stopped_at := Some (Some now)\<rparr>))
           (publish ''deployment_error'' i t s))"

definition persist_planned_record :: "deploy_plan \<Rightarrow> string \<Rightarrow> 'w gang \<Rightarrow> dep \<times> 'w gang" where
  "persist_planned_record p status s =
     (let r = record_from_plan p status
      in (r, s\<lparr>g_recs := save_recs (filter (\<lambda>x. d_id x \<noteq> p_id p) (g_recs s) @ [r])\<rparr>))"

subsection \<open>Pulls in flight\<close>

definition register_pull :: "string \<Rightarrow> 'w gang \<Rightarrow> 'w gang" where
  "register_pull i s = s\<lparr>g_pulls := dict_set i False (g_pulls s)\<rparr>"

definition unregister_pull :: "string \<Rightarrow> 'w gang \<Rightarrow> 'w gang" where
  "unregister_pull i s = s\<lparr>g_pulls := dict_del i (g_pulls s)\<rparr>"

definition cancel_pull :: "string \<Rightarrow> 'w gang \<Rightarrow> bool \<times> 'w gang" where
  "cancel_pull i s = (case dict_get (g_pulls s) i of
     None \<Rightarrow> (False, s) | Some _ \<Rightarrow> (True, s\<lparr>g_pulls := dict_set i True (g_pulls s)\<rparr>))"

definition pull_cancel_requested :: "string \<Rightarrow> 'w gang \<Rightarrow> bool" where
  "pull_cancel_requested i s = dict_lookup (g_pulls s) i False"

definition is_torn_down :: "string \<Rightarrow> 'w gang \<Rightarrow> bool" where
  "is_torn_down i s = (case get_deployment i s of None \<Rightarrow> True | Some r \<Rightarrow> d_status r = ''stopped'')"

definition teardown_requested :: "string \<Rightarrow> 'w gang \<Rightarrow> bool" where
  "teardown_requested i s = (pull_cancel_requested i s \<or> is_torn_down i s)"

section \<open>Laws of the record set\<close>

text \<open>What a load answers: ids unique and never empty, launch commands redacted.\<close>

definition recs_ok :: "dep list \<Rightarrow> bool" where
  "recs_ok rs \<longleftrightarrow> distinct (map d_id rs) \<and> (\<forall>r \<in> set rs. d_id r \<noteq> [] \<and> redact_record r = r)"

lemma redact_record_simps [simp]:
  "d_status (redact_record r) = d_status r" "d_orphans (redact_record r) = d_orphans r"
  "d_ranks (redact_record r) = d_ranks r" "d_runtime (redact_record r) = d_runtime r"
  "d_error_message (redact_record r) = d_error_message r" "d_stopped_at (redact_record r) = d_stopped_at r"
  "d_container_name (redact_record r) = d_container_name r" "d_sync (redact_record r) = d_sync r"
  "d_started_at (redact_record r) = d_started_at r" "d_ready_at (redact_record r) = d_ready_at r"
  "d_generation (redact_record r) = d_generation r" "d_final_logs (redact_record r) = d_final_logs r"
  "d_sync_intent (redact_record r) = d_sync_intent r" "d_sync_reason (redact_record r) = d_sync_reason r"
  by (simp_all add: redact_record_def)

lemma redact_record_idem [simp]: "redact_record (redact_record r) = redact_record r"
  by (simp add: redact_record_def redact_idem)

lemma find_rev_distinct: "distinct (map d_id rs) \<Longrightarrow> find (\<lambda>r. d_id r = i) (rev rs) = find (\<lambda>r. d_id r = i) rs"
proof (induction rs)
  case (Cons a rs)
  then have IH: "find (\<lambda>r. d_id r = i) (rev rs) = find (\<lambda>r. d_id r = i) rs" by simp
  show ?case
  proof (cases "d_id a = i")
    case True
    then have "find (\<lambda>r. d_id r = i) rs = None"
      using Cons.prems by (auto simp: find_None_iff' image_iff)
    with True IH show ?thesis by (simp add: find_append)
  next
    case False
    with IH show ?thesis by (simp add: find_append split: option.splits)
  qed
qed simp

lemma recs_ok_save: "recs_ok (save_recs rs)"
proof -
  have "map d_id (save_recs rs) = map fst (wanted rs)"
    using wanted_id by (auto simp: save_recs_def)
  then have "distinct (map d_id (save_recs rs))"
    using wanted_distinct[of rs] by simp
  then show ?thesis
    using wanted_id[of _ _ rs] by (auto simp: recs_ok_def save_recs_def)
qed

lemma find_save_recs:
  "find (\<lambda>r. d_id r = i) (save_recs rs) =
     (if i = [] then None else map_option redact_record (find (\<lambda>r. d_id r = i) (rev rs)))"
proof -
  have "find (\<lambda>r. d_id r = i) (map (\<lambda>(i, r). redact_record r) w) = map_option redact_record (map_of w i)"
    if "\<forall>x \<in> set w. d_id (snd x) = fst x" for w
    using that by (induction w) auto
  then show ?thesis
    using wanted_id by (force simp: save_recs_def wanted_lookup)
qed

lemma change_first_None: "change_first i f rs = None \<longleftrightarrow> find (\<lambda>r. d_id r = i) rs = None"
  by (induction rs) (auto split: option.splits)

lemma change_first_Some:
  assumes "change_first i f rs = Some (x, rs')" and "\<forall>r. d_id (f r) = d_id r"
  shows "\<exists>r. find (\<lambda>r. d_id r = i) rs = Some r \<and> x = f r \<and>
     (\<forall>j. find (\<lambda>r. d_id r = j) rs' = (if j = i then Some (f r) else find (\<lambda>r. d_id r = j) rs)) \<and>
     map d_id rs' = map d_id rs"
  using assms by (induction rs arbitrary: rs') (auto split: if_splits option.splits)

text \<open>An update is atomic: it changes the one record it names and answers what it wrote.\<close>

lemma update_record_frame [simp]:
  "g_events (snd (update_record i f s)) = g_events s" "g_pulls (snd (update_record i f s)) = g_pulls s"
  "g_world (snd (update_record i f s)) = g_world s"
  by (auto simp: update_record_def split: option.splits prod.splits)

lemma update_record_fst:
  assumes "\<forall>r. d_id (f r) = d_id r"
  shows "fst (update_record i f s) = map_option f (get_deployment i s)"
proof (cases "change_first i f (g_recs s)")
  case None
  then show ?thesis by (simp add: update_record_def get_deployment_def change_first_None[THEN iffD1])
next
  case (Some a)
  then obtain x rs' where "change_first i f (g_recs s) = Some (x, rs')" by (cases a) auto
  from change_first_Some[OF this assms] this show ?thesis
    by (auto simp: update_record_def get_deployment_def)
qed

lemma update_record_ok [wf_preserve]: "recs_ok (g_recs s) \<Longrightarrow> recs_ok (g_recs (snd (update_record i f s)))"
  by (auto simp: update_record_def recs_ok_save split: option.splits prod.splits)

lemma recs_ok_find:
  "recs_ok rs \<Longrightarrow> map_option redact_record (find (\<lambda>r. d_id r = j) rs) = find (\<lambda>r. d_id r = j) rs"
  by (cases "find (\<lambda>r. d_id r = j) rs") (auto simp: recs_ok_def dest!: find_SomeD')

lemma recs_ok_find_Nil: "recs_ok rs \<Longrightarrow> find (\<lambda>r. d_id r = []) rs = None"
  by (auto simp: recs_ok_def find_None_iff')

lemma get_update_record [store_laws]:
  assumes ok: "recs_ok (g_recs s)" and f: "\<forall>r. d_id (f r) = d_id r"
  shows "get_deployment j (snd (update_record i f s)) =
       (if j = i then map_option (redact_record \<circ> f) (get_deployment i s) else get_deployment j s)"
proof (cases "change_first i f (g_recs s)")
  case None
  then have "find (\<lambda>r. d_id r = i) (g_recs s) = None" using change_first_None by blast
  with None show ?thesis
    by (simp add: update_record_def get_deployment_def)
next
  case (Some a)
  obtain x rs' where a: "a = (x, rs')" by (cases a) auto
  from change_first_Some[OF Some[unfolded a] f] obtain r where r:
    "find (\<lambda>r. d_id r = i) (g_recs s) = Some r"
    "\<forall>j. find (\<lambda>r. d_id r = j) rs' = (if j = i then Some (f r) else find (\<lambda>r. d_id r = j) (g_recs s))"
    "map d_id rs' = map d_id (g_recs s)"
    by auto
  have d: "distinct (map d_id rs')" using ok r(3) by (simp add: recs_ok_def)
  have "i \<noteq> []" using r(1) recs_ok_find_Nil[OF ok] by auto
  then have "find (\<lambda>r. d_id r = j) (save_recs rs') =
       (if j = i then Some (redact_record (f r)) else find (\<lambda>r. d_id r = j) (g_recs s))"
    using recs_ok_find[OF ok, of j] recs_ok_find_Nil[OF ok] by (auto simp: find_save_recs find_rev_distinct[OF d] r(2))
  then show ?thesis
    using Some a r(1) by (auto simp: update_record_def get_deployment_def)
qed

lemma get_persist [store_laws]:
  assumes ok: "recs_ok (g_recs s)" and i: "p_id p \<noteq> []"
  shows "get_deployment j (snd (persist_planned_record p st s)) =
     (if j = p_id p then Some (redact_record (record_from_plan p st)) else get_deployment j s)"
proof -
  let ?r = "record_from_plan p st"
  have id: "d_id ?r = p_id p" by (simp add: record_from_plan_def)
  have "find (\<lambda>r. d_id r = j) (filter (\<lambda>x. d_id x \<noteq> p_id p) rs) = find (\<lambda>r. d_id r = j) rs" if "j \<noteq> p_id p" for rs :: "dep list"
    using that by (induction rs) auto
  moreover have "find (\<lambda>r. d_id r = j) (rev (filter (\<lambda>x. d_id x \<noteq> p_id p) (g_recs s)))
      = find (\<lambda>r. d_id r = j) (filter (\<lambda>x. d_id x \<noteq> p_id p) (g_recs s))"
    using ok by (intro find_rev_distinct) (auto simp: recs_ok_def distinct_map inj_on_def)
  ultimately show ?thesis
    using recs_ok_find[OF ok, of j] recs_ok_find_Nil[OF ok] i id
    by (auto simp: persist_planned_record_def Let_def get_deployment_def find_save_recs)
qed

lemma persist_frame [simp]:
  "g_events (snd (persist_planned_record p st s)) = g_events s"
  "g_pulls (snd (persist_planned_record p st s)) = g_pulls s"
  "g_world (snd (persist_planned_record p st s)) = g_world s"
  "recs_ok (g_recs (snd (persist_planned_record p st s)))"
  by (simp_all add: persist_planned_record_def Let_def recs_ok_save)

lemma publish_frame [simp]:
  "g_recs (publish t i m s) = g_recs s" "g_pulls (publish t i m s) = g_pulls s"
  "g_world (publish t i m s) = g_world s" "get_deployment j (publish t i m s) = get_deployment j s"
  by (simp_all add: publish_def get_deployment_def)

lemma pull_frame [simp]:
  "g_recs (register_pull i s) = g_recs s" "g_world (register_pull i s) = g_world s"
  "g_recs (unregister_pull i s) = g_recs s" "g_world (unregister_pull i s) = g_world s"
  "g_recs (snd (cancel_pull i s)) = g_recs s" "g_world (snd (cancel_pull i s)) = g_world s"
  by (auto simp: register_pull_def unregister_pull_def cancel_pull_def split: option.splits)

lemma get_deployment_cong: "g_recs s = g_recs s' \<Longrightarrow> get_deployment j s = get_deployment j s'"
  by (simp add: get_deployment_def)

section \<open>The table underneath\<close>

text \<open>
  \<open>_update_record\<close> over the table: load, change, save, under the store's mutex. \<open>sees\<close> relates a
  table to the record set a load of it answers.
\<close>

definition update_record_table :: "string \<Rightarrow> (dep \<Rightarrow> dep) \<Rightarrow> store \<Rightarrow> store_error + (dep option \<times> store)" where
  "update_record_table i f st =
     (case load st of
        Inl e \<Rightarrow> Inl e
      | Inr (rs, st1) \<Rightarrow>
          (case change_first i f rs of
             None \<Rightarrow> Inr (None, st1)
           | Some (r, rs') \<Rightarrow> Inr (Some r, save rs' st1)))"

definition sees :: "store \<Rightarrow> 'w gang \<Rightarrow> bool" where
  "sees st s \<longleftrightarrow> store_ok st \<and> (\<forall>i. get_deployment i s = map_option redact_record (lookup st i))"

lemma sees_load:
  assumes "store_ok st"
  shows "\<exists>rs st1. load st = Inr (rs, st1) \<and> store_ok st1 \<and> distinct (map d_id rs) \<and>
     (\<forall>i. find (\<lambda>r. d_id r = i) rs = map_option redact_record (lookup st i)) \<and>
     lookup st1 = map_option redact_record \<circ> lookup st"
proof -
  from assms have ok: "wf_store st" "settled st" by (simp_all add: store_ok_def)
  have "distinct (map d_id (map redact_record (view st)))"
    using wf_view[OF ok(1)] by (simp add: comp_def)
  moreover have "find (\<lambda>r. d_id r = i) (map redact_record (view st)) = map_option redact_record (lookup st i)" for i
    by (simp add: find_map_inv view_lookup[OF ok(1)])
  ultimately show ?thesis
    using load_redacts[OF ok] by (auto simp: store_ok_def)
qed

text \<open>The runtime's update of a record is an update of its row, and answers the same record.\<close>

lemma update_record_refines:
  assumes "sees st s" and "recs_ok (g_recs s)" and f: "\<forall>r. d_id (f r) = d_id r"
  shows "\<exists>st'. update_record_table i f st = Inr (fst (update_record i f s), st') \<and>
     sees st' (snd (update_record i f s))"
proof -
  from assms(1) have st: "store_ok st" and v: "\<forall>i. get_deployment i s = map_option redact_record (lookup st i)"
    by (simp_all add: sees_def)
  from sees_load[OF st] obtain rs st1 where l: "load st = Inr (rs, st1)" "store_ok st1" "distinct (map d_id rs)"
    and rs: "\<forall>i. find (\<lambda>r. d_id r = i) rs = map_option redact_record (lookup st i)"
    and st1: "lookup st1 = map_option redact_record \<circ> lookup st" by blast
  have get: "get_deployment j s = find (\<lambda>r. d_id r = j) rs" for j
    using v rs by simp
  note upd = update_record_fst[OF f, of i s] get_update_record[OF assms(2) f]
  show ?thesis
  proof (cases "change_first i f rs")
    case None
    then have "get_deployment i s = None" using change_first_None get by metis
    then have "update_record i f s = (None, s)"
      by (simp add: update_record_def get_deployment_def change_first_None[THEN iffD2])
    then show ?thesis
      using None l v st1 by (auto simp: update_record_table_def sees_def option.map_comp comp_def)
  next
    case (Some a)
    obtain x rs' where a: "a = (x, rs')" by (cases a) auto
    from change_first_Some[OF Some[unfolded a] f] obtain r where r:
      "find (\<lambda>r. d_id r = i) rs = Some r" "x = f r"
      "\<forall>j. find (\<lambda>r. d_id r = j) rs' = (if j = i then Some (f r) else find (\<lambda>r. d_id r = j) rs)"
      "map d_id rs' = map d_id rs"
      by auto
    have d: "distinct (map d_id rs')" using l(3) r(4) by simp
    have "store_ok (save rs' st1)"
      using l(2) by (simp add: store_ok_def save_wf)
    moreover have "map_option redact_record (lookup (save rs' st1) j) = get_deployment j (snd (update_record i f s))" for j
    proof -
      have nil: "find (\<lambda>r. d_id r = []) rs = None"
        using recs_ok_find_Nil[OF assms(2)] get[of "[]"] by (simp add: get_deployment_def)
      have red: "map_option redact_record (find (\<lambda>r. d_id r = j) rs) = find (\<lambda>r. d_id r = j) rs"
        using rs by (simp add: option.map_comp comp_def)
      show ?thesis
        using r(1) nil red by (auto simp: save_lookup find_rev_distinct[OF d] r(3) upd(2) get)
    qed
    ultimately show ?thesis
      using Some a l(1) upd(1) get r(1,2) by (simp add: update_record_table_def sees_def)
  qed
qed

end
