(* ===== verification/Gang_Teardown.thy ===== *)
theory Gang_Teardown
  imports Gang_State
begin

text \<open>
  Reaping, confirmation and teardown, and the operations built on them: stop, delete, the orphan
  sweep, the live status and the reconciling list of \<open>native_runtime.py\<close>. A resource is released
  on evidence only: a rank that was asked to stop and is not confirmed gone stays on the record
  as an orphan. The lifecycle lock makes each locked section one step; the sections are separate
  definitions (\<open>stop_locked\<close>, \<open>delete_locked\<close>) so that an interleaving can be built of them.
\<close>

section \<open>Evidence\<close>

definition is_confirmed_gone :: "cstatus \<Rightarrow> bool" where
  "is_confirmed_gone c \<longleftrightarrow> cst_status c = ''missing''"

text \<open>\<open>_confirm_gone\<close>: one look, and another after every sleep until the deadline.\<close>

fun confirm_gone :: "'w node_services \<Rightarrow> string \<Rightarrow> string \<Rightarrow> nat \<Rightarrow> 'w \<Rightarrow> (exc + bool) \<times> 'w" where
  "confirm_gone D a n k w =
     (case ks_status D a n w of
        (Inl e, w1) \<Rightarrow> (Inl e, w1)
      | (Inr st, w1) \<Rightarrow>
          if is_confirmed_gone st then (Inr True, w1)
          else (case k of 0 \<Rightarrow> (Inr False, w1) | Suc k' \<Rightarrow> confirm_gone D a n k' (ks_tick D w1)))"

declare confirm_gone.simps [simp del]

definition where_text :: "string \<Rightarrow> string" where
  "where_text node = py_or node ''this machine''"

definition reap :: "'w node_services \<Rightarrow> string \<Rightarrow> string \<Rightarrow> 'w \<Rightarrow> (exc + unit) \<times> 'w" where
  "reap D a n w =
     (case ks_stop D a n w of
        (Inl e, w1) \<Rightarrow> (Inl e, w1)
      | (Inr _, w1) \<Rightarrow>
          (case confirm_gone D a n (ks_looks D) w1 of
             (Inl e, w2) \<Rightarrow> (Inl e, w2)
           | (Inr True, w2) \<Rightarrow> (Inr (), w2)
           | (Inr False, w2) \<Rightarrow>
               (Inl (NativeError (''container '' @ n @ '' on '' @ where_text a
                  @ '' did not go away within 30s; a rank of an earlier attempt ''
                  @ ''is still holding the GPU, so this one will not be started'')), w2)))"

definition stale_names :: "'w node_services \<Rightarrow> deploy_plan \<Rightarrow> rank_plan \<Rightarrow> 'w \<Rightarrow> (exc + string list) \<times> 'w" where
  "stale_names D p rp w =
     (case ks_list D (rp_node rp) [(label ''deployment'', p_id p)] w of
        (Inl e, w1) \<Rightarrow>
          (Inl (NativeError (''could not list containers on '' @ where_text (rp_node rp)
             @ '' to reap earlier attempts: '' @ exc_text e)), w1)
      | (Inr cs, w1) \<Rightarrow>
          (let names = map ci_name (filter (\<lambda>c. dict_get (ci_labels c) (label ''generation'')
                          \<noteq> Some (str_of_nat (p_generation p))) cs);
               target = cs_name (rp_container rp)
           in if target \<in> set names then (Inr names, w1)
              else case ks_status D (rp_node rp) target w1 of
                     (Inl _, w2) \<Rightarrow> (Inr names, w2)
                   | (Inr st, w2) \<Rightarrow> (Inr (if is_confirmed_gone st then names else names @ [target]), w2)))"

fun reap_names :: "'w node_services \<Rightarrow> string \<Rightarrow> string list \<Rightarrow> 'w \<Rightarrow> (exc + unit) \<times> 'w" where
  "reap_names D a [] w = (Inr (), w)"
| "reap_names D a (n # ns) w =
     (case reap D a n w of (Inl e, w1) \<Rightarrow> (Inl e, w1) | (Inr _, w1) \<Rightarrow> reap_names D a ns w1)"

fun reap_ranks :: "'w node_services \<Rightarrow> deploy_plan \<Rightarrow> rank_plan list \<Rightarrow> 'w \<Rightarrow> (exc + unit) \<times> 'w" where
  "reap_ranks D p [] w = (Inr (), w)"
| "reap_ranks D p (rp # rps) w =
     (case ks_resolve D (rp_node rp) w of
        Inl e \<Rightarrow> (Inl e, w)
      | Inr _ \<Rightarrow>
          (case stale_names D p rp w of
             (Inl e, w1) \<Rightarrow> (Inl e, w1)
           | (Inr ns, w1) \<Rightarrow>
               (case reap_names D (rp_node rp) ns w1 of
                  (Inl e, w2) \<Rightarrow> (Inl e, w2)
                | (Inr _, w2) \<Rightarrow> reap_ranks D p rps w2)))"

definition reap_earlier_generations :: "'w node_services \<Rightarrow> deploy_plan \<Rightarrow> 'w \<Rightarrow> (exc + unit) \<times> 'w" where
  "reap_earlier_generations D p w = reap_ranks D p (p_ranks p) w"

section \<open>Teardown\<close>

definition mk_orphan :: "string \<Rightarrow> rank_entry \<Rightarrow> string \<Rightarrow> orphan" where
  "mk_orphan now e reason = \<lparr>or_rank = re_rank e, or_node = re_node e, or_container = re_container e,
     or_reason = reason, or_since = now\<rparr>"

definition not_found_text :: "string \<Rightarrow> string" where
  "not_found_text n = ''Container '' @ CHR 0x27 # n @ CHR 0x27 # '' not found''"

definition final_logs :: "'w node_services \<Rightarrow> string \<Rightarrow> string \<Rightarrow> 'w \<Rightarrow> string \<times> 'w" where
  "final_logs D a n w =
     (case ks_logs D a n 500 w of
        (Inl _, w1) \<Rightarrow> ([], w1)
      | (Inr txt, w1) \<Rightarrow> (if starts_with (not_found_text n) txt then [] else txt, w1))"

text \<open>One rank: the orphan it leaves, if any, and its last output.\<close>

definition teardown_entry :: "'w node_services \<Rightarrow> rank_entry \<Rightarrow> 'w \<Rightarrow> orphan option \<times> string \<times> 'w" where
  "teardown_entry D e w =
     (let n = re_container e; a = re_node e
      in if n = [] then (None, [], w)
         else case final_logs D a n w of (logs, w1) \<Rightarrow>
           (case ks_stop D a n w1 of
              (Inl x, w2) \<Rightarrow>
                (Some (mk_orphan (ks_now D w2) e (''the node could not be reached: '' @ exc_text x)), logs, w2)
            | (Inr _, w2) \<Rightarrow>
                (case confirm_gone D a n (ks_looks D) w2 of
                   (Inl x, w3) \<Rightarrow>
                     (Some (mk_orphan (ks_now D w3) e (''removal could not be confirmed: '' @ exc_text x)), logs, w3)
                 | (Inr True, w3) \<Rightarrow> (None, logs, w3)
                 | (Inr False, w3) \<Rightarrow>
                     (Some (mk_orphan (ks_now D w3) e
                        ''the container was still present after being stopped''), logs, w3))))"

text \<open>Head first; the final logs by rank, the last of a rank kept.\<close>

fun teardown_loop :: "'w node_services \<Rightarrow> rank_entry list \<Rightarrow> 'w \<Rightarrow>
    orphan list \<times> (nat \<times> string) list \<times> 'w" where
  "teardown_loop D [] w = ([], [], w)"
| "teardown_loop D (e # es) w =
     (case ks_resolve D (re_node e) w of
        Inl x \<Rightarrow>
          (case teardown_loop D es w of (os, logs, w') \<Rightarrow>
             (mk_orphan (ks_now D w) e (''the node could not be reached: '' @ exc_text x) # os, logs, w'))
      | Inr _ \<Rightarrow>
          (case teardown_entry D e w of (o1, txt, w1) \<Rightarrow>
             (case teardown_loop D es w1 of (os, logs, w') \<Rightarrow>
                ((case o1 of None \<Rightarrow> os | Some x \<Rightarrow> x # os),
                 (if txt = [] then logs else (re_rank e, txt) # logs), w'))))"

definition teardown_entries :: "'w node_services \<Rightarrow> rank_entry list \<Rightarrow> 'w \<Rightarrow>
    orphan list \<times> (nat \<times> string) list \<times> 'w" where
  "teardown_entries D es w =
     (case teardown_loop D (sort_key re_rank es) w of
        (os, logs, w') \<Rightarrow> (os, foldl (\<lambda>d (k, v). dict_set k v d) [] logs, w'))"

section \<open>Stop and delete\<close>

definition stop_locked :: "'w node_services \<Rightarrow> string \<Rightarrow> 'w gang \<Rightarrow> dep option \<times> 'w gang" where
  "stop_locked D i s =
     (case get_deployment i s of
        None \<Rightarrow> (None, s)
      | Some r \<Rightarrow>
          (let es = rank_entries r
           in case teardown_entries D es (g_world s) of (os, logs, w) \<Rightarrow>
                update_record i
                  (\<lambda>r. r\<lparr>d_status := ''stopped'', d_stopped_at := Some (Some (ks_now D w)),
                         d_orphans := os, d_final_logs := logs\<rparr>)
                  (publish ''deployment_stopped'' i (''stopped '' @ join '', '' (map re_container es))
                     (s\<lparr>g_world := w\<rparr>))))"

definition stop_deployment :: "'w node_services \<Rightarrow> string \<Rightarrow> 'w gang \<Rightarrow> dep option \<times> 'w gang" where
  "stop_deployment D i s =
     (case get_deployment i s of
        None \<Rightarrow> (None, s)
      | Some _ \<Rightarrow> stop_locked D i (snd (cancel_pull i s)))"

definition drop_record :: "string \<Rightarrow> 'w gang \<Rightarrow> bool \<times> 'w gang" where
  "drop_record i s =
     (let remaining = filter (\<lambda>r. d_id r \<noteq> i) (g_recs s)
      in if length remaining = length (g_recs s) then (False, s)
         else (True, s\<lparr>g_recs := save_recs remaining\<rparr>))"

definition delete_locked :: "'w node_services \<Rightarrow> string \<Rightarrow> 'w gang \<Rightarrow> bool \<times> 'w gang" where
  "delete_locked D i s =
     (case get_deployment i s of
        None \<Rightarrow> (False, s)
      | Some _ \<Rightarrow>
          (case stop_deployment D i s of
             (Some r, s1) \<Rightarrow> if d_orphans r \<noteq> [] then (False, s1) else drop_record i s1
           | (None, s1) \<Rightarrow> drop_record i s1))"

definition delete_deployment :: "'w node_services \<Rightarrow> string \<Rightarrow> 'w gang \<Rightarrow> bool \<times> 'w gang" where
  "delete_deployment D i s =
     (case get_deployment i s of
        None \<Rightarrow> (False, s)
      | Some _ \<Rightarrow> delete_locked D i (snd (cancel_pull i s)))"

section \<open>The orphan sweep\<close>

definition sweep_one :: "'w node_services \<Rightarrow> orphan \<Rightarrow> 'w \<Rightarrow> bool \<times> 'w" where
  "sweep_one D x w =
     (case ks_resolve D (or_node x) w of
        Inl _ \<Rightarrow> (False, w)
      | Inr _ \<Rightarrow>
          (case ks_status D (or_node x) (or_container x) w of
             (Inl _, w1) \<Rightarrow> (False, w1)
           | (Inr st, w1) \<Rightarrow>
               if is_confirmed_gone st then (True, w1)
               else if cst_status st = ''unknown'' then (False, w1)
               else (case ks_stop D (or_node x) (or_container x) w1 of
                      (Inl _, w2) \<Rightarrow> (False, w2)
                    | (Inr _, w2) \<Rightarrow>
                        (case ks_status D (or_node x) (or_container x) w2 of
                           (Inl _, w3) \<Rightarrow> (False, w3)
                         | (Inr st2, w3) \<Rightarrow> (is_confirmed_gone st2, w3)))))"

fun sweep_list :: "'w node_services \<Rightarrow> orphan list \<Rightarrow> 'w \<Rightarrow> orphan list \<times> 'w" where
  "sweep_list D [] w = ([], w)"
| "sweep_list D (x # xs) w =
     (case sweep_one D x w of (gone, w1) \<Rightarrow>
        (case sweep_list D xs w1 of (rest, w2) \<Rightarrow> (if gone then rest else x # rest, w2)))"

fun sweep_records :: "'w node_services \<Rightarrow> string option \<Rightarrow> dep list \<Rightarrow> 'w \<Rightarrow> dep list \<times> nat \<times> 'w" where
  "sweep_records D only [] w = ([], 0, w)"
| "sweep_records D only (r # rs) w =
     (if (only \<noteq> None \<and> only \<noteq> Some [] \<and> only \<noteq> Some (d_id r)) \<or> d_orphans r = []
      then (case sweep_records D only rs w of (rs', n, w') \<Rightarrow> (r # rs', n, w'))
      else case sweep_list D (d_orphans r) w of (left, w1) \<Rightarrow>
        (case sweep_records D only rs w1 of (rs', n, w') \<Rightarrow>
           (r\<lparr>d_orphans := left\<rparr> # rs', n + (length (d_orphans r) - length left), w')))"

definition sweep_orphans :: "'w node_services \<Rightarrow> string option \<Rightarrow> 'w gang \<Rightarrow> nat \<times> 'w gang" where
  "sweep_orphans D only s =
     (case sweep_records D only (g_recs s) (g_world s) of (rs, n, w) \<Rightarrow>
        (n, s\<lparr>g_world := w, g_recs := (if n \<noteq> 0 then save_recs rs else g_recs s)\<rparr>))"

section \<open>Reading the live state\<close>

definition probe_ready :: "'w node_services \<Rightarrow> string \<Rightarrow> string \<Rightarrow> 'w \<Rightarrow> bool \<times> 'w" where
  "probe_ready D url model w =
     (if ks_simulated D then (True, w)
      else case ks_http D url w of
             (None, w1) \<Rightarrow> (False, w1)
           | (Some (code, served), w1) \<Rightarrow>
               (code < 400 \<and> (model = [] \<or> (case served of None \<Rightarrow> True | Some ms \<Rightarrow> model \<in> set ms)), w1))"

definition ever_ready :: "dep \<Rightarrow> bool" where
  "ever_ready r \<longleftrightarrow> (d_ready_at r \<noteq> None \<and> d_ready_at r \<noteq> Some []) \<or> d_reconciled r"

definition derive_status :: "dep \<Rightarrow> cstatus \<Rightarrow> bool \<Rightarrow> string" where
  "derive_status r c ready =
     (if d_status r \<in> {''stopped'', ''error''} then d_status r
      else if d_status r \<in> {''pulling'', ''pending''} then d_status r
      else if d_status r = ''starting'' \<and> cst_status c = ''missing'' then ''starting''
      else if \<not> cst_running c then ''stopped''
      else if ready \<or> ever_ready r then ''running'' else ''starting'')"

definition rank_status :: "'w node_services \<Rightarrow> rank_entry \<Rightarrow> 'w \<Rightarrow> cstatus \<times> 'w" where
  "rank_status D e w =
     (case ks_resolve D (re_node e) w of
        Inl x \<Rightarrow> (\<lparr>cst_status = ''unknown'', cst_running = False, cst_error = exc_text x, cst_exit = None\<rparr>, w)
      | Inr _ \<Rightarrow>
          (case ks_status D (re_node e) (re_container e) w of
             (Inl x, w1) \<Rightarrow> (\<lparr>cst_status = ''unknown'', cst_running = False, cst_error = exc_text x, cst_exit = None\<rparr>, w1)
           | (Inr st, w1) \<Rightarrow> (st, w1)))"

text \<open>The answers come in rank order, whatever order the probes ran in.\<close>

fun gather_rank_statuses :: "'w node_services \<Rightarrow> rank_entry list \<Rightarrow> 'w \<Rightarrow> (rank_entry \<times> cstatus) list \<times> 'w" where
  "gather_rank_statuses D [] w = ([], w)"
| "gather_rank_statuses D (e # es) w =
     (case rank_status D e w of (c, w1) \<Rightarrow>
        (case gather_rank_statuses D es w1 of (rest, w2) \<Rightarrow> ((e, c) # rest, w2)))"

record live_status =
  ls_record :: dep
  ls_container :: cstatus
  ls_ranks :: "(rank_entry \<times> cstatus) list"
  ls_ready :: bool
  ls_status :: string

definition status :: "'w node_services \<Rightarrow> string \<Rightarrow> 'w gang \<Rightarrow> live_status option \<times> 'w gang" where
  "status D i s =
     (case get_deployment i s of
        None \<Rightarrow> (None, s)
      | Some r \<Rightarrow>
          (case gather_rank_statuses D (rank_entries r) (g_world s) of (ranks, w1) \<Rightarrow>
             (let c = snd (hd ranks);
                  url = py_or (d_readiness_url r)
                    (''http://127.0.0.1:'' @ (case d_port r of None \<Rightarrow> ''None'' | Some p \<Rightarrow> str_of_nat p) @ ''/v1/models'')
              in case (if cst_running c then probe_ready D url (d_served_model r) w1 else (False, w1)) of
                   (ready, w2) \<Rightarrow>
                     (Some \<lparr>ls_record = r, ls_container = c, ls_ranks = ranks, ls_ready = ready,
                            ls_status = derive_status r c ready\<rparr>, s\<lparr>g_world := w2\<rparr>))))"

definition logs_for_container :: "'w node_services \<Rightarrow> string \<Rightarrow> string \<Rightarrow> nat \<Rightarrow> 'w \<Rightarrow> string \<times> 'w" where
  "logs_for_container D a n k w =
     (case ks_logs D a n k w of
        (Inl e, w1) \<Rightarrow> (''Failed to read container logs: '' @ exc_text e, w1)
      | (Inr t, w1) \<Rightarrow> (t, w1))"

definition get_logs :: "'w node_services \<Rightarrow> string \<Rightarrow> nat \<Rightarrow> nat \<Rightarrow> 'w gang \<Rightarrow> string \<times> 'w gang" where
  "get_logs D i lines rank s =
     (case get_deployment i s of
        None \<Rightarrow> (''Deployment not found'', s)
      | Some r \<Rightarrow>
          if d_status r \<in> {''pulling'', ''pending''}
          then (''No container yet: '' @ py_or (d_image_ref r) ''the image''
                  @ '' is still being pulled. Logs start when the container does.'', s)
          else (case find (\<lambda>e. re_rank e = rank) (rank_entries r) of
                  None \<Rightarrow> (''Deployment has no rank '' @ str_of_nat rank, s)
                | Some e \<Rightarrow>
                    (let n = py_or (re_container e) (container_name_for i);
                         kept = dict_lookup (d_final_logs r) rank []
                     in case ks_resolve D (re_node e) (g_world s) of
                          Inl x \<Rightarrow> ((if kept \<noteq> [] then kept
                                    else ''Failed to reach '' @ where_text (re_node e) @ '': '' @ exc_text x), s)
                        | Inr _ \<Rightarrow>
                            (case logs_for_container D (re_node e) n lines (g_world s) of (live, w1) \<Rightarrow>
                               (if kept \<noteq> [] \<and> (live = [] \<or> starts_with (not_found_text n) live) then kept
                                else py_or live ''(empty log)'', s\<lparr>g_world := w1\<rparr>)))))"

section \<open>The reconciling list\<close>

definition rank_is_here :: "'w node_services \<Rightarrow> rank_entry \<Rightarrow> bool" where
  "rank_is_here D e \<longleftrightarrow> re_node e = [] \<or> ks_local D (re_node e)"

text \<open>\<open>by_name\<close>: a dictionary, so the last container of a name.\<close>

definition by_name :: "cinfo list \<Rightarrow> string \<Rightarrow> cinfo option" where
  "by_name cs n = find (\<lambda>c. ci_name c = n) (rev cs)"

definition rank_lost :: "'w node_services \<Rightarrow> cinfo list \<Rightarrow> rank_entry \<Rightarrow> bool" where
  "rank_lost D cs e \<longleftrightarrow> rank_is_here D e \<and>
     (case by_name cs (re_container e) of None \<Rightarrow> True | Some c \<Rightarrow> ci_status c \<notin> {''running'', ''created''})"

text \<open>
  A record that should have containers and lacks one here is marked stopped. The time goes in
  by \<open>setdefault\<close>: only where the key is absent.
\<close>

definition judge_record :: "'w node_services \<Rightarrow> string \<Rightarrow> cinfo list \<Rightarrow> dep \<Rightarrow> dep" where
  "judge_record D now cs r =
     (if d_status r \<in> {''stopped'', ''error'', ''pulling''} then r
      else if d_status r = ''starting'' \<and> (d_started_at r = None \<or> d_started_at r = Some []) then r
      else if list_ex (rank_lost D cs) (rank_entries r)
           then r\<lparr>d_status := ''stopped'',
                  d_stopped_at := (case d_stopped_at r of None \<Rightarrow> Some (Some now) | Some x \<Rightarrow> Some x)\<rparr>
           else r)"

definition or_str :: "string option \<Rightarrow> string \<Rightarrow> string" where
  "or_str x d = (case x of None \<Rightarrow> d | Some v \<Rightarrow> py_or v d)"

definition adopt_id :: "cinfo \<Rightarrow> string" where
  "adopt_id c = or_str (dict_get (ci_labels c) (label ''deployment'')) (remove_prefix container_prefix (ci_name c))"

definition adopted_record :: "string \<Rightarrow> cinfo \<Rightarrow> dep" where
  "adopted_record now c =
     (let i = adopt_id c; m = ci_meta c; l = (\<lambda>k. dict_get (ci_labels c) (label k))
      in (blank_dep i)\<lparr>d_recipe_id := md_recipe m, d_name := py_or (md_recipe m) i,
           d_status := (if ci_status c = ''running'' then ''running'' else ''stopped''),
           d_created_at := py_or (md_created_at m) now,
           d_started_at := (if md_created_at m = [] then None else Some (md_created_at m)),
           d_image_ref := py_or (md_image m) (ci_image c), d_container_name := ci_name c,
           d_node_count := nat_of_str (or_str (l ''world_size'') ''1''), d_reconciled := True,
           d_generation := Some (nat_of_str (or_str (l ''generation'') ''0'')),
           d_ranks := [\<lparr>re_rank = nat_of_str (or_str (l ''rank'') ''0''), re_node = [], re_host = [],
                        re_container = ci_name c, re_is_head = (or_str (l ''rank'') ''0'' = ''0'')\<rparr>]\<rparr>)"

definition adopts :: "string list \<Rightarrow> cinfo \<Rightarrow> bool" where
  "adopts known c \<longleftrightarrow> starts_with container_prefix (ci_name c) \<and> adopt_id c \<notin> set known"

definition list_deployments :: "'w node_services \<Rightarrow> 'w gang \<Rightarrow> dep list \<times> 'w gang" where
  "list_deployments D s =
     (let native = filter (\<lambda>r. d_runtime r = ''native'') (g_recs s)
      in case (case ks_resolve D [] (g_world s) of
                 Inl e \<Rightarrow> (Inl e, g_world s)
               | Inr _ \<Rightarrow> ks_list D [] [(label ''deployment'', [])] (g_world s)) of
           (Inl _, w1) \<Rightarrow> (native, s\<lparr>g_world := w1\<rparr>)
         | (Inr cs, w1) \<Rightarrow>
             (let now = ks_now D w1;
                  judge = (\<lambda>r. if d_runtime r = ''native'' then judge_record D now cs r else r);
                  known = map d_id native;
                  adopted = map (adopted_record now) (filter (adopts known) cs);
                  records = map judge (g_recs s) @ adopted;
                  changed = (adopted \<noteq> [] \<or> map judge (g_recs s) \<noteq> g_recs s);
                  s1 = s\<lparr>g_world := w1, g_recs := (if changed then save_recs records else g_recs s)\<rparr>
              in (map judge native @ adopted, snd (sweep_orphans D None s1))))"

section \<open>Nothing but a run makes a container\<close>

context node_service_laws begin

lemma confirm_gone_shrinks: "shrinks ok lab w (snd (confirm_gone D a n k w))"
proof (induction k arbitrary: w)
  case 0
  obtain r w1 where st: "ks_status D a n w = (r, w1)" by (cases "ks_status D a n w")
  have "shrinks ok lab w w1" using status_shrinks[of w a n] st by simp
  then show ?case unfolding confirm_gone.simps[of D a n 0 w] st by (cases r) simp_all
next
  case (Suc k)
  obtain r w1 where st: "ks_status D a n w = (r, w1)" by (cases "ks_status D a n w")
  have 1: "shrinks ok lab w w1" using status_shrinks[of w a n] st by simp
  have 2: "shrinks ok lab w (snd (confirm_gone D a n k (ks_tick D w1)))"
    by (rule shrinks_trans[OF 1 shrinks_trans[OF tick_shrinks Suc]])
  show ?case
    unfolding confirm_gone.simps[of D a n "Suc k" w] st using 1 2 by (cases r) simp_all
qed

lemma confirm_gone_evidence:
  "ok w \<Longrightarrow> confirm_gone D a n k w = (Inr True, w') \<Longrightarrow> lab w' a n = None"
proof (induction k arbitrary: w)
  case 0
  obtain r w1 where st: "ks_status D a n w = (r, w1)" by (cases "ks_status D a n w")
  from 0(2) obtain s where "r = Inr s" "is_confirmed_gone s" "w' = w1"
    unfolding confirm_gone.simps[of D a n 0 w] st by (cases r) (simp_all split: if_splits)
  with st 0(1) status_missing show ?case by (simp add: is_confirmed_gone_def)
next
  case (Suc k)
  obtain r w1 where st: "ks_status D a n w = (r, w1)" by (cases "ks_status D a n w")
  have "(\<exists>s. r = Inr s \<and> is_confirmed_gone s \<and> w' = w1) \<or>
      confirm_gone D a n k (ks_tick D w1) = (Inr True, w')"
    using Suc.prems(2)[unfolded confirm_gone.simps[of D a n "Suc k" w]] st
    by (cases r) (simp_all split: if_splits)
  then show ?case
  proof
    assume "\<exists>s. r = Inr s \<and> is_confirmed_gone s \<and> w' = w1"
    with st Suc.prems(1) status_missing show ?thesis by (auto simp: is_confirmed_gone_def)
  next
    assume 2: "confirm_gone D a n k (ks_tick D w1) = (Inr True, w')"
    have "ok (ks_tick D w1)"
      using Suc.prems(1) status_shrinks[of w a n] tick_shrinks[of w1] st by (simp add: shrinks_def)
    from Suc.IH[OF this 2] show ?thesis .
  qed
qed

lemma final_logs_shrinks: "shrinks ok lab w (snd (final_logs D a n w))"
  using logs_shrinks[of w a n 500] by (auto simp: final_logs_def split: prod.splits sum.splits)

lemma teardown_entry_steps:
  assumes t: "teardown_entry D e w = (o1, txt, w')" and ne: "re_container e \<noteq> []"
  shows "\<exists>w1 r1 w2. final_logs D (re_node e) (re_container e) w = (txt, w1) \<and>
    ks_stop D (re_node e) (re_container e) w1 = (r1, w2) \<and>
    ((\<exists>x. r1 = Inl x) \<and> o1 \<noteq> None \<and> w' = w2 \<or>
      (\<exists>b r2. r1 = Inr b \<and> confirm_gone D (re_node e) (re_container e) (ks_looks D) w2 = (r2, w') \<and>
         (o1 = None \<longleftrightarrow> r2 = Inr True))) \<and>
    (\<forall>x. o1 = Some x \<longrightarrow> or_rank x = re_rank e \<and> or_node x = re_node e \<and> or_container x = re_container e)"
proof -
  obtain lg w1 where fl: "final_logs D (re_node e) (re_container e) w = (lg, w1)" by force
  obtain r1 w2 where stp: "ks_stop D (re_node e) (re_container e) w1 = (r1, w2)" by force
  obtain r2 w3 where cg: "confirm_gone D (re_node e) (re_container e) (ks_looks D) w2 = (r2, w3)" by force
  note eqs = teardown_entry_def fl stp cg Let_def mk_orphan_def
  show ?thesis
  proof (cases r1)
    case (Inl x)
    with t ne show ?thesis by (simp add: eqs) (use fl stp in auto)
  next
    case (Inr b)
    note r1 = Inr
    show ?thesis
    proof (cases r2)
      case (Inl x)
      with t ne r1 show ?thesis by (simp add: eqs) (use fl stp cg in auto)
    next
      case (Inr g)
      with t ne r1 show ?thesis by (cases g; simp add: eqs) (use fl stp cg in auto)
    qed
  qed
qed

lemma teardown_entry_shrinks: "shrinks ok lab w (snd (snd (teardown_entry D e w)))"
proof (cases "re_container e = []")
  case True
  then show ?thesis by (simp add: teardown_entry_def)
next
  case False
  obtain o1 lg w' where t: "teardown_entry D e w = (o1, lg, w')" by (cases "teardown_entry D e w") auto
  from teardown_entry_steps[OF t False] obtain w1 r1 w2 r2 where
    "final_logs D (re_node e) (re_container e) w = (lg, w1)"
    and "ks_stop D (re_node e) (re_container e) w1 = (r1, w2)"
    and "w' = w2 \<or> confirm_gone D (re_node e) (re_container e) (ks_looks D) w2 = (r2, w')"
    by metis
  then show ?thesis
    using final_logs_shrinks[of w "re_node e" "re_container e"] stop_shrinks[of w1 "re_node e" "re_container e"]
      confirm_gone_shrinks[of w2 "re_node e" "re_container e" "ks_looks D"] t
    by (auto intro: shrinks_trans)
qed

text \<open>A rank left without an orphan has no container.\<close>

lemma teardown_entry_evidence:
  assumes "ok w" and t: "teardown_entry D e w = (None, txt, w')" and "re_container e \<noteq> []"
  shows "lab w' (re_node e) (re_container e) = None"
proof -
  from teardown_entry_steps[OF t assms(3)] obtain w1 r1 w2 where
    f: "final_logs D (re_node e) (re_container e) w = (txt, w1)"
    and s: "ks_stop D (re_node e) (re_container e) w1 = (r1, w2)"
    and c: "confirm_gone D (re_node e) (re_container e) (ks_looks D) w2 = (Inr True, w')"
    by metis
  have "ok w2"
    using assms(1) final_logs_shrinks[of w "re_node e" "re_container e"]
      stop_shrinks[of w1 "re_node e" "re_container e"] f s by (simp add: shrinks_def)
  from confirm_gone_evidence[OF this c] show ?thesis .
qed

lemma teardown_loop_shrinks: "shrinks ok lab w (snd (snd (teardown_loop D es w)))"
proof (induction es arbitrary: w)
  case (Cons e es)
  obtain o1 lg w1 where t: "teardown_entry D e w = (o1, lg, w1)" by (cases "teardown_entry D e w") auto
  have 1: "shrinks ok lab w w1" using teardown_entry_shrinks[of w e] t by simp
  show ?case
  proof (cases "ks_resolve D (re_node e) w")
    case (Inl x)
    with Cons[of w] show ?thesis by (cases "teardown_loop D es w") simp
  next
    case (Inr u)
    with shrinks_trans[OF 1 Cons[of w1]] t show ?thesis by (cases "teardown_loop D es w1") simp
  qed
qed simp

end

text \<open>An orphan of the list stands for the rank.\<close>

definition outstanding :: "rank_entry \<Rightarrow> orphan list \<Rightarrow> bool" where
  "outstanding e os \<longleftrightarrow> (\<exists>x \<in> set os. or_rank x = re_rank e \<and> or_node x = re_node e \<and>
     or_container x = re_container e)"

lemma outstanding_Cons: "outstanding e os \<Longrightarrow> outstanding e (x # os)"
  by (auto simp: outstanding_def)

text \<open>
  The evidence rule: a rank is released (no container name, or no container) or outstanding.
\<close>

definition accounted :: "('w \<Rightarrow> string \<Rightarrow> string \<Rightarrow> labels option) \<Rightarrow> 'w \<Rightarrow> orphan list \<Rightarrow> rank_entry \<Rightarrow> bool" where
  "accounted lab w os e \<longleftrightarrow>
     re_container e = [] \<or> lab w (re_node e) (re_container e) = None \<or> outstanding e os"

context node_service_laws begin

lemma teardown_entry_accounted:
  assumes "ok w" and t: "teardown_entry D e w = (o1, lg, w')"
  shows "accounted lab w' (case o1 of None \<Rightarrow> [] | Some x \<Rightarrow> [x]) e"
proof (cases "re_container e = []")
  case False
  show ?thesis
  proof (cases o1)
    case None
    then show ?thesis using teardown_entry_evidence[OF assms(1) _ False] t by (simp add: accounted_def)
  next
    case (Some x)
    with teardown_entry_steps[OF t False] have "or_rank x = re_rank e \<and> or_node x = re_node e \<and> or_container x = re_container e"
      by blast
    with Some show ?thesis by (simp add: accounted_def outstanding_def)
  qed
qed (simp add: accounted_def)

lemma accounted_mono:
  "ok w \<Longrightarrow> accounted lab w os e \<Longrightarrow> shrinks ok lab w w' \<Longrightarrow> set os \<subseteq> set os' \<Longrightarrow> accounted lab w' os' e"
  using shrinks_None[of ok lab w w' "re_node e" "re_container e"]
  by (auto simp: accounted_def outstanding_def)

lemma teardown_loop_accounted:
  assumes "ok w" and "teardown_loop D es w = (os, logs, w')" and "e \<in> set es"
  shows "accounted lab w' os e"
  using assms
proof (induction es arbitrary: w os logs)
  case (Cons e0 es)
  note ok = Cons.prems(1) and run = Cons.prems(2) and mem = Cons.prems(3)
  show ?case
  proof (cases "ks_resolve D (re_node e0) w")
    case (Inl x)
    obtain os1 logs1 w1 where rest1: "teardown_loop D es w = (os1, logs1, w1)"
      by (cases "teardown_loop D es w") auto
    with run Inl have rest: "teardown_loop D es w = (os1, logs1, w')"
      and os: "os = mk_orphan (ks_now D w) e0 (''the node could not be reached: '' @ exc_text x) # os1"
      by simp_all
    show ?thesis
    proof (cases "e \<in> set es")
      case True
      with Cons.IH[OF ok rest] show ?thesis by (auto simp: os accounted_def outstanding_def)
    next
      case False
      with mem show ?thesis by (simp add: os accounted_def outstanding_def mk_orphan_def)
    qed
  next
    case (Inr u)
    obtain o1 lg w1 where t: "teardown_entry D e0 w = (o1, lg, w1)" by (cases "teardown_entry D e0 w") auto
    obtain os1 logs1 w2 where rest1: "teardown_loop D es w1 = (os1, logs1, w2)"
      by (cases "teardown_loop D es w1") auto
    with Inr run t have rest: "teardown_loop D es w1 = (os1, logs1, w')"
      and os: "os = (case o1 of None \<Rightarrow> os1 | Some x \<Rightarrow> x # os1)"
      by simp_all
    have sub: "set os1 \<subseteq> set os" "set (case o1 of None \<Rightarrow> [] | Some x \<Rightarrow> [x]) \<subseteq> set os"
      by (auto simp: os split: option.splits)
    have w1: "shrinks ok lab w w1" using teardown_entry_shrinks[of w e0] t by simp
    have ok1: "ok w1" using shrinks_ok[OF w1 ok] .
    show ?thesis
    proof (cases "e \<in> set es")
      case True
      from Cons.IH[OF ok1 rest True] sub(1) show ?thesis
        by (auto simp: accounted_def outstanding_def)
    next
      case False
      with mem have e: "e = e0" by simp
      have "shrinks ok lab w1 w'" using teardown_loop_shrinks[of w1 es] rest by simp
      from accounted_mono[OF ok1 teardown_entry_accounted[OF ok t] this sub(2)] show ?thesis by (simp add: e)
    qed
  qed
qed simp

lemma teardown_entries_shrinks: "shrinks ok lab w (snd (snd (teardown_entries D es w)))"
  using teardown_loop_shrinks[of w "sort_key re_rank es"] by (auto simp: teardown_entries_def split: prod.splits)

text \<open>Every rank of a teardown is gone or outstanding when it ends.\<close>

lemma teardown_entries_accounted:
  "ok w \<Longrightarrow> teardown_entries D es w = (os, logs, w') \<Longrightarrow> e \<in> set es \<Longrightarrow> accounted lab w' os e"
  using teardown_loop_accounted[of w "sort_key re_rank es"] by (auto simp: teardown_entries_def split: prod.splits)

subsection \<open>Stop and delete\<close>

lemma stop_locked_result:
  assumes "recs_ok (g_recs s)" and g: "get_deployment i s = Some r"
    and t: "teardown_entries D (rank_entries r) (g_world s) = (os, logs, w)"
  shows "\<exists>s'. stop_locked D i s = (Some (r\<lparr>d_status := ''stopped'', d_stopped_at := Some (Some (ks_now D w)),
        d_orphans := os, d_final_logs := logs\<rparr>), s') \<and>
     g_world s' = w \<and> g_pulls s' = g_pulls s \<and> recs_ok (g_recs s') \<and>
     (\<forall>j. get_deployment j s' = (if j = i then
        Some (redact_record (r\<lparr>d_status := ''stopped'', d_stopped_at := Some (Some (ks_now D w)),
        d_orphans := os, d_final_logs := logs\<rparr>)) else get_deployment j s))"
proof -
  let ?f = "\<lambda>r. r\<lparr>d_status := ''stopped'', d_stopped_at := Some (Some (ks_now D w)),
        d_orphans := os, d_final_logs := logs\<rparr>"
  let ?s = "publish ''deployment_stopped'' i (''stopped '' @ join '', '' (map re_container (rank_entries r))) (s\<lparr>g_world := w\<rparr>)"
  have get: "get_deployment j ?s = get_deployment j s" for j
    by (simp add: get_deployment_def)
  have "stop_locked D i s = update_record i ?f ?s"
    by (simp add: stop_locked_def g t)
  then show ?thesis
    using update_record_fst[of ?f i ?s] get_update_record[of ?s ?f _ i] update_record_ok[of ?s i ?f]
      assms(1) g get
    by (intro exI[of _ "snd (update_record i ?f ?s)"]) (auto simp: prod_eq_iff)
qed

lemma cancel_pull_get [simp]: "get_deployment j (snd (cancel_pull i s)) = get_deployment j s"
  by (simp add: get_deployment_def)

text \<open>The record a stop leaves behind.\<close>

lemma stop_deployment_result:
  assumes "recs_ok (g_recs s)" and ok: "ok (g_world s)" and g: "get_deployment i s = Some r"
  shows "\<exists>x os s'. stop_deployment D i s = (Some x, s') \<and>
     d_id x = i \<and> d_status x = ''stopped'' \<and> d_orphans x = os \<and> d_ranks x = d_ranks r \<and>
     recs_ok (g_recs s') \<and> ok (g_world s') \<and> shrinks ok lab (g_world s) (g_world s') \<and>
     (\<forall>e \<in> set (rank_entries r). accounted lab (g_world s') os e) \<and>
     get_deployment i s' = Some (redact_record x) \<and> (\<forall>j. j \<noteq> i \<longrightarrow> get_deployment j s' = get_deployment j s)"
proof -
  let ?s = "snd (cancel_pull i s)"
  obtain os logs w where t: "teardown_entries D (rank_entries r) (g_world s) = (os, logs, w)"
    by (cases "teardown_entries D (rank_entries r) (g_world s)") auto
  have sh: "shrinks ok lab (g_world s) w"
    using teardown_entries_shrinks[of "g_world s" "rank_entries r"] t by simp
  from stop_locked_result[of ?s i r os logs w] assms(1) g t obtain s' where
    "stop_locked D i ?s = (Some (r\<lparr>d_status := ''stopped'', d_stopped_at := Some (Some (ks_now D w)),
        d_orphans := os, d_final_logs := logs\<rparr>), s')"
    "g_world s' = w" "recs_ok (g_recs s')"
    "\<forall>j. get_deployment j s' = (if j = i then
        Some (redact_record (r\<lparr>d_status := ''stopped'', d_stopped_at := Some (Some (ks_now D w)),
        d_orphans := os, d_final_logs := logs\<rparr>)) else get_deployment j s)" by auto
  moreover have "d_id r = i" using g by (auto simp: get_deployment_def dest: find_SomeD')
  ultimately show ?thesis
    using g teardown_entries_accounted[OF ok t] sh shrinks_ok[OF sh ok]
    by (auto simp: stop_deployment_def)
qed

lemma drop_record_result:
  assumes "recs_ok (g_recs s)"
  shows "drop_record i s = (get_deployment i s \<noteq> None, snd (drop_record i s)) \<and>
    recs_ok (g_recs (snd (drop_record i s))) \<and> g_world (snd (drop_record i s)) = g_world s \<and>
    (\<forall>j. get_deployment j (snd (drop_record i s)) = (if j = i then None else get_deployment j s))"
proof (cases "get_deployment i s")
  case None
  then have "filter (\<lambda>r. d_id r \<noteq> i) (g_recs s) = g_recs s"
    by (auto simp: get_deployment_def find_None_iff' filter_id_conv)
  with None assms show ?thesis by (auto simp: drop_record_def)
next
  case (Some r)
  then have "length (filter (\<lambda>r. d_id r \<noteq> i) (g_recs s)) < length (g_recs s)"
    by (auto simp: get_deployment_def dest!: find_SomeD' intro: length_filter_less)
  then have d: "drop_record i s = (True, s\<lparr>g_recs := save_recs (filter (\<lambda>r. d_id r \<noteq> i) (g_recs s))\<rparr>)"
    by (simp add: drop_record_def Let_def)
  have f: "find (\<lambda>r. d_id r = j) (filter (\<lambda>r. d_id r \<noteq> i) rs) = (if j = i then None else find (\<lambda>r. d_id r = j) rs)"
    for j and rs :: "dep list" by (induction rs) auto
  have dist: "distinct (map d_id (filter (\<lambda>r. d_id r \<noteq> i) (g_recs s)))"
    using assms by (auto simp: recs_ok_def distinct_map inj_on_def)
  show ?thesis
    using Some recs_ok_find[OF assms] recs_ok_find_Nil[OF assms]
    by (auto simp: d recs_ok_save get_deployment_def find_save_recs find_rev_distinct[OF dist] f)
qed

lemma delete_deployment_result:
  assumes rs: "recs_ok (g_recs s)" and ok: "ok (g_world s)" and g: "get_deployment i s = Some r"
    and del: "delete_deployment D i s = (b, s')"
  shows "recs_ok (g_recs s') \<and> ok (g_world s') \<and> shrinks ok lab (g_world s) (g_world s') \<and>
    (\<forall>j. j \<noteq> i \<longrightarrow> get_deployment j s' = get_deployment j s) \<and>
    (if b then get_deployment i s' = None \<and>
         (\<forall>e \<in> set (rank_entries r). re_container e = [] \<or> lab (g_world s') (re_node e) (re_container e) = None)
     else \<exists>x. get_deployment i s' = Some x \<and> d_status x = ''stopped'' \<and> d_orphans x \<noteq> [] \<and>
         (\<forall>e \<in> set (rank_entries r). accounted lab (g_world s') (d_orphans x) e))"
proof -
  let ?s = "snd (cancel_pull i s)"
  have pre: "recs_ok (g_recs ?s)" "ok (g_world ?s)" "get_deployment i ?s = Some r"
    using rs ok g by simp_all
  from stop_deployment_result[OF pre] obtain x os s1 where st:
    "stop_deployment D i ?s = (Some x, s1)" "d_status x = ''stopped''" "d_orphans x = os"
    "recs_ok (g_recs s1)" "ok (g_world s1)" "shrinks ok lab (g_world ?s) (g_world s1)"
    "\<forall>e \<in> set (rank_entries r). accounted lab (g_world s1) os e"
    "get_deployment i s1 = Some (redact_record x)"
    "\<forall>j. j \<noteq> i \<longrightarrow> get_deployment j s1 = get_deployment j ?s" by metis
  have del': "(if os \<noteq> [] then (False, s1) else drop_record i s1) = (b, s')"
    using del st(1,3) g pre(3) by (simp add: delete_deployment_def delete_locked_def)
  show ?thesis
  proof (cases "os = []")
    case True
    with del' have "drop_record i s1 = (b, s')" by simp
    with drop_record_result[OF st(4), of i] st(8) have "b" "recs_ok (g_recs s')" "g_world s' = g_world s1"
      "\<forall>j. get_deployment j s' = (if j = i then None else get_deployment j s1)" by auto
    then show ?thesis
      using st(5,6,7,9) True by (auto simp: accounted_def outstanding_def)
  next
    case False
    with del' have "b = False" "s' = s1" by auto
    with False st show ?thesis by auto
  qed
qed

subsection \<open>The sweep\<close>

lemma sweep_one_result:
  assumes "ok w" and "sweep_one D x w = (gone, w')"
  shows "shrinks ok lab w w' \<and> (gone \<longrightarrow> lab w' (or_node x) (or_container x) = None)"
proof (cases "ks_resolve D (or_node x) w")
  case (Inl e)
  with assms(2) show ?thesis by (simp add: sweep_one_def)
next
  case (Inr u)
  obtain r1 w1 where s1: "ks_status D (or_node x) (or_container x) w = (r1, w1)" by force
  obtain r2 w2 where s2: "ks_stop D (or_node x) (or_container x) w1 = (r2, w2)" by force
  obtain r3 w3 where s3: "ks_status D (or_node x) (or_container x) w2 = (r3, w3)" by force
  have sh1: "shrinks ok lab w w1" using status_shrinks[of w "or_node x" "or_container x"] s1 by simp
  have sh2: "shrinks ok lab w1 w2" using stop_shrinks[of w1 "or_node x" "or_container x"] s2 by simp
  have sh3: "shrinks ok lab w2 w3" using status_shrinks[of w2 "or_node x" "or_container x"] s3 by simp
  have ok1: "ok w1" by (rule shrinks_ok[OF sh1 assms(1)])
  have ok2: "ok w2" by (rule shrinks_ok[OF sh2 ok1])
  note sw = assms(2)[unfolded sweep_one_def Inr]
  show ?thesis
  proof (cases r1)
    case (Inl e)
    with sw s1 sh1 show ?thesis by simp
  next
    case (Inr st)
    consider "is_confirmed_gone st" | "\<not> is_confirmed_gone st" "cst_status st = ''unknown''"
      | "\<not> is_confirmed_gone st" "cst_status st \<noteq> ''unknown''" by blast
    then show ?thesis
    proof cases
      case 1
      with sw s1 Inr sh1 status_missing[OF assms(1)] show ?thesis by (simp add: is_confirmed_gone_def)
    next
      case 2
      with sw s1 Inr sh1 show ?thesis by simp
    next
      case 3
      have tr: "shrinks ok lab w w2" "shrinks ok lab w w3"
        by (rule shrinks_trans[OF sh1 sh2], rule shrinks_trans[OF shrinks_trans[OF sh1 sh2] sh3])
      show ?thesis
      proof (cases r2)
        case (Inl e)
        with 3 sw s1 s2 \<open>r1 = Inr st\<close> tr(1) show ?thesis by simp
      next
        case (Inr b)
        with 3 sw s1 s2 s3 \<open>r1 = Inr st\<close> tr(2) status_missing[OF ok2, of "or_node x" "or_container x" _ w3]
        show ?thesis by (cases r3) (auto simp: is_confirmed_gone_def)
      qed
    qed
  qed
qed

lemma sweep_list_result:
  assumes "ok w" and "sweep_list D xs w = (left, w')"
  shows "shrinks ok lab w w' \<and> set left \<subseteq> set xs \<and>
    (\<forall>x \<in> set xs. x \<in> set left \<or> lab w' (or_node x) (or_container x) = None)"
  using assms
proof (induction xs arbitrary: w left)
  case (Cons x xs)
  obtain gone w1 where s1: "sweep_one D x w = (gone, w1)" by force
  obtain rest w2 where s2: "sweep_list D xs w1 = (rest, w2)" by force
  have r: "left = (if gone then rest else x # rest)" and w2: "w' = w2"
    using Cons.prems(2) s1 s2 by simp_all
  from sweep_one_result[OF Cons.prems(1) s1] have sh: "shrinks ok lab w w1"
    and ev: "gone \<longrightarrow> lab w1 (or_node x) (or_container x) = None" by auto
  have ok1: "ok w1" using shrinks_ok[OF sh Cons.prems(1)] .
  from Cons.IH[OF ok1 s2[folded w2], unfolded w2] have ih: "shrinks ok lab w1 w2" "set rest \<subseteq> set xs"
    "\<forall>x \<in> set xs. x \<in> set rest \<or> lab w2 (or_node x) (or_container x) = None" by auto
  have "gone \<longrightarrow> lab w2 (or_node x) (or_container x) = None"
    using ev shrinks_None[OF ih(1) ok1] by blast
  then show ?case
    using r w2 shrinks_trans[OF sh ih(1)] ih(2,3) by auto
qed simp

lemma sweep_list_subseq: "subseq (fst (sweep_list D xs w)) xs"
proof (induction xs arbitrary: w)
  case (Cons x xs)
  obtain gone w1 where 1: "sweep_one D x w = (gone, w1)" by force
  obtain rest w2 where 2: "sweep_list D xs w1 = (rest, w2)" by force
  from Cons[of w1] 2 have "subseq rest xs" by simp
  then have "subseq rest (x # xs)" by (rule list_emb_Cons)
  with \<open>subseq rest xs\<close> 1 2 show ?case by simp
qed simp

text \<open>What a sweep does to one record: it may only lose orphans whose containers are gone.\<close>

definition swept :: "'w \<Rightarrow> dep \<Rightarrow> dep \<Rightarrow> bool" where
  "swept w r r' \<longleftrightarrow> r' = r\<lparr>d_orphans := d_orphans r'\<rparr> \<and> subseq (d_orphans r') (d_orphans r) \<and>
     (\<forall>x \<in> set (d_orphans r). x \<in> set (d_orphans r') \<or> lab w (or_node x) (or_container x) = None)"

lemma swept_refl: "swept w r r"
  by (simp add: swept_def)

lemma swept_mono: "ok w \<Longrightarrow> shrinks ok lab w w' \<Longrightarrow> swept w r r' \<Longrightarrow> swept w' r r'"
  unfolding swept_def using shrinks_None[of ok lab w w'] by auto

lemma sweep_records_result:
  assumes "ok w" and "sweep_records D only rs w = (rs', n, w')"
  shows "shrinks ok lab w w' \<and> list_all2 (swept w') rs rs' \<and> (n = 0 \<longrightarrow> rs' = rs)"
  using assms
proof (induction rs arbitrary: w rs' n)
  case (Cons r rs)
  show ?case
  proof (cases "(only \<noteq> None \<and> only \<noteq> Some [] \<and> only \<noteq> Some (d_id r)) \<or> d_orphans r = []")
    case True
    obtain rs1 n1 w1 where rest: "sweep_records D only rs w = (rs1, n1, w1)"
      by (cases "sweep_records D only rs w") auto
    have r: "rs' = r # rs1" "n = n1" and w1: "w1 = w'"
      using Cons.prems(2) True rest by auto
    from Cons.IH[OF Cons.prems(1) rest[unfolded w1]] show ?thesis
      by (simp add: r swept_refl)
  next
    case False
    obtain left w1 where l: "sweep_list D (d_orphans r) w = (left, w1)" by force
    obtain rs1 n1 w2 where rest: "sweep_records D only rs w1 = (rs1, n1, w2)"
      by (cases "sweep_records D only rs w1") auto
    have r: "rs' = r\<lparr>d_orphans := left\<rparr> # rs1" "n = n1 + (length (d_orphans r) - length left)" and w2: "w2 = w'"
      using Cons.prems(2) False l rest by auto
    from sweep_list_result[OF Cons.prems(1) l] have sh: "shrinks ok lab w w1"
      and ev: "\<forall>x \<in> set (d_orphans r). x \<in> set left \<or> lab w1 (or_node x) (or_container x) = None" by auto
    have sub: "subseq left (d_orphans r)"
      using sweep_list_subseq[of "d_orphans r" w] l by simp
    have ok1: "ok w1" using shrinks_ok[OF sh Cons.prems(1)] .
    from Cons.IH[OF ok1 rest[unfolded w2]] have ih: "shrinks ok lab w1 w'" "list_all2 (swept w') rs rs1"
      "n1 = 0 \<longrightarrow> rs1 = rs" by auto
    have "swept w1 r (r\<lparr>d_orphans := left\<rparr>)"
      using sub ev by (simp add: swept_def)
    from swept_mono[OF ok1 ih(1) this] have "swept w' r (r\<lparr>d_orphans := left\<rparr>)" .
    moreover have "length (d_orphans r) - length left = 0 \<longrightarrow> left = d_orphans r"
      using sub list_emb_length[OF sub] subseq_same_length by fastforce
    ultimately show ?thesis
      using r ih shrinks_trans[OF sh ih(1)] by auto
  qed
qed simp

lemma swept_id: "swept w r r' \<Longrightarrow> d_id r' = d_id r"
  unfolding swept_def by (metis dep.select_convs(1) dep.surjective dep.update_convs(25))

lemma find_swept:
  "list_all2 (swept w) rs rs' \<Longrightarrow> rel_option (swept w) (find (\<lambda>r. d_id r = i) rs) (find (\<lambda>r. d_id r = i) rs')"
  by (induction rs rs' rule: list_all2_induct) (auto simp: swept_id)

lemma sweep_orphans_result:
  assumes rs: "recs_ok (g_recs s)" and "ok (g_world s)" and sw: "sweep_orphans D only s = (n, s')"
  shows "recs_ok (g_recs s') \<and> ok (g_world s') \<and> shrinks ok lab (g_world s) (g_world s') \<and>
    (\<forall>i. rel_option (swept (g_world s')) (get_deployment i s) (get_deployment i s'))"
proof -
  obtain recs m w where r: "sweep_records D only (g_recs s) (g_world s) = (recs, m, w)"
    by (cases "sweep_records D only (g_recs s) (g_world s)") auto
  from sweep_records_result[OF assms(2) r] have sh: "shrinks ok lab (g_world s) w"
    and all: "list_all2 (swept w) (g_recs s) recs" and zero: "m = 0 \<longrightarrow> recs = g_recs s" by auto
  have s': "s' = s\<lparr>g_world := w, g_recs := (if m \<noteq> 0 then save_recs recs else g_recs s)\<rparr>"
    using sw r unfolding sweep_orphans_def by auto
  have ids: "map d_id recs = map d_id (g_recs s)"
    using all by (induction rule: list_all2_induct) (auto simp: swept_id)
  then have dist: "distinct (map d_id recs)" using rs by (simp add: recs_ok_def)
  have red: "redact_record r' = r'" if "swept w r r'" "redact_record r = r" for r r'
  proof -
    have "d_launch_command r' = d_launch_command r"
      using that(1) unfolding swept_def by (metis dep.select_convs(14) dep.surjective dep.update_convs(25))
    moreover have "redact (d_launch_command r) = d_launch_command r"
      using that(2) unfolding redact_record_def by (metis dep.select_convs(14) dep.surjective dep.update_convs(14))
    ultimately show ?thesis by (simp add: redact_record_def)
  qed
  have "rel_option (swept w) (get_deployment i s) (get_deployment i s')" for i
  proof -
    have rel: "rel_option (swept w) (find (\<lambda>r. d_id r = i) (g_recs s)) (find (\<lambda>r. d_id r = i) recs)"
      by (rule find_swept[OF all])
    have "find (\<lambda>r. d_id r = i) (save_recs recs) = find (\<lambda>r. d_id r = i) recs"
    proof (cases "find (\<lambda>r. d_id r = i) recs")
      case None
      then show ?thesis by (simp add: find_save_recs find_rev_distinct[OF dist])
    next
      case (Some r')
      with rel obtain r where r: "find (\<lambda>r. d_id r = i) (g_recs s) = Some r" "swept w r r'"
        by (cases "find (\<lambda>r. d_id r = i) (g_recs s)") auto
      then have "redact_record r = r" and "i \<noteq> []"
        using rs by (auto simp: recs_ok_def dest!: find_SomeD')
      with red[OF r(2)] Some show ?thesis by (simp add: find_save_recs find_rev_distinct[OF dist])
    qed
    with rel zero show ?thesis by (auto simp: s' get_deployment_def)
  qed
  then show ?thesis
    using sh shrinks_ok[OF sh assms(2)] rs by (auto simp: s' recs_ok_save)
qed

end

end
