(* ===== verification/Gang_Start.thy ===== *)
theory Gang_Start
  imports Gang_Teardown
begin

text \<open>
  Starting a gang, \<open>native_runtime.start\<close> and what it calls: bind-mount sources, creating a
  rank's idle container and applying the mods, launching its script, waiting for the RPC workers
  and for readiness, pulling the image with retries, and the whole start as the phases the code
  has: plan and reap, pull, the section under the lifecycle lock, readiness. An exception that
  is not the runtime's own leaves \<open>start\<close> the way it leaves the code: it is a value of the model
  (\<open>Escaped\<close>), not a failure path.
\<close>

section \<open>Creating a rank\<close>

abbreviation container_home :: string where "container_home \<equiv> ''/home/spark''"
abbreviation script_path :: string where "script_path \<equiv> ''/workspace/exec-script.sh''"
abbreviation mods_dir :: string where "mods_dir \<equiv> ''/workspace/mods''"

text \<open>Every host directory that must exist before the run: the bind sources and, under the home
  bind, the host side of every destination nested in it.\<close>

definition bind_sources_to_create :: "(string \<times> string) list \<Rightarrow> string list" where
  "bind_sources_to_create mounts =
     (let home = foldl (\<lambda>h (host, target). if target = container_home then host else h) [] mounts;
          nested = (if home \<noteq> [] then
             map (\<lambda>t. home @ drop (length container_home) t)
               (filter (starts_with (container_home @ ''/'')) (map snd mounts)) else [])
      in sort (remdups (map fst mounts @ nested)))"

definition quoted :: "string \<Rightarrow> string" where
  "quoted s = squote # s @ [squote]"

definition resolve_mod_dir :: "'w node_services \<Rightarrow> string \<Rightarrow> exc + (string \<times> string list)" where
  "resolve_mod_dir D md =
     (let name = remove_prefix ''mods/'' md;
          cands = name # (if starts_with ''custom-'' name then [remove_prefix ''custom-'' name] else [])
      in case find (\<lambda>c. ks_mod D c \<noteq> None) cands of
           Some c \<Rightarrow> Inr (c, the (ks_mod D c))
         | None \<Rightarrow> Inl (NativeError (''mod '' @ quoted md @ '' has no run.sh; looked in '' @ join '', '' cands)))"

fun copy_mod :: "'w node_services \<Rightarrow> string \<Rightarrow> string \<Rightarrow> string \<Rightarrow> string list \<Rightarrow> 'w \<Rightarrow> (exc + unit) \<times> 'w" where
  "copy_mod D a n remote [] w = (Inr (), w)"
| "copy_mod D a n remote (f # fs) w =
     (case ks_copy D a n f (remote @ ''/'' @ f) w of
        (Inl e, w1) \<Rightarrow> (Inl e, w1)
      | (Inr _, w1) \<Rightarrow> copy_mod D a n remote fs w1)"

definition apply_mod :: "'w node_services \<Rightarrow> deploy_plan \<Rightarrow> string \<Rightarrow> string \<Rightarrow> string \<Rightarrow> 'w \<Rightarrow> (exc + unit) \<times> 'w" where
  "apply_mod D p a n md w =
     (case resolve_mod_dir D md of
        Inl e \<Rightarrow> (Inl e, w)
      | Inr (name, files) \<Rightarrow>
          (let remote = mods_dir @ ''/'' @ name
           in case ks_exec D a n [''mkdir'', ''-p'', remote] False (Some ''root'') w of
                (Inl e, w1) \<Rightarrow> (Inl e, w1)
              | (Inr _, w1) \<Rightarrow>
                  (case copy_mod D a n remote files w1 of
                     (Inl e, w2) \<Rightarrow> (Inl e, w2)
                   | (Inr _, w2) \<Rightarrow>
                       (case ks_exec D a n [''bash'', ''-lc'', ''cd '' @ remote @ '' && WORKSPACE_DIR=''
                                @ py_or (p_workdir p) ''/workspace'' @ '' bash run.sh''] False (Some ''root'') w2 of
                          (Inl e, w3) \<Rightarrow> (Inl e, w3)
                        | (Inr r, w3) \<Rightarrow>
                            if ex_code r \<noteq> 0
                            then (Inl (NativeError (''mod '' @ quoted md @ '' failed (exit '' @ str_of_int (ex_code r) @ ''): ''
                                    @ take 500 (strip (py_or (ex_err r) (ex_out r))))), w3)
                            else (Inr (), w3)))))"

fun apply_mods :: "'w node_services \<Rightarrow> deploy_plan \<Rightarrow> string \<Rightarrow> string \<Rightarrow> string list \<Rightarrow> 'w \<Rightarrow> (exc + nat) \<times> 'w" where
  "apply_mods D p a n [] w = (Inr 0, w)"
| "apply_mods D p a n (m # ms) w =
     (case apply_mod D p a n m w of
        (Inl e, w1) \<Rightarrow> (Inl e, w1)
      | (Inr _, w1) \<Rightarrow> (case apply_mods D p a n ms w1 of
                          (Inl e, w2) \<Rightarrow> (Inl e, w2) | (Inr k, w2) \<Rightarrow> (Inr (Suc k), w2)))"

text \<open>\<open>_create_rank\<close>: the warnings it appended are the answer.\<close>

definition make_bind_sources :: "'w node_services \<Rightarrow> rank_plan \<Rightarrow> 'w \<Rightarrow> string list \<times> 'w" where
  "make_bind_sources D rp w =
     (let sp = rp_container rp
      in if cs_mounts sp = [] then ([], w)
         else case ks_mkdirs D (rp_node rp) (bind_sources_to_create (cs_mounts sp)) w of
                (Inl _, w1) \<Rightarrow> ([], w1)
              | (Inr [], w1) \<Rightarrow> ([], w1)
              | (Inr unmade, w1) \<Rightarrow>
                  ([''could not create '' @ join '', '' unmade @ '' on '' @ where_text (rp_node rp)
                    @ ''; docker will create them as root, which breaks later writes to the cache''], w1))"

definition create_rank :: "'w node_services \<Rightarrow> deploy_plan \<Rightarrow> rank_plan \<Rightarrow> 'w gang \<Rightarrow> (exc + string list) \<times> 'w gang" where
  "create_rank D p rp s =
     (let sp = rp_container rp; a = rp_node rp; i = p_id p
      in case make_bind_sources D rp (g_world s) of (warns, w1) \<Rightarrow>
         (case ks_run D a sp w1 of
            (Inl e, w2) \<Rightarrow>
              (Inl (NativeError (''could not start container '' @ cs_name sp @ '': '' @ exc_text e)), s\<lparr>g_world := w2\<rparr>)
          | (Inr _, w2) \<Rightarrow>
              (let s2 = publish ''deployment_container_started'' i
                          (''container '' @ cs_name sp @ '' started from '' @ cs_image sp) (s\<lparr>g_world := w2\<rparr>)
               in case apply_mods D p a (cs_name sp) (p_mods p) (g_world s2) of
                    (Inl e, w3) \<Rightarrow> (Inl e, s2\<lparr>g_world := w3\<rparr>)
                  | (Inr k, w3) \<Rightarrow>
                      (Inr warns,
                       if p_mods p = [] then s2\<lparr>g_world := w3\<rparr>
                       else publish ''deployment_mods_applied'' i
                              (''applied '' @ str_of_nat k @ ''/'' @ str_of_nat (length (p_mods p)) @ '' mod(s)'')
                              (s2\<lparr>g_world := w3\<rparr>)))))"

section \<open>Launching a rank\<close>

definition deploy_script :: "'w node_services \<Rightarrow> rank_plan \<Rightarrow> 'w \<Rightarrow> (exc + unit) \<times> 'w" where
  "deploy_script D rp w =
     (let n = cs_name (rp_container rp); a = rp_node rp
      in case ks_copy D a n (rp_script rp) script_path w of
           (Inl e, w1) \<Rightarrow> (Inl e, w1)
         | (Inr False, w1) \<Rightarrow> (Inl (NativeError (''could not copy the launch script into '' @ n)), w1)
         | (Inr True, w1) \<Rightarrow>
             (case ks_exec D a n [''chmod'', ''0755'', script_path] False (Some ''root'') w1 of
                (Inl e, w2) \<Rightarrow> (Inl e, w2)
              | (Inr _, w2) \<Rightarrow>
                  (case ks_exec D a n [''bash'', ''-lc'', ''bash '' @ shlex_quote script_path
                           @ '' >> /proc/1/fd/1 2>&1''] True None w2 of
                     (Inl e, w3) \<Rightarrow> (Inl e, w3)
                   | (Inr _, w3) \<Rightarrow> (Inr (), w3))))"

definition launch_rank :: "'w node_services \<Rightarrow> rank_plan \<Rightarrow> 'w \<Rightarrow> (exc + unit) \<times> 'w" where
  "launch_rank D rp w =
     (case deploy_script D rp w of
        (Inr _, w1) \<Rightarrow> (Inr (), w1)
      | (Inl (NativeError m), w1) \<Rightarrow> (Inl (NativeError m), w1)
      | (Inl e, w1) \<Rightarrow>
          (Inl (NativeError (''could not launch '' @ cs_name (rp_container rp) @ '' on ''
             @ where_text (rp_node rp) @ '': '' @ exc_text e)), w1))"

text \<open>
  One pass of \<open>_wait_rpc_workers\<close> over the workers still pending: those still to wait for. A worker
  whose container has exited fails the wait; a node that does not answer does not.
\<close>

fun rpc_pass :: "'w node_services \<Rightarrow> nat \<Rightarrow> rank_plan list \<Rightarrow> 'w \<Rightarrow> (exc + rank_plan list) \<times> 'w" where
  "rpc_pass D port [] w = (Inr [], w)"
| "rpc_pass D port (rp # rps) w =
     (case ks_listening D (py_or (rp_node rp) (rp_host rp)) port w of
        (True, w1) \<Rightarrow> rpc_pass D port rps w1
      | (False, w1) \<Rightarrow>
          (case ks_resolve D (rp_node rp) w1 of
             Inl e \<Rightarrow> (Inl e, w1)
           | Inr _ \<Rightarrow>
               (case ks_status D (rp_node rp) (cs_name (rp_container rp)) w1 of
                  (Inr st, w2) \<Rightarrow>
                    if \<not> cst_running st
                    then (case logs_for_container D (rp_node rp) (cs_name (rp_container rp)) 50 w2 of (logs, w3) \<Rightarrow>
                       (Inl (NativeError (''container '' @ cs_name (rp_container rp) @ '' on ''
                          @ where_text (rp_node rp) @ '' exited before it began serving RPC on port ''
                          @ str_of_nat port @ '' ('' @ cst_status st @ ''). Last log lines:'' @ [CHR 0x0A] @ logs)), w3))
                    else (case rpc_pass D port rps w2 of
                            (Inl e, w3) \<Rightarrow> (Inl e, w3) | (Inr ws, w3) \<Rightarrow> (Inr (rp # ws), w3))
                | (Inl _, w2) \<Rightarrow>
                    (case rpc_pass D port rps w2 of
                       (Inl e, w3) \<Rightarrow> (Inl e, w3) | (Inr ws, w3) \<Rightarrow> (Inr (rp # ws), w3)))))"

text \<open>\<open>k\<close> passes may still follow before the deadline.\<close>

fun rpc_loop :: "'w node_services \<Rightarrow> nat \<Rightarrow> nat \<Rightarrow> rank_plan list \<Rightarrow> 'w \<Rightarrow> (exc + unit) \<times> 'w" where
  "rpc_loop D port k pending w =
     (case rpc_pass D port pending w of
        (Inl e, w1) \<Rightarrow> (Inl e, w1)
      | (Inr [], w1) \<Rightarrow> (Inr (), w1)
      | (Inr waiting, w1) \<Rightarrow>
          (case k of
             0 \<Rightarrow> (Inl (NativeError (join '', '' (map (\<lambda>r. py_or (rp_node r) (rp_host r) @ '' (rank ''
                     @ str_of_nat (rp_rank r) @ '')'') (sort_key rp_rank waiting))
                     @ '' did not accept a connection on RPC port '' @ str_of_nat port
                     @ '' within 90s, so rank zero was not started. llama.cpp ''
                     @ ''treats an RPC device it cannot reach as one that is not ''
                     @ ''there: a head launched now would load the whole model onto ''
                     @ ''its own GPU and serve from one machine while this record ''
                     @ ''said several. Check that the worker's container is running ''
                     @ ''and that port '' @ str_of_nat port @ '' is reachable from the control plane'')), w1)
           | Suc k' \<Rightarrow> rpc_loop D port k' waiting (ks_tick D w1)))"

declare rpc_loop.simps [simp del]

definition wait_rpc_workers :: "'w node_services \<Rightarrow> nat \<Rightarrow> deploy_plan \<Rightarrow> 'w \<Rightarrow> (exc + unit) \<times> 'w" where
  "wait_rpc_workers D k p w =
     (case p_rpc_port p of
        None \<Rightarrow> (Inr (), w)
      | Some port \<Rightarrow>
          if port = 0 \<or> p_node_count p \<le> 1 then (Inr (), w)
          else rpc_loop D port k (filter (\<lambda>r. \<not> rp_is_head r) (p_ranks p)) w)"

section \<open>Readiness\<close>

definition ere_special :: "char \<Rightarrow> bool" where
  "ere_special c \<longleftrightarrow> c \<in> set ''.[]()*+?{}|^$'' \<or> c = backslash"

definition ere_literal :: "string \<Rightarrow> string" where
  "ere_literal s = concat (map (\<lambda>c. if ere_special c then [backslash, c] else [c]) s)"

definition self_excluding_pattern :: "string \<Rightarrow> string" where
  "self_excluding_pattern s =
     (case s of
        [] \<Rightarrow> []
      | c # r \<Rightarrow> if (is_word c \<and> c \<noteq> CHR ''_'') \<or> c \<in> set ''/_-''
                then CHR ''['' # c # CHR '']'' # ere_literal r else ere_literal s)"

definition command_wrappers :: "string list" where
  "command_wrappers = [''env'', ''exec'', ''nohup'', ''setsid'', ''stdbuf'', ''time'']"

definition serve_program :: "string \<Rightarrow> string" where
  "serve_program cmd =
     (let toks = (case shlex_split cmd of Some ts \<Rightarrow> ts | None \<Rightarrow> py_split cmd)
      in case find (\<lambda>t. \<not> starts_with ''-'' t \<and> \<not> (CHR ''='' \<in> set t \<and> \<not> starts_with ''/'' t)
                \<and> t \<notin> set command_wrappers) toks of Some t \<Rightarrow> t | None \<Rightarrow> [])"

definition liveness_script :: "string \<Rightarrow> string" where
  "liveness_script cmd =
     (let prog = serve_program cmd;
          pats = self_excluding_pattern script_path
                   # (if prog = [] then [] else [self_excluding_pattern prog])
      in ''command -v pgrep >/dev/null 2>&1 || exit 111'' @ [CHR 0x0A]
         @ concat (map (\<lambda>q. ''pgrep -f '' @ shlex_quote q @ '' >/dev/null 2>&1 && exit 0'' @ [CHR 0x0A]) pats)
         @ ''exit 1'' @ [CHR 0x0A])"

text \<open>\<open>Some True\<close> alive, \<open>Some False\<close> no such process, \<open>None\<close> the probe could not answer.\<close>

definition serve_process_alive :: "'w node_services \<Rightarrow> string \<Rightarrow> string \<Rightarrow> string \<Rightarrow> 'w \<Rightarrow> bool option \<times> 'w" where
  "serve_process_alive D a n cmd w =
     (case ks_exec D a n [''bash'', ''-lc'', liveness_script cmd] False None w of
        (Inl _, w1) \<Rightarrow> (None, w1)
      | (Inr r, w1) \<Rightarrow> (if ex_code r = 0 then Some True else if ex_code r = 1 then Some False else None, w1))"

definition log_tail :: "'w node_services \<Rightarrow> string \<Rightarrow> string \<Rightarrow> 'w \<Rightarrow> string \<times> 'w" where
  "log_tail D a n w = logs_for_container D a n 20 w"

text \<open>One poll over the ranks: the first rank seen to have stopped serving fails it.\<close>

fun ready_pass :: "'w node_services \<Rightarrow> rank_plan list \<Rightarrow> 'w \<Rightarrow> (exc + unit) \<times> 'w" where
  "ready_pass D [] w = (Inr (), w)"
| "ready_pass D (rp # rps) w =
     (let a = rp_node rp; n = cs_name (rp_container rp)
      in case ks_resolve D a w of
           Inl e \<Rightarrow> (Inl e, w)
         | Inr _ \<Rightarrow>
             (case ks_status D a n w of
                (Inl _, w1) \<Rightarrow> ready_pass D rps w1
              | (Inr st, w1) \<Rightarrow>
                  if \<not> cst_running st
                  then (case log_tail D a n w1 of (logs, w2) \<Rightarrow>
                     (Inl (NativeError (''container '' @ n @ '' on '' @ where_text a
                        @ '' exited before the engine became ready''
                        @ (case cst_exit st of None \<Rightarrow> [] | Some c \<Rightarrow> '' with exit code '' @ str_of_int c)
                        @ '' ('' @ cst_status st @ ''). Last log lines:'' @ [CHR 0x0A] @ logs)), w2))
                  else (case serve_process_alive D a n (rp_command rp) w1 of
                     (Some False, w2) \<Rightarrow>
                       (case log_tail D a n w2 of (logs, w3) \<Rightarrow>
                          (Inl (NativeError (''the serve process in '' @ n @ '' on '' @ where_text a @ '' is gone: ''
                             @ py_or (serve_program (rp_command rp)) ''the engine''
                             @ '' exited before the engine became ready. Last log lines:'' @ [CHR 0x0A] @ logs)), w3))
                   | (_, w2) \<Rightarrow> ready_pass D rps w2)))"

definition models_answering :: "'w node_services \<Rightarrow> string \<Rightarrow> 'w \<Rightarrow> string list option \<times> 'w" where
  "models_answering D url w =
     (if ks_simulated D then (None, w)
      else case ks_http D url w of
             (None, w1) \<Rightarrow> (None, w1)
           | (Some (code, served), w1) \<Rightarrow> (if code \<ge> 400 then None else served, w1))"

definition head_plan :: "deploy_plan \<Rightarrow> rank_plan" where
  "head_plan p = hd (p_ranks p)"

definition deadline_message :: "'w node_services \<Rightarrow> deploy_plan \<Rightarrow> nat \<Rightarrow> 'w \<Rightarrow> string \<times> 'w" where
  "deadline_message D p timeout w =
     (let base = ''engine did not become ready within '' @ str_of_nat timeout @ ''s at '' @ p_readiness_url p;
          h = head_plan p
      in case (if p_served_model p \<noteq> [] then models_answering D (p_readiness_url p) w else (None, w)) of
           (answered, w1) \<Rightarrow>
             (let msg = (case answered of
                   None \<Rightarrow> base
                 | Some ms \<Rightarrow> if ms \<noteq> [] \<and> p_served_model p \<notin> set ms
                     then base @ ''; port '' @ str_of_nat (p_port p) @ '' answered for '' @ join '', '' ms
                            @ '', not '' @ p_served_model p @ '' '' @ em_dash @ '' another server holds it''
                     else base)
              in case ks_resolve D (rp_node h) w1 of
                   Inl _ \<Rightarrow> (msg, w1)
                 | Inr _ \<Rightarrow>
                     (case log_tail D (rp_node h) (cs_name (rp_container h)) w1 of (tl0, w2) \<Rightarrow>
                        ((if strip tl0 = [] then msg else msg @ ''. Last log lines:'' @ [CHR 0x0A] @ tl0), w2))))"

text \<open>\<open>k\<close> polls fit before the deadline.\<close>

fun wait_ready :: "'w node_services \<Rightarrow> deploy_plan \<Rightarrow> nat \<Rightarrow> nat \<Rightarrow> 'w \<Rightarrow> (exc + unit) \<times> 'w" where
  "wait_ready D p timeout 0 w = (case deadline_message D p timeout w of (m, w1) \<Rightarrow> (Inl (NativeError m), w1))"
| "wait_ready D p timeout (Suc k) w =
     (case ready_pass D (p_ranks p) w of
        (Inl e, w1) \<Rightarrow> (Inl e, w1)
      | (Inr _, w1) \<Rightarrow>
          (case probe_ready D (p_readiness_url p) (p_served_model p) w1 of
             (True, w2) \<Rightarrow> (Inr (), w2)
           | (False, w2) \<Rightarrow> wait_ready D p timeout k (ks_tick D w2)))"

section \<open>The image\<close>

text \<open>Bytes in GB with two decimals (rounded; a float's own rounding of a tie is not modelled).\<close>

definition gb_text :: "nat \<Rightarrow> string" where
  "gb_text n = (let h = (n + 5000000) div 10000000
     in str_of_nat (h div 100) @ ''.'' @ [char_of (48 + h div 10 mod 10), char_of (48 + h mod 10)])"

text \<open>A progress snapshot: bytes done, bytes in all, the percentage as text.\<close>

type_synonym snapshot = "nat \<times> nat \<times> string"

definition bytes_transferred :: "snapshot \<Rightarrow> string" where
  "bytes_transferred snap =
     (case snap of (got, tot, pct) \<Rightarrow>
        if got = 0 \<and> tot = 0 then ''no bytes transferred''
        else if tot = 0 then gb_text got @ '' GB transferred''
        else gb_text got @ '' GB of '' @ gb_text tot @ '' GB ('' @ pct @ ''%) transferred'')"

text \<open>
  What a pull needs beyond the container service. \<open>pl_pull\<close> is the node's pull: the progress
  snapshots it reported and the outcome; it acts on the whole state,
  because stop, delete and every other thread run while it does, and so is the back-off sleep
  \<open>pl_idle\<close>. The registry (\<open>tools/registry.py\<close>) answers the name of its copy of an image, whether
  it holds it, and the relay a peer reaches it over.
\<close>

record 'w pulling =
  pl_pull :: "string \<Rightarrow> string \<Rightarrow> string option \<Rightarrow> 'w gang \<Rightarrow> (exc + unit) \<times> snapshot list \<times> 'w gang"
  pl_idle :: "nat \<Rightarrow> 'w gang \<Rightarrow> 'w gang"
  pl_copy :: "string \<Rightarrow> string"
  pl_held :: "string \<Rightarrow> bool"
  pl_relay :: string

fun distinct_nodes :: "string list \<Rightarrow> rank_plan list \<Rightarrow> string list" where
  "distinct_nodes seen [] = seen"
| "distinct_nodes seen (rp # rps) =
     distinct_nodes (if rp_node rp \<in> set seen then seen else seen @ [rp_node rp]) rps"

definition pull_targets :: "deploy_plan \<Rightarrow> string list" where
  "pull_targets p = distinct_nodes [] (start_order p)"

definition upstream_ref :: "deploy_plan \<Rightarrow> string" where
  "upstream_ref p = py_or (p_image_ref p) (cs_image (p_container p))"

definition image_on_node :: "'w node_services \<Rightarrow> 'w pulling \<Rightarrow> string \<Rightarrow> string \<Rightarrow> 'w \<Rightarrow> (exc + string) \<times> 'w" where
  "image_on_node D P node ref w =
     (case ks_image D node ref w of
        (Inl e, w1) \<Rightarrow> (Inl e, w1)
      | (Inr True, w1) \<Rightarrow> (Inr ref, w1)
      | (Inr False, w1) \<Rightarrow>
          if pl_copy P ref = [] then (Inr [], w1)
          else (case ks_image D node (pl_copy P ref) w1 of
                  (Inl e, w2) \<Rightarrow> (Inl e, w2)
                | (Inr b, w2) \<Rightarrow> (Inr (if b then pl_copy P ref else []), w2)))"

definition run_from :: "string \<Rightarrow> string \<Rightarrow> deploy_plan \<Rightarrow> deploy_plan" where
  "run_from node img p = p\<lparr>p_ranks := map (\<lambda>rp. if rp_node rp = node
     then rp\<lparr>rp_container := (rp_container rp)\<lparr>cs_image := img\<rparr>\<rparr> else rp) (p_ranks p)\<rparr>"

definition relayed_source :: "'w node_services \<Rightarrow> 'w pulling \<Rightarrow> string \<Rightarrow> string \<Rightarrow> (string \<times> string option) option" where
  "relayed_source D P node ref =
     (if pl_copy P ref = [] \<or> \<not> pl_held P ref then None
      else if node = [] \<or> ks_local D node then Some (pl_copy P ref, None)
      else if pl_relay P = [] then None else Some (pl_copy P ref, Some (pl_relay P)))"

fun image_missing_on :: "'w node_services \<Rightarrow> 'w pulling \<Rightarrow> string \<Rightarrow> string list \<Rightarrow> 'w \<Rightarrow> bool \<times> 'w" where
  "image_missing_on D P ref [] w = (False, w)"
| "image_missing_on D P ref (a # as) w =
     (case ks_resolve D a w of
        Inl _ \<Rightarrow> image_missing_on D P ref as w
      | Inr _ \<Rightarrow>
          (case image_on_node D P a ref w of
             (Inr [], w1) \<Rightarrow> (True, w1)
           | (_, w1) \<Rightarrow> image_missing_on D P ref as w1))"

definition image_missing :: "'w node_services \<Rightarrow> 'w pulling \<Rightarrow> deploy_plan \<Rightarrow> 'w \<Rightarrow> bool \<times> 'w" where
  "image_missing D P p w = image_missing_on D P (upstream_ref p) (pull_targets p) w"

fun is_stalled :: "exc \<Rightarrow> bool" where
  "is_stalled (PullStalled _) = True"
| "is_stalled _ = False"

definition pull_failure_message :: "string \<Rightarrow> string \<Rightarrow> nat \<Rightarrow> snapshot \<Rightarrow> exc \<Rightarrow> string" where
  "pull_failure_message ref whr attempts snap e =
     ''could not pull image '' @ ref @ '' on '' @ whr @ '' after ''
     @ (if attempts = 1 then ''1 attempt'' else str_of_nat attempts @ '' attempts'') @ '': ''
     @ (if is_stalled e
        then ''the registry went silent '' @ em_dash @ '' '' @ exc_text e @ '' '' @ em_dash @ '' with '' @ bytes_transferred snap
        else exc_text e @ '' '' @ em_dash @ '' '' @ bytes_transferred snap)"

definition pull_attempts_max :: nat where "pull_attempts_max = 3"

definition retry_backoff :: "nat \<Rightarrow> nat" where
  "retry_backoff attempt = [10, 30] ! min (attempt - 1) 1"

definition publish_progress :: "string \<Rightarrow> string \<Rightarrow> snapshot list \<Rightarrow> 'w gang \<Rightarrow> 'w gang" where
  "publish_progress i ref snaps s = fold (\<lambda>snap. publish ''image.pull.progress'' i (''pulling '' @ ref @ '': '' @ snd (snd snap) @ ''%'')) snaps s"

text \<open>
  \<open>_pull_with_retries\<close>; \<open>left\<close> attempts may follow attempt number \<open>n\<close>, \<open>snap\<close> is the last progress
  snapshot. A cancelled pull and a teardown that arrived meanwhile are not retried.
\<close>

fun pull_with_retries :: "'w pulling \<Rightarrow> string \<Rightarrow> string \<Rightarrow> string \<Rightarrow> string \<Rightarrow> nat \<Rightarrow> nat \<Rightarrow> snapshot \<Rightarrow>
    'w gang \<Rightarrow> (exc + unit) \<times> 'w gang" where
  "pull_with_retries P node i ref whr left n snap s =
     (case pl_pull P node ref None s of (outcome, snaps, s0) \<Rightarrow>
        (let s1 = publish_progress i ref snaps s0; snap1 = last (snap # snaps)
         in case outcome of
              Inr _ \<Rightarrow> (Inr (), s1)
            | Inl (PullCancelled m) \<Rightarrow>
                (Inl (PullCancelled m), publish ''image.pull.cancelled'' i (''pull of '' @ ref @ '' cancelled'') s1)
            | Inl e \<Rightarrow>
                if teardown_requested i s1
                then (Inl (PullCancelled (''pull of '' @ ref @ '' cancelled'')), s1)
                else (case left of
                   Suc l \<Rightarrow>
                     pull_with_retries P node i ref whr l (Suc n) snap1
                       (pl_idle P (retry_backoff n)
                          (publish ''image.pull.progress'' i
                             (''pull of '' @ ref @ '' on '' @ whr @ '' failed ('' @ exc_text e @ ''); retrying in ''
                              @ str_of_nat (retry_backoff n) @ ''s '' @ em_dash @ '' attempt '' @ str_of_nat (Suc n)
                              @ '' of '' @ str_of_nat pull_attempts_max) s1))
                 | 0 \<Rightarrow>
                     (Inl (NativeError (pull_failure_message ref whr n snap1 e)),
                      publish ''image.pull.failed'' i (pull_failure_message ref whr n snap1 e) s1))))"

declare pull_with_retries.simps [simp del]

definition pull_from_registry :: "'w node_services \<Rightarrow> 'w pulling \<Rightarrow> string \<Rightarrow> string \<Rightarrow> string \<Rightarrow> string \<Rightarrow>
    'w gang \<Rightarrow> (exc + string) \<times> 'w gang" where
  "pull_from_registry D P node i ref whr s =
     (case relayed_source D P node ref of
        None \<Rightarrow> (Inr [], s)
      | Some (copy, relay) \<Rightarrow>
          (case pl_pull P node copy relay s of (outcome, snaps, s0) \<Rightarrow>
             (let s1 = publish_progress i ref snaps s0
              in case outcome of
                   Inr _ \<Rightarrow> (Inr copy, s1)
                 | Inl (PullCancelled m) \<Rightarrow> (Inl (PullCancelled m), s1)
                 | Inl e \<Rightarrow>
                     if teardown_requested i s1
                     then (Inl (PullCancelled (''pull of '' @ copy @ '' cancelled'')), s1)
                     else (Inr [], publish ''image.pull.progress'' i
                             (''could not pull '' @ copy @ '' from the control node's registry on '' @ whr
                              @ '' ('' @ exc_text e @ ''); pulling '' @ ref @ '' from its own registry instead'') s1))))"

text \<open>\<open>_pull_image_if_missing\<close>: whether a pull ran; the plan's ranks on the node are pointed at
  the name the image has there.\<close>

definition pull_image_if_missing :: "'w node_services \<Rightarrow> 'w pulling \<Rightarrow> deploy_plan \<Rightarrow> string \<Rightarrow> 'w gang \<Rightarrow>
    (exc + bool) \<times> deploy_plan \<times> 'w gang" where
  "pull_image_if_missing D P p node s =
     (let i = p_id p; ref = upstream_ref p; whr = where_text node
      in case image_on_node D P node ref (g_world s) of (found, w1) \<Rightarrow>
         (let s1 = s\<lparr>g_world := w1\<rparr>; here = (case found of Inl _ \<Rightarrow> [] | Inr x \<Rightarrow> x)
          in if here \<noteq> [] then (Inr False, run_from node here p, s1)
             else
               (let s2 = snd (update_record i (\<lambda>r. r\<lparr>d_status := ''pulling''\<rparr>) s1);
                    s3 = register_pull i (publish ''image.pull.started'' i (''pulling '' @ ref @ '' on '' @ whr) s2)
                in case pull_from_registry D P node i ref whr s3 of
                     (Inl e, s4) \<Rightarrow> (Inl e, p, unregister_pull i s4)
                   | (Inr pulled, s4) \<Rightarrow>
                       (case (if pulled \<noteq> [] then (Inr (), s4)
                              else pull_with_retries P node i ref whr (pull_attempts_max - 1) 1 (0, 0, ''0'') s4) of
                          (Inl e, s5) \<Rightarrow> (Inl e, p, unregister_pull i s5)
                        | (Inr _, s5) \<Rightarrow>
                            (let nm = py_or pulled ref;
                                 s6 = publish ''image.pull.completed'' i (''pulled '' @ nm) (unregister_pull i s5)
                             in (Inr True, run_from node nm p,
                                 snd (update_record i (\<lambda>r. r\<lparr>d_status := ''starting'', d_image_present := True\<rparr>) s6)))))))"

fun pull_all :: "'w node_services \<Rightarrow> 'w pulling \<Rightarrow> deploy_plan \<Rightarrow> string list \<Rightarrow> 'w gang \<Rightarrow>
    (exc + unit) \<times> deploy_plan \<times> 'w gang" where
  "pull_all D P p [] s = (Inr (), p, s)"
| "pull_all D P p (a # as) s =
     (case ks_resolve D a (g_world s) of
        Inl e \<Rightarrow> (Inl e, p, s)
      | Inr _ \<Rightarrow>
          (case pull_image_if_missing D P p a s of
             (Inl e, p1, s1) \<Rightarrow> (Inl e, p1, s1)
           | (Inr _, p1, s1) \<Rightarrow> pull_all D P p1 as s1))"

end
