(* ===== verification/Gang_Run.thy ===== *)
theory Gang_Run
  imports Gang_Start
begin

text \<open>
  \<open>native_runtime.start\<close> as its phases, and the settlement of a launched gang. A phase hands on
  what the next one needs (\<open>Next\<close>), has settled the deployment and answers its record (\<open>Halt\<close>), or
  lets an exception through that the code does not catch (\<open>Raise\<close>).
\<close>

section \<open>Phases\<close>

datatype 'a phase = Next 'a | Halt dep | Raise exc

text \<open>\<open>_fail\<close> and \<open>_cancelled\<close>.\<close>

definition start_fail :: "'w node_services \<Rightarrow> deploy_plan \<Rightarrow> dep \<Rightarrow> string \<Rightarrow> orphan list \<Rightarrow> (nat \<times> string) list \<Rightarrow>
    'w gang \<Rightarrow> dep \<times> 'w gang" where
  "start_fail D p rec m os logs s =
     (case record_error (ks_now D (g_world s)) (p_id p) m (\<lambda>r. r\<lparr>d_orphans := os, d_final_logs := logs\<rparr>) s of
        (Some r, s1) \<Rightarrow> (r, s1)
      | (None, s1) \<Rightarrow> (rec\<lparr>d_status := ''error'', d_error_message := Some (error_text m)\<rparr>, s1))"

definition settle_stopped :: "'w node_services \<Rightarrow> deploy_plan \<Rightarrow> dep \<Rightarrow> string \<Rightarrow> 'w gang \<Rightarrow> dep \<times> 'w gang" where
  "settle_stopped D p rec m s =
     (case update_record (p_id p)
             (\<lambda>r. r\<lparr>d_status := ''stopped'', d_stopped_at := Some (Some (ks_now D (g_world s)))\<rparr>)
             (publish ''deployment_stopped'' (p_id p) m s) of
        (Some r, s1) \<Rightarrow> (r, s1)
      | (None, s1) \<Rightarrow> (rec\<lparr>d_status := ''stopped''\<rparr>, s1))"

definition cancelled :: "'w node_services \<Rightarrow> deploy_plan \<Rightarrow> dep \<Rightarrow> rank_plan list \<Rightarrow> 'w gang \<Rightarrow> dep \<times> 'w gang" where
  "cancelled D p rec touched s =
     (let s1 = (if touched = [] then s
                else s\<lparr>g_world := snd (snd (teardown_entries D (map rank_record touched) (g_world s)))\<rparr>)
      in settle_stopped D p rec (''deploy of '' @ p_id p @ '' cancelled by teardown'') s1)"

text \<open>Plan and reap.\<close>

definition prepare :: "'w node_services \<Rightarrow> deploy_plan \<Rightarrow> string \<Rightarrow> 'w gang \<Rightarrow> dep phase \<times> 'w gang" where
  "prepare D p initial s =
     (case persist_planned_record p initial s of (rec, s1) \<Rightarrow>
        (let s2 = publish ''deployment_planned'' (p_id p)
                    (''planned '' @ p_recipe_id p @ '' on '' @ p_engine p @ ''/'' @ p_variant p) s1
         in case reap_earlier_generations D p (g_world s2) of
              (Inr _, w) \<Rightarrow> (Next rec, s2\<lparr>g_world := w\<rparr>)
            | (Inl e, w) \<Rightarrow>
                (case start_fail D p rec (case e of NativeError m \<Rightarrow> m
                          | _ \<Rightarrow> ''could not reach the nodes for '' @ p_id p @ '': '' @ exc_text e)
                        [] [] (s2\<lparr>g_world := w\<rparr>) of (r, s3) \<Rightarrow> (Halt r, s3))))"

text \<open>Pull, on each node once.\<close>

definition pull_phase :: "'w node_services \<Rightarrow> 'w pulling \<Rightarrow> deploy_plan \<Rightarrow> dep \<Rightarrow> 'w gang \<Rightarrow> deploy_plan phase \<times> 'w gang" where
  "pull_phase D P p rec s =
     (case pull_all D P p (pull_targets p) s of
        (Inr _, p1, s1) \<Rightarrow> (Next p1, s1)
      | (Inl (PullCancelled m), p1, s1) \<Rightarrow>
          (case settle_stopped D p rec (''pull of '' @ cs_image (p_container p) @ '' cancelled by teardown'') s1 of
             (r, s2) \<Rightarrow> (Halt r, s2))
      | (Inl (NativeError m), p1, s1) \<Rightarrow> (case start_fail D p rec m [] [] s1 of (r, s2) \<Rightarrow> (Halt r, s2))
      | (Inl e, p1, s1) \<Rightarrow>
          (case start_fail D p rec (''could not pull image '' @ cs_image (p_container p) @ '': '' @ exc_text e) [] [] s1 of
             (r, s2) \<Rightarrow> (Halt r, s2)))"

definition abort :: "'w node_services \<Rightarrow> deploy_plan \<Rightarrow> dep \<Rightarrow> rank_plan \<Rightarrow> string \<Rightarrow> string \<Rightarrow> rank_plan list \<Rightarrow>
    'w gang \<Rightarrow> dep \<times> 'w gang" where
  "abort D p rec rp m phase touched s =
     (let pending = (if rp \<in> set touched then touched else touched @ [rp])
      in case teardown_entries D (map rank_record pending) (g_world s) of (os, logs, w) \<Rightarrow>
           start_fail D p rec (''rank '' @ str_of_nat (rp_rank rp) @ '' of '' @ str_of_nat (p_node_count p) @ '' on ''
             @ where_text (rp_node rp) @ '' failed to '' @ phase
             @ '', so the whole deployment was torn down: '' @ m) os logs (s\<lparr>g_world := w\<rparr>))"

text \<open>A rank's failure: the runtime's own error aborts the gang, any other leaves the function.\<close>

definition rank_failed :: "'w node_services \<Rightarrow> deploy_plan \<Rightarrow> dep \<Rightarrow> rank_plan \<Rightarrow> exc \<Rightarrow> string \<Rightarrow> rank_plan list \<Rightarrow>
    'w gang \<Rightarrow> 'a phase \<times> 'w gang" where
  "rank_failed D p rec rp e phase touched s =
     (case e of
        NativeError m \<Rightarrow> (case abort D p rec rp m phase touched s of (r, s1) \<Rightarrow> (Halt r, s1))
      | _ \<Rightarrow> (Raise e, s))"

fun create_all :: "'w node_services \<Rightarrow> deploy_plan \<Rightarrow> dep \<Rightarrow> rank_plan list \<Rightarrow> rank_plan list \<Rightarrow> string list \<Rightarrow>
    'w gang \<Rightarrow> (rank_plan list \<times> string list) phase \<times> 'w gang" where
  "create_all D p rec [] touched warns s = (Next (touched, warns), s)"
| "create_all D p rec (rp # rps) touched warns s =
     (case ks_resolve D (rp_node rp) (g_world s) of
        Inl e \<Rightarrow> rank_failed D p rec rp e ''start'' touched s
      | Inr _ \<Rightarrow>
          (case create_rank D p rp s of
             (Inl e, s1) \<Rightarrow> rank_failed D p rec rp e ''start'' touched s1
           | (Inr ws, s1) \<Rightarrow> create_all D p rec rps (touched @ [rp]) (warns @ ws) s1))"

fun launch_all :: "'w node_services \<Rightarrow> nat \<Rightarrow> deploy_plan \<Rightarrow> dep \<Rightarrow> rank_plan list \<Rightarrow> rank_plan list \<Rightarrow>
    'w gang \<Rightarrow> unit phase \<times> 'w gang" where
  "launch_all D k p rec [] touched s = (Next (), s)"
| "launch_all D k p rec (rp # rps) touched s =
     (case (if rp_is_head rp then wait_rpc_workers D k p (g_world s) else (Inr (), g_world s)) of
        (Inl e, w) \<Rightarrow> rank_failed D p rec rp e ''launch'' touched (s\<lparr>g_world := w\<rparr>)
      | (Inr _, w) \<Rightarrow>
          (case ks_resolve D (rp_node rp) w of
             Inl e \<Rightarrow> rank_failed D p rec rp e ''launch'' touched (s\<lparr>g_world := w\<rparr>)
           | Inr _ \<Rightarrow>
               (case launch_rank D rp w of
                  (Inl e, w1) \<Rightarrow> rank_failed D p rec rp e ''launch'' touched (s\<lparr>g_world := w1\<rparr>)
                | (Inr _, w1) \<Rightarrow> launch_all D k p rec rps touched (s\<lparr>g_world := w1\<rparr>))))"

text \<open>The section under the lifecycle lock: re-check, create every rank, re-check, launch.\<close>

definition launch_locked :: "'w node_services \<Rightarrow> nat \<Rightarrow> deploy_plan \<Rightarrow> dep \<Rightarrow> 'w gang \<Rightarrow> dep phase \<times> 'w gang" where
  "launch_locked D k p rec s =
     (if teardown_requested (p_id p) s then (case cancelled D p rec [] s of (r, s1) \<Rightarrow> (Halt r, s1))
      else case create_all D p rec (teardown_order p) [] (p_warnings p) s of
             (Halt r, s1) \<Rightarrow> (Halt r, s1)
           | (Raise e, s1) \<Rightarrow> (Raise e, s1)
           | (Next (touched, warns), s1) \<Rightarrow>
               if teardown_requested (p_id p) s1 then (case cancelled D p rec touched s1 of (r, s2) \<Rightarrow> (Halt r, s2))
               else (case launch_all D k p rec (start_order p) touched s1 of
                       (Halt r, s2) \<Rightarrow> (Halt r, s2)
                     | (Raise e, s2) \<Rightarrow> (Raise e, s2)
                     | (Next _, s2) \<Rightarrow>
                         (case update_record (p_id p)
                                 (\<lambda>r. r\<lparr>d_status := ''starting'', d_started_at := Some (ks_now D (g_world s2)),
                                        d_warnings := warns\<rparr>) s2 of
                            (r, s3) \<Rightarrow>
                              (Next (case r of None \<Rightarrow> rec | Some x \<Rightarrow> x),
                               publish ''deployment_serving'' (p_id p)
                                 (''launch script running in '' @ cs_name (p_container p)) s3))))"

section \<open>Settling a launched gang\<close>

definition fail_launched_gang :: "'w node_services \<Rightarrow> deploy_plan \<Rightarrow> string \<Rightarrow> 'w gang \<Rightarrow> dep option \<times> 'w gang" where
  "fail_launched_gang D p m s =
     (case teardown_entries D (map rank_record (p_ranks p)) (g_world s) of (os, logs, w) \<Rightarrow>
        record_error (ks_now D w) (p_id p) m (\<lambda>r. r\<lparr>d_orphans := os, d_final_logs := logs\<rparr>) (s\<lparr>g_world := w\<rparr>))"

text \<open>Both settlements run under the lifecycle lock and leave a teardown's verdict standing.\<close>

definition settle_failed :: "'w node_services \<Rightarrow> deploy_plan \<Rightarrow> dep \<Rightarrow> string \<Rightarrow> 'w gang \<Rightarrow> dep \<times> 'w gang" where
  "settle_failed D p rec m s =
     (if is_torn_down (p_id p) s
      then ((case get_deployment (p_id p) s of None \<Rightarrow> rec\<lparr>d_status := ''stopped''\<rparr> | Some r \<Rightarrow> r), s)
      else case fail_launched_gang D p m s of
             (Some r, s1) \<Rightarrow> (r, s1)
           | (None, s1) \<Rightarrow> (rec\<lparr>d_status := ''error'', d_error_message := Some (error_text m)\<rparr>, s1))"

definition settle_ready :: "'w node_services \<Rightarrow> deploy_plan \<Rightarrow> dep \<Rightarrow> 'w gang \<Rightarrow> dep \<times> 'w gang" where
  "settle_ready D p rec s =
     (if is_torn_down (p_id p) s
      then ((case get_deployment (p_id p) s of None \<Rightarrow> rec\<lparr>d_status := ''stopped''\<rparr> | Some r \<Rightarrow> r), s)
      else (case update_record (p_id p)
                  (\<lambda>r. r\<lparr>d_status := ''running'', d_ready_at := Some (ks_now D (g_world s)), d_error_message := None\<rparr>)
                  (publish ''deployment_ready'' (p_id p)
                    (p_recipe_id p @ '' is serving on port '' @ str_of_nat (p_port p)) s) of
              (r, s1) \<Rightarrow> ((case r of None \<Rightarrow> rec | Some x \<Rightarrow> x), s1)))"

section \<open>The whole start\<close>

text \<open>\<open>k\<close> bounds the passes of the RPC wait, \<open>polls\<close> the readiness polls before the deadline.\<close>

definition start :: "'w node_services \<Rightarrow> 'w pulling \<Rightarrow> nat \<Rightarrow> nat \<Rightarrow> nat \<Rightarrow> bool \<Rightarrow> string \<Rightarrow> deploy_plan \<Rightarrow>
    'w gang \<Rightarrow> (exc + dep) \<times> 'w gang" where
  "start D P k timeout polls wait initial p s =
     (case prepare D p initial s of
        (Halt r, s1) \<Rightarrow> (Inr r, s1)
      | (Raise e, s1) \<Rightarrow> (Inl e, s1)
      | (Next rec, s1) \<Rightarrow>
          (case pull_phase D P p rec s1 of
             (Halt r, s2) \<Rightarrow> (Inr r, s2)
           | (Raise e, s2) \<Rightarrow> (Inl e, s2)
           | (Next p1, s2) \<Rightarrow>
               (case launch_locked D k p1 rec s2 of
                  (Halt r, s3) \<Rightarrow> (Inr r, s3)
                | (Raise e, s3) \<Rightarrow> (Inl e, s3)
                | (Next r, s3) \<Rightarrow>
                    if \<not> wait then (Inr r, s3)
                    else (case wait_ready D p1 timeout polls (g_world s3) of
                            (Inr _, w) \<Rightarrow> (case settle_ready D p1 rec (s3\<lparr>g_world := w\<rparr>) of (x, s4) \<Rightarrow> (Inr x, s4))
                          | (Inl (NativeError m), w) \<Rightarrow>
                              (case settle_failed D p1 rec m (s3\<lparr>g_world := w\<rparr>) of (x, s4) \<Rightarrow> (Inr x, s4))
                          | (Inl e, w) \<Rightarrow> (Inl e, s3\<lparr>g_world := w\<rparr>)))))"

text \<open>
  The background half of \<open>create_deployment\<close>: what its thread does when a start with a pull in
  front of it leaves by an exception.
\<close>

definition background_failed :: "'w node_services \<Rightarrow> deploy_plan \<Rightarrow> exc \<Rightarrow> 'w gang \<Rightarrow> 'w gang" where
  "background_failed D p e s =
     (if is_torn_down (p_id p) s then s
      else snd (record_error (ks_now D (g_world s)) (p_id p)
             (''the deploy of '' @ p_id p @ '' failed to start: '' @ exc_text e) id s))"

text \<open>\<open>_watch\<close>, the thread that waits for a launched gang's readiness.\<close>

definition watch :: "'w node_services \<Rightarrow> nat \<Rightarrow> nat \<Rightarrow> deploy_plan \<Rightarrow> 'w gang \<Rightarrow> 'w gang" where
  "watch D timeout polls p s =
     (case wait_ready D p timeout polls (g_world s) of
        (Inl (NativeError m), w) \<Rightarrow>
          (if is_torn_down (p_id p) (s\<lparr>g_world := w\<rparr>) then s\<lparr>g_world := w\<rparr>
           else snd (fail_launched_gang D p m (s\<lparr>g_world := w\<rparr>)))
      | (Inl e, w) \<Rightarrow> s\<lparr>g_world := w\<rparr>
      | (Inr _, w) \<Rightarrow>
          (if is_torn_down (p_id p) (s\<lparr>g_world := w\<rparr>) then s\<lparr>g_world := w\<rparr>
           else publish ''deployment_ready'' (p_id p)
                  (p_recipe_id p @ '' is serving on port '' @ str_of_nat (p_port p))
                  (snd (update_record (p_id p)
                     (\<lambda>r. r\<lparr>d_status := ''running'', d_ready_at := Some (ks_now D w), d_error_message := None\<rparr>)
                     (s\<lparr>g_world := w\<rparr>)))))"

text \<open>What the request answers, and the thread it leaves running.\<close>

datatype background = NoThread | PullThenStart | WatchReady

definition create_deployment :: "'w node_services \<Rightarrow> 'w pulling \<Rightarrow> nat \<Rightarrow> deploy_plan \<Rightarrow>
    'w gang \<Rightarrow> (exc + (dep \<times> background)) \<times> 'w gang" where
  "create_deployment D P k p s =
     (case image_missing D P p (g_world s) of
        (True, w) \<Rightarrow>
          (case persist_planned_record p ''pulling'' (s\<lparr>g_world := w\<rparr>) of (rec, s1) \<Rightarrow> (Inr (rec, PullThenStart), s1))
      | (False, w) \<Rightarrow>
          (case start D P k 0 0 False ''starting'' p (s\<lparr>g_world := w\<rparr>) of
             (Inl e, s1) \<Rightarrow> (Inl e, s1)
           | (Inr r, s1) \<Rightarrow> (Inr (r, if d_status r = ''error'' then NoThread else WatchReady), s1)))"

definition run_background :: "'w node_services \<Rightarrow> 'w pulling \<Rightarrow> nat \<Rightarrow> nat \<Rightarrow> nat \<Rightarrow> background \<Rightarrow> deploy_plan \<Rightarrow>
    'w gang \<Rightarrow> 'w gang" where
  "run_background D P k timeout polls b p s =
     (case b of
        NoThread \<Rightarrow> s
      | WatchReady \<Rightarrow> watch D timeout polls p s
      | PullThenStart \<Rightarrow>
          (case start D P k 0 0 False ''pulling'' p s of
             (Inl e, s1) \<Rightarrow> background_failed D p e s1
           | (Inr r, s1) \<Rightarrow> if d_status r \<in> {''error'', ''stopped''} then s1 else watch D timeout polls p s1))"

end
