(* ===== verification/Gang_Safety.thy ===== *)
theory Gang_Safety
  imports Gang_Run
begin

text \<open>
  The laws of the start: which operations can make a container appear, what reaping leaves, what
  an aborted launch leaves, and the state machine of one deployment's creator against stops,
  deletes and sweeps by other threads.
\<close>

section \<open>What a wait saw\<close>

text \<open>The calls a wait for RPC workers makes while it is still waiting.\<close>

inductive wait_call :: "'w node_services \<Rightarrow> 'w \<Rightarrow> 'w \<Rightarrow> bool" for D :: "'w node_services" where
  wait_listening: "wait_call D w (snd (ks_listening D h port w))"
| wait_status: "wait_call D w (snd (ks_status D a n w))"
| wait_tick: "wait_call D w (ks_tick D w)"

text \<open>Between the two worlds the worker was seen accepting a connection on the port.\<close>

definition seen_listening :: "'w node_services \<Rightarrow> nat \<Rightarrow> rank_plan \<Rightarrow> 'w \<Rightarrow> 'w \<Rightarrow> bool" where
  "seen_listening D port rp w w' \<longleftrightarrow>
     (\<exists>w0. (wait_call D)\<^sup>*\<^sup>* w w0 \<and> fst (ks_listening D (py_or (rp_node rp) (rp_host rp)) port w0) \<and>
        (wait_call D)\<^sup>*\<^sup>* (snd (ks_listening D (py_or (rp_node rp) (rp_host rp)) port w0)) w')"

lemma seen_before: "(wait_call D)\<^sup>*\<^sup>* w w1 \<Longrightarrow> seen_listening D port rp w1 w' \<Longrightarrow> seen_listening D port rp w w'"
  unfolding seen_listening_def by (meson rtranclp_trans)

lemma seen_after: "(wait_call D)\<^sup>*\<^sup>* w1 w' \<Longrightarrow> seen_listening D port rp w w1 \<Longrightarrow> seen_listening D port rp w w'"
  unfolding seen_listening_def by (meson rtranclp_trans)

section \<open>Only a run makes a container\<close>

context node_service_laws begin

lemma copy_mod_shrinks: "shrinks ok lab w (snd (copy_mod D a n remote fs w))"
proof (induction fs arbitrary: w)
  case (Cons f fs)
  obtain r w1 where c: "ks_copy D a n f (remote @ ''/'' @ f) w = (r, w1)" by force
  have "shrinks ok lab w w1" using copy_shrinks[of w a n f "remote @ ''/'' @ f"] c by simp
  from shrinks_trans[OF this Cons[of w1]] this c show ?case by (cases r) simp_all
qed simp

lemma apply_mod_shrinks: "shrinks ok lab w (snd (apply_mod D p a n m w))"
proof (cases "resolve_mod_dir D m")
  case (Inl e)
  then show ?thesis by (simp add: apply_mod_def)
next
  case (Inr nf)
  obtain name files where nf: "nf = (name, files)" by force
  let ?remote = "mods_dir @ ''/'' @ name"
  obtain r1 w1 where c1: "ks_exec D a n [''mkdir'', ''-p'', ?remote] False (Some ''root'') w = (r1, w1)" by force
  obtain r2 w2 where c2: "copy_mod D a n ?remote files w1 = (r2, w2)" by force
  let ?cmd = "[''bash'', ''-lc'', ''cd '' @ ?remote @ '' && WORKSPACE_DIR='' @ py_or (p_workdir p) ''/workspace'' @ '' bash run.sh'']"
  obtain r3 w3 where c3: "ks_exec D a n ?cmd False (Some ''root'') w2 = (r3, w3)" by force
  have 1: "shrinks ok lab w w1" using exec_shrinks[of w a n _ False "Some ''root''"] c1 by (metis snd_conv)
  have 2: "shrinks ok lab w w2" using shrinks_trans[OF 1] copy_mod_shrinks[of w1 a n ?remote files] c2 by (metis snd_conv)
  have 3: "shrinks ok lab w w3" using shrinks_trans[OF 2] exec_shrinks[of w2 a n ?cmd False "Some ''root''"] c3 by (metis snd_conv)
  show ?thesis
    unfolding apply_mod_def Inr nf Let_def sum.case prod.case c1
    using 1 2 3 c2 c3 by (cases r1; cases r2; cases r3) (simp_all)
qed

lemma call_steps:
  "ks_stop D a n w = (b, w1) \<Longrightarrow> shrinks ok lab w w1"
  "ks_status D a n w = (st, w1) \<Longrightarrow> shrinks ok lab w w1"
  "ks_list D a want w = (cs, w1) \<Longrightarrow> shrinks ok lab w w1"
  "ks_logs D a n k w = (lg, w1) \<Longrightarrow> shrinks ok lab w w1"
  "ks_exec D a n cmd det usr w = (ex, w1) \<Longrightarrow> shrinks ok lab w w1"
  "ks_copy D a n src dst w = (b, w1) \<Longrightarrow> shrinks ok lab w w1"
  "ks_mkdirs D a ps w = (fs, w1) \<Longrightarrow> shrinks ok lab w w1"
  "ks_image D a ref w = (b, w1) \<Longrightarrow> shrinks ok lab w w1"
  "ks_listening D a port w = (l, w1) \<Longrightarrow> shrinks ok lab w w1"
  "ks_http D url w = (h, w1) \<Longrightarrow> shrinks ok lab w w1"
  using stop_shrinks[of w a n] status_shrinks[of w a n] list_shrinks[of w a want] logs_shrinks[of w a n k]
    exec_shrinks[of w a n cmd det usr] copy_shrinks[of w a n src dst] mkdirs_shrinks[of w a ps]
    image_shrinks[of w a ref] listening_shrinks[of w a port] http_shrinks[of w url]
  by simp_all

lemma apply_mods_shrinks: "shrinks ok lab w (snd (apply_mods D p a n ms w))"
proof (induction ms arbitrary: w)
  case (Cons m ms)
  obtain r w1 where c: "apply_mod D p a n m w = (r, w1)" by force
  obtain r2 w2 where c2: "apply_mods D p a n ms w1 = (r2, w2)" by force
  have 1: "shrinks ok lab w w1" using apply_mod_shrinks[of w p a n m] c by simp
  have 2: "shrinks ok lab w w2" using shrinks_trans[OF 1 Cons[of w1]] c2 by simp
  from 1 2 c c2 show ?case by (cases r; cases r2) simp_all
qed simp

lemma make_bind_sources_shrinks: "shrinks ok lab w (snd (make_bind_sources D rp w))"
proof -
  obtain r w1 where c: "ks_mkdirs D (rp_node rp) (bind_sources_to_create (cs_mounts (rp_container rp))) w = (r, w1)" by force
  have "snd (make_bind_sources D rp w) = w \<or> snd (make_bind_sources D rp w) = w1"
    unfolding make_bind_sources_def Let_def c by (auto split: sum.split list.split)
  with call_steps(7)[OF c] show ?thesis by auto
qed

lemma deploy_script_shrinks: "shrinks ok lab w (snd (deploy_script D rp w))"
proof -
  let ?n = "cs_name (rp_container rp)" and ?a = "rp_node rp"
  let ?c2 = "[''chmod'', ''0755'', script_path]"
  let ?c3 = "[''bash'', ''-lc'', ''bash '' @ shlex_quote script_path @ '' >> /proc/1/fd/1 2>&1'']"
  obtain r1 w1 where c1: "ks_copy D ?a ?n (rp_script rp) script_path w = (r1, w1)" by force
  obtain r2 w2 where c2: "ks_exec D ?a ?n ?c2 False (Some ''root'') w1 = (r2, w2)" by force
  obtain r3 w3 where c3: "ks_exec D ?a ?n ?c3 True None w2 = (r3, w3)" by force
  note 1 = call_steps(6)[OF c1]
  note 2 = shrinks_trans[OF 1 call_steps(5)[OF c2]]
  note 3 = shrinks_trans[OF 2 call_steps(5)[OF c3]]
  show ?thesis
    unfolding deploy_script_def Let_def c1 prod.case
    using 1 2 3 c2 c3 by (auto split: sum.split bool.split)
qed

lemma launch_rank_shrinks: "shrinks ok lab w (snd (launch_rank D rp w))"
proof -
  obtain r w1 where c: "deploy_script D rp w = (r, w1)" by force
  have "snd (launch_rank D rp w) = w1"
    unfolding launch_rank_def c by (auto split: sum.split exc.split)
  with deploy_script_shrinks[of w rp] c show ?thesis by simp
qed

lemma logs_for_container_step: "logs_for_container D a n k w = (lg, w1) \<Longrightarrow> shrinks ok lab w w1"
  using logs_shrinks[of w a n k] by (auto simp: logs_for_container_def split: prod.splits sum.splits)

lemma rpc_pass_shrinks: "shrinks ok lab w (snd (rpc_pass D port rps w))"
proof (induction rps arbitrary: w)
  case (Cons rp rps)
  let ?a = "rp_node rp" and ?n = "cs_name (rp_container rp)"
  obtain l w1 where c1: "ks_listening D (py_or ?a (rp_host rp)) port w = (l, w1)" by force
  obtain r w2 where c2: "ks_status D ?a ?n w1 = (r, w2)" by force
  obtain lg w3 where c3: "logs_for_container D ?a ?n 50 w2 = (lg, w3)" by force
  obtain r4 w4 where c4: "rpc_pass D port rps w2 = (r4, w4)" by force
  note 1 = call_steps(9)[OF c1]
  note 2 = shrinks_trans[OF 1 call_steps(2)[OF c2]]
  note 3 = shrinks_trans[OF 2 logs_for_container_step[OF c3]]
  have 4: "shrinks ok lab w w4" using shrinks_trans[OF 2 Cons[of w2]] c4 by simp
  have 5: "shrinks ok lab w (snd (rpc_pass D port rps w1))" by (rule shrinks_trans[OF 1 Cons])
  have 6: "snd (case rpc_pass D port rps w2 of
      (Inl e, w3) \<Rightarrow> (Inl e, w3) | (Inr ws, w3) \<Rightarrow> (Inr (rp # ws), w3)) = w4"
    by (simp add: c4 split: sum.split)
  show ?case
    unfolding rpc_pass.simps c1 prod.case
    using 1 2 3 4 5 6 c2 c3 by (cases l; cases r) (auto split: sum.split)
qed simp

lemma rpc_loop_shrinks: "shrinks ok lab w (snd (rpc_loop D port k pending w))"
proof (induction k arbitrary: w pending)
  case 0
  obtain r w1 where c: "rpc_pass D port pending w = (r, w1)" by force
  have "snd (rpc_loop D port 0 pending w) = w1"
    unfolding rpc_loop.simps[of D port 0 pending w] c by (auto split: sum.split list.split)
  with rpc_pass_shrinks[of w port pending] c show ?case by simp
next
  case (Suc k)
  obtain r w1 where c: "rpc_pass D port pending w = (r, w1)" by force
  have 1: "shrinks ok lab w w1" using rpc_pass_shrinks[of w port pending] c by simp
  have "snd (rpc_loop D port (Suc k) pending w) = w1 \<or>
      (\<exists>ws. snd (rpc_loop D port (Suc k) pending w) = snd (rpc_loop D port k ws (ks_tick D w1)))"
    unfolding rpc_loop.simps[of D port "Suc k" pending w] c by (auto split: sum.split list.split)
  with 1 show ?case
    using shrinks_trans[OF 1 shrinks_trans[OF tick_shrinks Suc]] by (elim disjE exE) simp_all
qed

lemma wait_rpc_shrinks: "shrinks ok lab w (snd (wait_rpc_workers D k p w))"
  using rpc_loop_shrinks by (simp add: wait_rpc_workers_def split: option.split)

subsection \<open>The rank zero of an RPC gang waits for evidence\<close>

text \<open>A wait that ends well saw every worker it waited for accept a connection.\<close>

lemma rpc_pass_evidence:
  "rpc_pass D port rps w = (Inr waiting, w') \<Longrightarrow>
   (wait_call D)\<^sup>*\<^sup>* w w' \<and> (\<forall>rp \<in> set rps. rp \<in> set waiting \<or> seen_listening D port rp w w')"
proof (induction rps arbitrary: w waiting)
  case (Cons rp rps)
  let ?a = "rp_node rp" and ?n = "cs_name (rp_container rp)" and ?h = "py_or (rp_node rp) (rp_host rp)"
  obtain l w1 where c1: "ks_listening D ?h port w = (l, w1)" by force
  obtain r w2 where c2: "ks_status D ?a ?n w1 = (r, w2)" by force
  have s1: "(wait_call D)\<^sup>*\<^sup>* w w1" using wait_listening[of D w ?h port] c1 by (simp add: r_into_rtranclp)
  have s2: "(wait_call D)\<^sup>*\<^sup>* w w2"
    using s1 wait_status[of D w1 ?a ?n] c2 by (simp add: rtranclp.rtrancl_into_rtrancl)
  show ?case
  proof (cases l)
    case True
    then have run: "rpc_pass D port rps w1 = (Inr waiting, w')" using Cons.prems c1 by simp
    with Cons.IH have ih: "(wait_call D)\<^sup>*\<^sup>* w1 w'"
      "\<forall>rp \<in> set rps. rp \<in> set waiting \<or> seen_listening D port rp w1 w'" by auto
    have "seen_listening D port rp w w'"
      unfolding seen_listening_def using ih(1) c1 True by (intro exI[of _ w]) simp
    with ih s1 show ?thesis by (auto intro: seen_before rtranclp_trans)
  next
    case False
    obtain ws where ws: "rpc_pass D port rps w2 = (Inr ws, w')" "waiting = rp # ws"
      using Cons.prems False c1 c2
      by (auto split: sum.splits prod.splits if_splits)
    with Cons.IH[OF ws(1)] s2 show ?thesis by (auto intro: seen_before rtranclp_trans)
  qed
qed simp

lemma rpc_loop_calls: "rpc_loop D port k pending w = (Inr (), w') \<Longrightarrow> (wait_call D)\<^sup>*\<^sup>* w w'"
proof (induction k arbitrary: w pending)
  case 0
  obtain r w1 where c: "rpc_pass D port pending w = (r, w1)" by force
  with 0 have "r = Inr []" "w1 = w'"
    unfolding rpc_loop.simps[of D port 0 pending w] by (auto split: sum.splits list.splits)
  with rpc_pass_evidence c show ?case by fastforce
next
  case (Suc k)
  obtain r w1 where c: "rpc_pass D port pending w = (r, w1)" by force
  from Suc.prems consider "r = Inr []" "w1 = w'"
    | ws where "r = Inr ws" "rpc_loop D port k ws (ks_tick D w1) = (Inr (), w')"
    unfolding rpc_loop.simps[of D port "Suc k" pending w] c by (auto split: sum.splits list.splits)
  then show ?case
  proof cases
    case 1
    with rpc_pass_evidence c show ?thesis by fastforce
  next
    case 2
    from rpc_pass_evidence[of port pending w ws w1] c 2 have "(wait_call D)\<^sup>*\<^sup>* w w1" by auto
    from rtranclp.rtrancl_into_rtrancl[OF this wait_tick] have "(wait_call D)\<^sup>*\<^sup>* w (ks_tick D w1)" .
    with Suc.IH[OF 2(2)] show ?thesis by (rule rtranclp_trans[rotated])
  qed
qed

lemma rpc_loop_evidence:
  "rpc_loop D port k pending w = (Inr (), w') \<Longrightarrow> \<forall>rp \<in> set pending. seen_listening D port rp w w'"
proof (induction k arbitrary: w pending)
  case 0
  obtain r w1 where c: "rpc_pass D port pending w = (r, w1)" by force
  with 0 have "r = Inr []" "w1 = w'"
    unfolding rpc_loop.simps[of D port 0 pending w] by (auto split: sum.splits list.splits)
  with rpc_pass_evidence c show ?case by fastforce
next
  case (Suc k)
  obtain r w1 where c: "rpc_pass D port pending w = (r, w1)" by force
  from Suc.prems consider "r = Inr []" "w1 = w'"
    | ws where "r = Inr ws" "rpc_loop D port k ws (ks_tick D w1) = (Inr (), w')"
    unfolding rpc_loop.simps[of D port "Suc k" pending w] c by (auto split: sum.splits list.splits)
  then show ?case
  proof cases
    case 1
    with rpc_pass_evidence c show ?thesis by fastforce
  next
    case 2
    from rpc_pass_evidence[of port pending w ws w1] c 2 have p: "(wait_call D)\<^sup>*\<^sup>* w w1"
      "\<forall>rp \<in> set pending. rp \<in> set ws \<or> seen_listening D port rp w w1" by auto
    have t: "(wait_call D)\<^sup>*\<^sup>* w (ks_tick D w1)" using p(1) wait_tick by (rule rtranclp.rtrancl_into_rtrancl)
    have t': "(wait_call D)\<^sup>*\<^sup>* w1 w'"
      using rpc_loop_calls[OF 2(2)] wait_tick[of D w1] by (rule converse_rtranclp_into_rtranclp[rotated])
    from p(2) Suc.IH[OF 2(2)] show ?thesis using seen_before[OF t] seen_after[OF t'] by blast
  qed
qed

subsection \<open>Reaping\<close>

lemma reap_steps:
  assumes "reap D a n w = (r, w')"
  shows "shrinks ok lab w w' \<and> (ok w \<and> r = Inr () \<longrightarrow> lab w' a n = None)"
proof -
  obtain r1 w1 where c1: "ks_stop D a n w = (r1, w1)" by force
  obtain r2 w2 where c2: "confirm_gone D a n (ks_looks D) w1 = (r2, w2)" by force
  note 1 = call_steps(1)[OF c1]
  have 2: "shrinks ok lab w w2" using shrinks_trans[OF 1] confirm_gone_shrinks[of w1 a n "ks_looks D"] c2 by (metis snd_conv)
  have ev: "ok w \<Longrightarrow> r2 = Inr True \<Longrightarrow> lab w2 a n = None"
    using confirm_gone_evidence[of w1 a n "ks_looks D" w2] shrinks_ok[OF 1] c2 by simp
  show ?thesis
  proof (cases r1)
    case (Inl e)
    with assms 1 show ?thesis by (auto simp: reap_def c1)
  next
    case (Inr b)
    note r1 = Inr
    show ?thesis
    proof (cases r2)
      case (Inl e)
      with assms 2 r1 show ?thesis by (auto simp: reap_def c1 c2)
    next
      case (Inr g)
      with assms 2 r1 ev show ?thesis by (cases g) (auto simp: reap_def c1 c2)
    qed
  qed
qed

lemma reap_names_steps:
  assumes "reap_names D a ns w = (r, w')"
  shows "shrinks ok lab w w' \<and> (ok w \<and> r = Inr () \<longrightarrow> (\<forall>n \<in> set ns. lab w' a n = None))"
  using assms
proof (induction ns arbitrary: w)
  case (Cons n ns)
  obtain r1 w1 where c: "reap D a n w = (r1, w1)" by force
  from reap_steps[OF c] have 1: "shrinks ok lab w w1" and ev: "ok w \<and> r1 = Inr () \<longrightarrow> lab w1 a n = None" by auto
  show ?case
  proof (cases r1)
    case (Inl e)
    with Cons.prems c 1 show ?thesis by auto
  next
    case (Inr u)
    then have "reap_names D a ns w1 = (r, w')" using Cons.prems c by simp
    from Cons.IH[OF this] have 2: "shrinks ok lab w1 w'"
      and ev2: "ok w1 \<and> r = Inr () \<longrightarrow> (\<forall>n \<in> set ns. lab w' a n = None)" by auto
    have "lab w' a n = None" if "ok w"
      using shrinks_None[OF 2 shrinks_ok[OF 1 that]] ev that Inr by simp
    with ev2 shrinks_trans[OF 1 2] shrinks_ok[OF 1] show ?thesis by auto
  qed
qed simp

text \<open>A container of the deployment's earlier attempts: managed, its label, another generation.\<close>

definition leftover :: "deploy_plan \<Rightarrow> labels \<Rightarrow> bool" where
  "leftover p ls \<longleftrightarrow> dict_get ls (label ''managed'') = Some ''true'' \<and>
     dict_get ls (label ''deployment'') = Some (p_id p) \<and>
     dict_get ls (label ''generation'') \<noteq> Some (str_of_nat (p_generation p))"

lemma stale_names_steps:
  assumes st: "stale_names D p rp w = (r, w')" and i: "p_id p \<noteq> []"
  shows "shrinks ok lab w w' \<and> (\<forall>ns. ok w \<and> r = Inr ns \<longrightarrow>
      (\<forall>n ls. lab w' (rp_node rp) n = Some ls \<and> leftover p ls \<longrightarrow> n \<in> set ns))"
proof -
  let ?a = "rp_node rp" and ?want = "[(label ''deployment'', p_id p)]" and ?t = "cs_name (rp_container rp)"
  obtain r1 w1 where c1: "ks_list D ?a ?want w = (r1, w1)" by force
  obtain r2 w2 where c2: "ks_status D ?a ?t w1 = (r2, w2)" by force
  note 1 = call_steps(3)[OF c1]
  note 2 = shrinks_trans[OF 1 call_steps(2)[OF c2]]
  show ?thesis
  proof (cases r1)
    case (Inl e)
    with st c1 1 show ?thesis by (auto simp: stale_names_def)
  next
    case (Inr cs)
    define names where "names = map ci_name (filter (\<lambda>c. dict_get (ci_labels c) (label ''generation'')
                          \<noteq> Some (str_of_nat (p_generation p))) cs)"
    have all: "n \<in> set names" if h: "ok w" "lab w1 ?a n = Some ls" "leftover p ls" for n ls
    proof -
      have "labels_match ls ?want" using h(3) i by (simp add: labels_match_def leftover_def)
      moreover have "\<forall>(k, v) \<in> set ?want. CHR ''='' \<notin> set k" by (simp add: label_def)
      ultimately obtain x where "x \<in> set cs" "ci_name x = n" "ci_labels x = ls"
        using list_complete[OF h(1) c1[unfolded Inr] h(2)] h(3) by (auto simp: leftover_def)
      then show ?thesis using h(3) by (auto simp: names_def leftover_def)
    qed
    have res: "(r, w') = (if ?t \<in> set names then (Inr names, w1)
        else case r2 of Inl _ \<Rightarrow> (Inr names, w2)
          | Inr s \<Rightarrow> (Inr (if is_confirmed_gone s then names else names @ [?t]), w2))"
      using st unfolding stale_names_def Let_def c1 Inr prod.case sum.case names_def[symmetric] c2
      by (cases r2) auto
    then have "shrinks ok lab w w'" and ns: "\<exists>ns. r = Inr ns \<and> set names \<subseteq> set ns" and sh: "shrinks ok lab w1 w'"
      using 1 2 call_steps(2)[OF c2] by (auto split: if_splits sum.splits)
    moreover have "lab w' ?a n = Some ls \<Longrightarrow> ok w \<Longrightarrow> lab w1 ?a n = Some ls" for n ls
      using sh shrinks_ok[OF 1] unfolding shrinks_def by (metis option.distinct(1))
    ultimately show ?thesis using all by blast
  qed
qed

lemma reap_ranks_steps:
  assumes "reap_ranks D p rps w = (r, w')" and i: "p_id p \<noteq> []"
  shows "shrinks ok lab w w' \<and> (ok w \<and> r = Inr () \<longrightarrow>
      (\<forall>rp \<in> set rps. \<forall>n ls. lab w' (rp_node rp) n = Some ls \<longrightarrow> \<not> leftover p ls))"
  using assms(1)
proof (induction rps arbitrary: w)
  case (Cons rp rps)
  let ?a = "rp_node rp"
  show ?case
  proof (cases "ks_resolve D ?a w")
    case (Inl e)
    with Cons.prems show ?thesis by auto
  next
    case (Inr u)
    obtain r1 w1 where c1: "stale_names D p rp w = (r1, w1)" by force
    from stale_names_steps[OF c1 i] have 1: "shrinks ok lab w w1"
      and st: "\<forall>ns. ok w \<and> r1 = Inr ns \<longrightarrow> (\<forall>n ls. lab w1 ?a n = Some ls \<and> leftover p ls \<longrightarrow> n \<in> set ns)"
      by auto
    show ?thesis
    proof (cases r1)
      case (Inl e)
      with Cons.prems c1 \<open>ks_resolve D ?a w = Inr u\<close> 1 show ?thesis by auto
    next
      case (Inr ns)
      obtain r2 w2 where c2: "reap_names D ?a ns w1 = (r2, w2)" by force
      from reap_names_steps[OF c2] have 2: "shrinks ok lab w1 w2"
        and gone: "ok w1 \<and> r2 = Inr () \<longrightarrow> (\<forall>n \<in> set ns. lab w2 ?a n = None)" by auto
      show ?thesis
      proof (cases r2)
        case (Inl e)
        with Cons.prems c1 c2 Inr \<open>ks_resolve D ?a w = Inr u\<close> shrinks_trans[OF 1 2] show ?thesis by auto
      next
        case (Inr v)
        then have "reap_ranks D p rps w2 = (r, w')"
          using Cons.prems c1 c2 \<open>r1 = Inr ns\<close> \<open>ks_resolve D ?a w = Inr u\<close> by simp
        from Cons.IH[OF this] have 3: "shrinks ok lab w2 w'"
          and rest: "ok w2 \<and> r = Inr () \<longrightarrow> (\<forall>rp \<in> set rps. \<forall>n ls. lab w' (rp_node rp) n = Some ls \<longrightarrow> \<not> leftover p ls)"
          by auto
        have "\<not> leftover p ls" if ok: "ok w" and "lab w' ?a n = Some ls" for n ls
        proof
          assume lo: "leftover p ls"
          have ok1: "ok w1" and ok2: "ok w2" using shrinks_ok[OF 1 ok] shrinks_ok[OF 2] by auto
          have l2: "lab w2 ?a n = Some ls" using 3 ok2 that(2) unfolding shrinks_def by (metis option.distinct(1))
          have "lab w1 ?a n = Some ls" using 2 ok1 l2 unfolding shrinks_def by (metis option.distinct(1))
          with st ok lo \<open>r1 = Inr ns\<close> have "n \<in> set ns" by blast
          with gone ok1 Inr l2 show False by auto
        qed
        with rest shrinks_trans[OF shrinks_trans[OF 1 2] 3] shrinks_ok[OF shrinks_trans[OF 1 2]]
        show ?thesis by auto
      qed
    qed
  qed
qed simp

end

end
