(* ===== verification/Gang_Launch.thy ===== *)
theory Gang_Launch
  imports Gang_Safety
begin

text \<open>
  The section of the start under the lifecycle lock: a failure in it leaves nothing of the gang
  unaccounted. The record a locked section settles carries, as an orphan, every rank whose
  container is not confirmed gone. The ranks' container names are distinct (they carry the rank
  and the generation).
\<close>

section \<open>Accounting for a gang\<close>

abbreviation rp_name :: "rank_plan \<Rightarrow> string" where
  "rp_name rp \<equiv> cs_name (rp_container rp)"

definition rank_absent :: "('w \<Rightarrow> string \<Rightarrow> string \<Rightarrow> labels option) \<Rightarrow> 'w \<Rightarrow> rank_plan \<Rightarrow> bool" where
  "rank_absent lab w rp \<longleftrightarrow> lab w (rp_node rp) (rp_name rp) = None"

definition orphans_of :: "string \<Rightarrow> 'w gang \<Rightarrow> orphan list" where
  "orphans_of i s = (case get_deployment i s of None \<Rightarrow> [] | Some r \<Rightarrow> d_orphans r)"

definition gang_accounted :: "('w \<Rightarrow> string \<Rightarrow> string \<Rightarrow> labels option) \<Rightarrow> string \<Rightarrow> rank_plan list \<Rightarrow> 'w gang \<Rightarrow> bool" where
  "gang_accounted lab i rps s \<longleftrightarrow> (\<forall>rp \<in> set rps. accounted lab (g_world s) (orphans_of i s) (rank_record rp))"

lemma rank_record_simps [simp]:
  "re_rank (rank_record rp) = rp_rank rp" "re_node (rank_record rp) = rp_node rp"
  "re_container (rank_record rp) = rp_name rp"
  by (simp_all add: rank_record_def)

lemma rank_absent_accounted: "rank_absent lab w rp \<Longrightarrow> accounted lab w os (rank_record rp)"
  by (simp add: rank_absent_def accounted_def)

text \<open>What a step may do to the containers: only those named may appear.\<close>

definition makes_only :: "('w \<Rightarrow> bool) \<Rightarrow> ('w \<Rightarrow> string \<Rightarrow> string \<Rightarrow> labels option) \<Rightarrow> string set \<Rightarrow> 'w \<Rightarrow> 'w \<Rightarrow> bool" where
  "makes_only ok lab ns w w' \<longleftrightarrow> (ok w \<longrightarrow> ok w' \<and> (\<forall>a n. n \<notin> ns \<longrightarrow> lab w' a n = None \<or> lab w' a n = lab w a n))"

lemma shrinks_makes: "shrinks ok lab w w' \<Longrightarrow> makes_only ok lab ns w w'"
  by (simp add: shrinks_def makes_only_def)

lemma makes_only_trans: "makes_only ok lab ns w w' \<Longrightarrow> makes_only ok lab ns w' w'' \<Longrightarrow> makes_only ok lab ns w w''"
  unfolding makes_only_def by metis

lemma makes_only_absent: "makes_only ok lab ns w w' \<Longrightarrow> ok w \<Longrightarrow> rp_name rp \<notin> ns \<Longrightarrow> rank_absent lab w rp \<Longrightarrow> rank_absent lab w' rp"
  unfolding makes_only_def rank_absent_def by metis

lemma makes_only_ok: "makes_only ok lab ns w w' \<Longrightarrow> ok w \<Longrightarrow> ok w'"
  by (simp add: makes_only_def)

context node_service_laws begin

lemma create_rank_steps:
  assumes "create_rank D p rp s = (r, s')"
  shows "g_recs s' = g_recs s \<and> g_pulls s' = g_pulls s \<and>
    makes_only ok lab {rp_name rp} (g_world s) (g_world s')"
proof -
  let ?a = "rp_node rp" and ?sp = "rp_container rp" and ?i = "p_id p"
  obtain warns w1 where c1: "make_bind_sources D rp (g_world s) = (warns, w1)" by force
  obtain r2 w2 where c2: "ks_run D ?a ?sp w1 = (r2, w2)" by force
  obtain r3 w3 where c3: "apply_mods D p ?a (rp_name rp) (p_mods p) w2 = (r3, w3)" by force
  have 1: "makes_only ok lab {rp_name rp} (g_world s) w1"
    using make_bind_sources_shrinks[of "g_world s" rp] c1 by (auto intro: shrinks_makes)
  have "makes_only ok lab {rp_name rp} w1 w2"
    using run_ok[of w1 ?a ?sp] run_only[of w1 ?a ?sp] c2 unfolding makes_only_def by auto
  note 2 = makes_only_trans[OF 1 this]
  have "makes_only ok lab {rp_name rp} w2 w3"
    using apply_mods_shrinks[of w2 p ?a "rp_name rp" "p_mods p"] c3 by (auto intro: shrinks_makes)
  note 3 = makes_only_trans[OF 2 this]
  show ?thesis
  proof (cases r2)
    case (Inl e)
    with assms c1 c2 2 show ?thesis by (auto simp: create_rank_def)
  next
    case (Inr u)
    note r2 = Inr
    show ?thesis
    proof (cases r3)
      case (Inl e)
      with assms c1 c2 c3 r2 3 show ?thesis by (auto simp: create_rank_def Let_def)
    next
      case (Inr k)
      with assms c1 c2 c3 r2 3 show ?thesis by (auto simp: create_rank_def Let_def split: if_splits)
    qed
  qed
qed

text \<open>\<open>_fail\<close>: the record, if there is one, is in error and carries the orphans.\<close>

lemma start_fail_result:
  assumes rs: "recs_ok (g_recs s)" and sf: "start_fail D p rec m os logs s = (r, s')"
  shows "recs_ok (g_recs s') \<and> g_world s' = g_world s \<and> g_pulls s' = g_pulls s \<and>
    (\<forall>j. j \<noteq> p_id p \<longrightarrow> get_deployment j s' = get_deployment j s) \<and>
    rel_option (\<lambda>x y. d_status y = ''error'' \<and> d_orphans y = os \<and> d_ranks y = d_ranks x \<and>
        d_error_message y = Some (error_text m)) (get_deployment (p_id p) s) (get_deployment (p_id p) s')"
proof -
  let ?now = "ks_now D (g_world s)" and ?t = "error_text m"
  let ?f = "\<lambda>r. r\<lparr>d_status := ''error'', d_error_message := Some ?t, d_stopped_at := Some (Some ?now),
      d_orphans := os, d_final_logs := logs\<rparr>"
  let ?s = "publish ''deployment_error'' (p_id p) ?t s"
  have u: "record_error ?now (p_id p) m (\<lambda>r. r\<lparr>d_orphans := os, d_final_logs := logs\<rparr>) s = update_record (p_id p) ?f ?s"
    by (simp add: record_error_def Let_def)
  have g: "get_deployment j (snd (update_record (p_id p) ?f ?s)) =
      (if j = p_id p then map_option (redact_record \<circ> ?f) (get_deployment (p_id p) s) else get_deployment j s)" for j
    using get_update_record[of ?s ?f j "p_id p"] rs by simp
  have s': "s' = snd (update_record (p_id p) ?f ?s)"
    using sf unfolding start_fail_def u by (auto split: prod.splits option.splits)
  show ?thesis
    using g rs update_record_ok[of ?s "p_id p" ?f]
    by (cases "get_deployment (p_id p) s") (auto simp: s')
qed

lemma settle_stopped_result:
  assumes rs: "recs_ok (g_recs s)" and sf: "settle_stopped D p rec m s = (r, s')"
  shows "recs_ok (g_recs s') \<and> g_world s' = g_world s \<and> g_pulls s' = g_pulls s \<and>
    (\<forall>j. j \<noteq> p_id p \<longrightarrow> get_deployment j s' = get_deployment j s) \<and>
    rel_option (\<lambda>x y. d_status y = ''stopped'' \<and> d_orphans y = d_orphans x \<and> d_ranks y = d_ranks x)
      (get_deployment (p_id p) s) (get_deployment (p_id p) s')"
proof -
  let ?f = "\<lambda>r. r\<lparr>d_status := ''stopped'', d_stopped_at := Some (Some (ks_now D (g_world s)))\<rparr>"
  let ?s = "publish ''deployment_stopped'' (p_id p) m s"
  have g: "get_deployment j (snd (update_record (p_id p) ?f ?s)) =
      (if j = p_id p then map_option (redact_record \<circ> ?f) (get_deployment (p_id p) s) else get_deployment j s)" for j
    using get_update_record[of ?s ?f j "p_id p"] rs by simp
  have s': "s' = snd (update_record (p_id p) ?f ?s)"
    using sf unfolding settle_stopped_def by (auto split: prod.splits option.splits)
  show ?thesis
    using g rs update_record_ok[of ?s "p_id p" ?f]
    by (cases "get_deployment (p_id p) s") (auto simp: s')
qed

subsection \<open>Aborting\<close>

lemma abort_result:
  assumes rs: "recs_ok (g_recs s)" and ok: "ok (g_world s)" and g: "get_deployment (p_id p) s = Some x"
    and ab: "abort D p rec rp m ph touched s = (r, s')"
    and rest: "\<forall>q \<in> set (p_ranks p). q \<in> set (touched @ [rp]) \<or> rank_absent lab (g_world s) q"
  shows "recs_ok (g_recs s') \<and> shrinks ok lab (g_world s) (g_world s') \<and> g_pulls s' = g_pulls s \<and>
    (\<forall>j. j \<noteq> p_id p \<longrightarrow> get_deployment j s' = get_deployment j s) \<and>
    (\<exists>y. get_deployment (p_id p) s' = Some y \<and> d_status y = ''error'' \<and> d_ranks y = d_ranks x) \<and>
    gang_accounted lab (p_id p) (p_ranks p) s'"
proof -
  let ?pend = "if rp \<in> set touched then touched else touched @ [rp]"
  obtain os logs w where t: "teardown_entries D (map rank_record ?pend) (g_world s) = (os, logs, w)"
    by (cases "teardown_entries D (map rank_record ?pend) (g_world s)") auto
  let ?s = "s\<lparr>g_world := w\<rparr>"
  have sh: "shrinks ok lab (g_world s) w" using teardown_entries_shrinks[of "g_world s" "map rank_record ?pend"] t by simp
  obtain m' where "start_fail D p rec m' os logs ?s = (r, s')"
    using ab t by (auto simp: abort_def Let_def)
  from start_fail_result[OF _ this] rs have f: "recs_ok (g_recs s')" "g_world s' = w" "g_pulls s' = g_pulls s"
      "\<forall>j. j \<noteq> p_id p \<longrightarrow> get_deployment j s' = get_deployment j ?s"
    and rel: "rel_option (\<lambda>x y. d_status y = ''error'' \<and> d_orphans y = os \<and> d_ranks y = d_ranks x \<and>
        d_error_message y = Some (error_text m')) (get_deployment (p_id p) ?s) (get_deployment (p_id p) s')" by auto
  have gs: "get_deployment j ?s = get_deployment j s" for j by (simp add: get_deployment_def)
  from rel gs g obtain y where y: "get_deployment (p_id p) s' = Some y" "d_status y = ''error''" "d_orphans y = os"
      "d_ranks y = d_ranks x" by (auto simp: option_rel_Some1)
  have "accounted lab w os (rank_record q)" if q: "q \<in> set (p_ranks p)" for q
  proof (cases "q \<in> set (touched @ [rp])")
    case True
    then have "rank_record q \<in> set (map rank_record ?pend)" by (auto split: if_splits)
    with teardown_entries_accounted[OF ok t] show ?thesis by blast
  next
    case False
    with rest q have "rank_absent lab (g_world s) q" by blast
    then have "rank_absent lab w q" using shrinks_None[OF sh ok] by (simp add: rank_absent_def)
    then show ?thesis by (rule rank_absent_accounted)
  qed
  with f gs sh y show ?thesis by (auto simp: gang_accounted_def orphans_of_def)
qed

subsection \<open>Creating the gang\<close>

lemma create_all_result:
  assumes rs: "recs_ok (g_recs s)" and ok: "ok (g_world s)" and g: "get_deployment (p_id p) s = Some x"
    and dist: "distinct (map rp_name (touched @ todo))" and set: "set (p_ranks p) = set (touched @ todo)"
    and abs: "\<forall>q \<in> set todo. rank_absent lab (g_world s) q"
    and run: "create_all D p rec todo touched warns s = (ph, s')"
  shows "recs_ok (g_recs s') \<and> makes_only ok lab (rp_name ` set todo) (g_world s) (g_world s') \<and> g_pulls s' = g_pulls s \<and>
    (\<forall>j. j \<noteq> p_id p \<longrightarrow> get_deployment j s' = get_deployment j s) \<and>
    (case ph of
       Next (t', ws) \<Rightarrow> t' = touched @ todo \<and> g_recs s' = g_recs s
     | Halt r \<Rightarrow> (\<exists>y. get_deployment (p_id p) s' = Some y \<and> d_status y = ''error'' \<and> d_ranks y = d_ranks x) \<and>
         gang_accounted lab (p_id p) (p_ranks p) s'
     | Raise e \<Rightarrow> (\<forall>m. e \<noteq> NativeError m) \<and> g_recs s' = g_recs s)"
  using assms
proof (induction todo arbitrary: touched warns s)
  case Nil
  then show ?case by (auto simp: makes_only_def)
next
  case (Cons rp rps)
  note rs = Cons.prems(1) and ok = Cons.prems(2) and g = Cons.prems(3) and dist = Cons.prems(4)
    and set = Cons.prems(5) and abs = Cons.prems(6) and run = Cons.prems(7)
  let ?ns = "rp_name ` set (rp # rps)"
  have failed: "recs_ok (g_recs s') \<and> makes_only ok lab ?ns (g_world s1) (g_world s') \<and> g_pulls s' = g_pulls s \<and>
      (\<forall>j. j \<noteq> p_id p \<longrightarrow> get_deployment j s' = get_deployment j s) \<and>
      (case ph of
         Next (t', ws) \<Rightarrow> False
       | Halt r \<Rightarrow> (\<exists>y. get_deployment (p_id p) s' = Some y \<and> d_status y = ''error'' \<and> d_ranks y = d_ranks x) \<and>
           gang_accounted lab (p_id p) (p_ranks p) s'
       | Raise e \<Rightarrow> (\<forall>m. e \<noteq> NativeError m) \<and> g_recs s' = g_recs s)"
    if f: "rank_failed D p rec rp e ''start'' touched s1 = (ph, s')" and s1: "g_recs s1 = g_recs s" "g_pulls s1 = g_pulls s"
      and mk: "makes_only ok lab {rp_name rp} (g_world s) (g_world s1)" for e s1
  proof (cases "\<exists>m. e = NativeError m")
    case True
    then obtain m r where ab: "abort D p rec rp m ''start'' touched s1 = (r, s')" and ph: "ph = Halt r"
      using f by (auto simp: rank_failed_def split: prod.splits)
    have get1: "get_deployment j s1 = get_deployment j s" for j by (rule get_deployment_cong[OF s1(1)])
    have "\<forall>q \<in> set (p_ranks p). q \<in> set (touched @ [rp]) \<or> rank_absent lab (g_world s1) q"
    proof (intro ballI)
      fix q assume "q \<in> set (p_ranks p)"
      then have "q \<in> set (touched @ [rp]) \<or> q \<in> set rps" using set by auto
      moreover have "rank_absent lab (g_world s1) q" if "q \<in> set rps"
        using makes_only_absent[OF mk ok, of q] that dist abs by (auto simp: image_iff)
      ultimately show "q \<in> set (touched @ [rp]) \<or> rank_absent lab (g_world s1) q" by blast
    qed
    from abort_result[OF _ _ _ ab this] rs s1 get1 g makes_only_ok[OF mk ok] ph show ?thesis
      by (auto intro: shrinks_makes)
  next
    case False
    then have "ph = Raise e" "s' = s1" using f by (auto simp: rank_failed_def split: exc.splits)
    then show ?thesis
      using False s1 rs get_deployment_cong[OF s1(1)] by (auto simp: makes_only_def)
  qed
  have wide: "makes_only ok lab ?ns w w'" if "makes_only ok lab {rp_name rp} w w'" for w w'
    using that by (auto simp: makes_only_def)
  show ?case
  proof (cases "ks_resolve D (rp_node rp) (g_world s)")
    case (Inl e)
    with run have "rank_failed D p rec rp e ''start'' touched s = (ph, s')" by simp
    from failed[OF this] show ?thesis by (auto simp: makes_only_def split: phase.splits)
  next
    case (Inr u)
    obtain r1 s1 where c: "create_rank D p rp s = (r1, s1)" by force
    from create_rank_steps[OF c] have s1: "g_recs s1 = g_recs s" "g_pulls s1 = g_pulls s"
      and mk: "makes_only ok lab {rp_name rp} (g_world s) (g_world s1)" by auto
    show ?thesis
    proof (cases r1)
      case (Inl e)
      with run c \<open>ks_resolve D (rp_node rp) (g_world s) = Inr u\<close>
      have "rank_failed D p rec rp e ''start'' touched s1 = (ph, s')" by simp
      from failed[OF this s1 mk] makes_only_trans[OF wide[OF mk]] show ?thesis by (auto split: phase.splits)
    next
      case (Inr ws)
      with run c \<open>ks_resolve D (rp_node rp) (g_world s) = Inr u\<close>
      have rec: "create_all D p rec rps (touched @ [rp]) (warns @ ws) s1 = (ph, s')" by simp
      have get1: "get_deployment j s1 = get_deployment j s" for j by (rule get_deployment_cong[OF s1(1)])
      have "\<forall>q \<in> set rps. rank_absent lab (g_world s1) q"
        using makes_only_absent[OF mk ok] dist abs by (auto simp: image_iff)
      from Cons.IH[OF _ _ _ _ _ this rec] rs s1 get1 g makes_only_ok[OF mk ok] dist set
      have ih: "recs_ok (g_recs s') \<and> makes_only ok lab (rp_name ` set rps) (g_world s1) (g_world s') \<and> g_pulls s' = g_pulls s1 \<and>
        (\<forall>j. j \<noteq> p_id p \<longrightarrow> get_deployment j s' = get_deployment j s1) \<and>
        (case ph of
           Next (t', ws) \<Rightarrow> t' = (touched @ [rp]) @ rps \<and> g_recs s' = g_recs s1
         | Halt r \<Rightarrow> (\<exists>y. get_deployment (p_id p) s' = Some y \<and> d_status y = ''error'' \<and> d_ranks y = d_ranks x) \<and>
             gang_accounted lab (p_id p) (p_ranks p) s'
         | Raise e \<Rightarrow> (\<forall>m. e \<noteq> NativeError m) \<and> g_recs s' = g_recs s1)" by simp
      moreover have "makes_only ok lab ?ns (g_world s1) (g_world s')"
        using ih by (auto simp: makes_only_def)
      ultimately show ?thesis
        using s1 get1 makes_only_trans[OF wide[OF mk]] by (auto split: phase.splits)
    qed
  qed
qed

subsection \<open>Launching the gang\<close>

lemma launch_all_result:
  assumes rs: "recs_ok (g_recs s)" and ok: "ok (g_world s)" and g: "get_deployment (p_id p) s = Some x"
    and set: "set (p_ranks p) \<subseteq> set touched" and run: "launch_all D k p rec rps touched s = (ph, s')"
  shows "recs_ok (g_recs s') \<and> shrinks ok lab (g_world s) (g_world s') \<and> g_pulls s' = g_pulls s \<and>
    (\<forall>j. j \<noteq> p_id p \<longrightarrow> get_deployment j s' = get_deployment j s) \<and>
    (case ph of
       Next _ \<Rightarrow> g_recs s' = g_recs s
     | Halt r \<Rightarrow> (\<exists>y. get_deployment (p_id p) s' = Some y \<and> d_status y = ''error'' \<and> d_ranks y = d_ranks x) \<and>
         gang_accounted lab (p_id p) (p_ranks p) s'
     | Raise e \<Rightarrow> (\<forall>m. e \<noteq> NativeError m) \<and> g_recs s' = g_recs s)"
  using rs ok g run
proof (induction rps arbitrary: s)
  case (Cons rp rps)
  note rs = Cons.prems(1) and ok = Cons.prems(2) and g = Cons.prems(3) and run = Cons.prems(4)
  have failed: "recs_ok (g_recs s') \<and> shrinks ok lab (g_world s) (g_world s') \<and> g_pulls s' = g_pulls s \<and>
      (\<forall>j. j \<noteq> p_id p \<longrightarrow> get_deployment j s' = get_deployment j s) \<and>
      (case ph of
         Next _ \<Rightarrow> False
       | Halt r \<Rightarrow> (\<exists>y. get_deployment (p_id p) s' = Some y \<and> d_status y = ''error'' \<and> d_ranks y = d_ranks x) \<and>
           gang_accounted lab (p_id p) (p_ranks p) s'
       | Raise e \<Rightarrow> (\<forall>m. e \<noteq> NativeError m) \<and> g_recs s' = g_recs s)"
    if f: "rank_failed D p rec rp e ''launch'' touched (s\<lparr>g_world := w\<rparr>) = (ph, s')"
      and sh: "shrinks ok lab (g_world s) w" for e w
  proof (cases "\<exists>m. e = NativeError m")
    case True
    let ?s = "s\<lparr>g_world := w\<rparr>"
    from True obtain m r where ab: "abort D p rec rp m ''launch'' touched ?s = (r, s')" and ph: "ph = Halt r"
      using f by (auto simp: rank_failed_def split: prod.splits)
    have get1: "get_deployment j ?s = get_deployment j s" for j by (simp add: get_deployment_def)
    have "\<forall>q \<in> set (p_ranks p). q \<in> set (touched @ [rp]) \<or> rank_absent lab (g_world ?s) q" using set by auto
    from abort_result[OF _ _ _ ab this] rs get1 g shrinks_ok[OF sh ok] shrinks_trans[OF sh] ph show ?thesis by auto
  next
    case False
    then have "ph = Raise e" "s' = s\<lparr>g_world := w\<rparr>" using f by (auto simp: rank_failed_def split: exc.splits)
    then show ?thesis using False sh rs by (auto simp: get_deployment_def)
  qed
  obtain r1 w1 where c1: "(if rp_is_head rp then wait_rpc_workers D k p (g_world s) else (Inr (), g_world s)) = (r1, w1)"
    by force
  obtain r2 w2 where c2: "launch_rank D rp w1 = (r2, w2)" by force
  have 1: "shrinks ok lab (g_world s) w1"
    using c1 wait_rpc_shrinks[of "g_world s" k p] by (auto split: if_splits)
  have 2: "shrinks ok lab (g_world s) w2" using shrinks_trans[OF 1] launch_rank_shrinks[of w1 rp] c2 by simp
  show ?case
  proof (cases r1)
    case (Inl e)
    with run c1 have "rank_failed D p rec rp e ''launch'' touched (s\<lparr>g_world := w1\<rparr>) = (ph, s')" by simp
    from failed[OF this 1] show ?thesis by (auto split: phase.splits)
  next
    case (Inr u)
    note r1 = Inr
    show ?thesis
    proof (cases "ks_resolve D (rp_node rp) w1")
      case (Inl e)
      with run c1 r1 have "rank_failed D p rec rp e ''launch'' touched (s\<lparr>g_world := w1\<rparr>) = (ph, s')" by simp
      from failed[OF this 1] show ?thesis by (auto split: phase.splits)
    next
      case (Inr v)
      note res = Inr
      show ?thesis
      proof (cases r2)
        case (Inl e)
        with run c1 c2 r1 res have "rank_failed D p rec rp e ''launch'' touched (s\<lparr>g_world := w2\<rparr>) = (ph, s')" by simp
        from failed[OF this 2] show ?thesis by (auto split: phase.splits)
      next
        case (Inr z)
        let ?s = "s\<lparr>g_world := w2\<rparr>"
        have rec: "launch_all D k p rec rps touched ?s = (ph, s')" using run c1 c2 r1 res Inr by simp
        have get1: "get_deployment j ?s = get_deployment j s" for j by (simp add: get_deployment_def)
        from Cons.IH[OF _ _ _ rec] rs g get1 shrinks_ok[OF 2 ok] shrinks_trans[OF 2] show ?thesis
          by (auto split: phase.splits)
      qed
    qed
  qed
qed auto

subsection \<open>The locked section\<close>

text \<open>
  The section as a whole. When it settles the deployment itself, every rank of the plan is
  accounted for; when it raises, the record is as it was; when it goes on, the record is starting.
\<close>

lemma launch_locked_result:
  assumes rs: "recs_ok (g_recs s)" and ok: "ok (g_world s)"
    and dist: "distinct (map rp_name (p_ranks p))" and abs: "\<forall>q \<in> set (p_ranks p). rank_absent lab (g_world s) q"
    and run: "launch_locked D k p rec s = (ph, s')"
  shows "recs_ok (g_recs s') \<and> makes_only ok lab (rp_name ` set (p_ranks p)) (g_world s) (g_world s') \<and>
    g_pulls s' = g_pulls s \<and> (\<forall>j. j \<noteq> p_id p \<longrightarrow> get_deployment j s' = get_deployment j s) \<and>
    (case ph of
       Next r \<Rightarrow> rel_option (\<lambda>x y. d_status y = ''starting'' \<and> d_ranks y = d_ranks x \<and> d_orphans y = d_orphans x)
         (get_deployment (p_id p) s) (get_deployment (p_id p) s') \<and> get_deployment (p_id p) s \<noteq> None
     | Halt r \<Rightarrow> rel_option (\<lambda>x y. d_status y \<in> {''error'', ''stopped''} \<and> d_ranks y = d_ranks x)
         (get_deployment (p_id p) s) (get_deployment (p_id p) s') \<and>
         gang_accounted lab (p_id p) (p_ranks p) s'
     | Raise e \<Rightarrow> (\<forall>m. e \<noteq> NativeError m) \<and> g_recs s' = g_recs s)"
proof (cases "teardown_requested (p_id p) s")
  case True
  then obtain r m where c: "settle_stopped D p rec m s = (r, s')" and ph: "ph = Halt r"
    using run by (auto simp: launch_locked_def cancelled_def split: prod.splits)
  from settle_stopped_result[OF rs c] abs ph show ?thesis
    by (auto simp: makes_only_def gang_accounted_def rank_absent_accounted elim!: option.rel_mono_strong)
next
  case False
  then obtain x where g: "get_deployment (p_id p) s = Some x"
    by (auto simp: teardown_requested_def is_torn_down_def split: option.splits)
  obtain ph1 s1 where c1: "create_all D p rec (teardown_order p) [] (p_warnings p) s = (ph1, s1)" by force
  have abs': "\<forall>q \<in> set (teardown_order p). rank_absent lab (g_world s) q" using abs by (simp add: teardown_order_def)
  have r1: "recs_ok (g_recs s1)" "makes_only ok lab (rp_name ` set (p_ranks p)) (g_world s) (g_world s1)"
    "g_pulls s1 = g_pulls s" "\<forall>j. j \<noteq> p_id p \<longrightarrow> get_deployment j s1 = get_deployment j s"
    "case ph1 of
       Next (t', ws) \<Rightarrow> t' = p_ranks p \<and> g_recs s1 = g_recs s
     | Halt r \<Rightarrow> (\<exists>y. get_deployment (p_id p) s1 = Some y \<and> d_status y = ''error'' \<and> d_ranks y = d_ranks x) \<and>
         gang_accounted lab (p_id p) (p_ranks p) s1
     | Raise e \<Rightarrow> (\<forall>m. e \<noteq> NativeError m) \<and> g_recs s1 = g_recs s"
    using create_all_result[OF rs ok g _ _ abs' c1] dist by (auto simp: teardown_order_def split: phase.splits)
  show ?thesis
  proof (cases ph1)
    case (Halt r)
    then have "ph = Halt r" "s' = s1" using run False c1 by (auto simp: launch_locked_def)
    with r1 Halt g show ?thesis by auto
  next
    case (Raise e)
    then have "ph = Raise e" "s' = s1" using run False c1 by (auto simp: launch_locked_def)
    with r1 Raise show ?thesis by auto
  next
    case (Next tw)
    obtain t' ws where tw: "tw = (t', ws)" by force
    with r1(5) Next have t': "t' = p_ranks p" and same: "g_recs s1 = g_recs s" by auto
    have g1: "get_deployment j s1 = get_deployment j s" for j by (rule get_deployment_cong[OF same])
    have "\<not> teardown_requested (p_id p) s1"
      using False g1 r1(3) by (simp add: teardown_requested_def is_torn_down_def pull_cancel_requested_def)
    obtain ph2 s2 where c2: "launch_all D k p rec (start_order p) (p_ranks p) s1 = (ph2, s2)" by force
    from launch_all_result[OF r1(1) makes_only_ok[OF r1(2) ok] g1[of "p_id p", unfolded g] _ c2]
    have r2: "recs_ok (g_recs s2)" "shrinks ok lab (g_world s1) (g_world s2)" "g_pulls s2 = g_pulls s"
      "\<forall>j. j \<noteq> p_id p \<longrightarrow> get_deployment j s2 = get_deployment j s"
      "case ph2 of
         Next _ \<Rightarrow> g_recs s2 = g_recs s
       | Halt r \<Rightarrow> (\<exists>y. get_deployment (p_id p) s2 = Some y \<and> d_status y = ''error'' \<and> d_ranks y = d_ranks x) \<and>
           gang_accounted lab (p_id p) (p_ranks p) s2
       | Raise e \<Rightarrow> (\<forall>m. e \<noteq> NativeError m) \<and> g_recs s2 = g_recs s"
      using r1(3) same g1 by (auto split: phase.splits)
    have mk: "makes_only ok lab (rp_name ` set (p_ranks p)) (g_world s) (g_world s2)"
      by (rule makes_only_trans[OF r1(2) shrinks_makes[OF r2(2)]])
    have l: "launch_locked D k p rec s = (case launch_all D k p rec (start_order p) (p_ranks p) s1 of
                       (Halt r, s2) \<Rightarrow> (Halt r, s2)
                     | (Raise e, s2) \<Rightarrow> (Raise e, s2)
                     | (Next _, s2) \<Rightarrow>
                         (case update_record (p_id p)
                                 (\<lambda>r. r\<lparr>d_status := ''starting'', d_started_at := Some (ks_now D (g_world s2)),
                                        d_warnings := ws\<rparr>) s2 of
                            (r, s3) \<Rightarrow>
                              (Next (case r of None \<Rightarrow> rec | Some x \<Rightarrow> x),
                               publish ''deployment_serving'' (p_id p)
                                 (''launch script running in '' @ cs_name (p_container p)) s3)))"
      using False c1 Next tw t' \<open>\<not> teardown_requested (p_id p) s1\<close> by (simp add: launch_locked_def)
    show ?thesis
    proof (cases ph2)
      case (Halt r)
      then have "ph = Halt r" "s' = s2" using run l c2 by auto
      with r2 Halt g mk show ?thesis by auto
    next
      case (Raise e)
      then have "ph = Raise e" "s' = s2" using run l c2 by auto
      with r2 Raise mk show ?thesis by auto
    next
      case (Next u)
      let ?f = "\<lambda>r. r\<lparr>d_status := ''starting'', d_started_at := Some (ks_now D (g_world s2)), d_warnings := ws\<rparr>"
      obtain r s3 where up: "update_record (p_id p) ?f s2 = (r, s3)" by force
      then have s3: "s3 = snd (update_record (p_id p) ?f s2)" by simp
      have ph: "ph = Next (case r of None \<Rightarrow> rec | Some x \<Rightarrow> x)"
        and s': "s' = publish ''deployment_serving'' (p_id p) (''launch script running in '' @ cs_name (p_container p)) s3"
        using run l c2 Next up by auto
      have g2: "get_deployment j s2 = get_deployment j s" for j
        using r2(5) Next by (auto intro: get_deployment_cong)
      have "get_deployment j s' = (if j = p_id p then Some (redact_record (?f x)) else get_deployment j s)" for j
        using get_update_record[OF r2(1), of ?f j "p_id p"] g2 g by (simp add: s' s3)
      moreover have "recs_ok (g_recs s')" using update_record_ok[OF r2(1)] by (simp add: s' s3)
      ultimately show ?thesis using r2(3) mk g by (simp add: s' s3 ph)
    qed
  qed
qed

end

end
