(* ===== verification/Gang_Interleave.thy ===== *)
theory Gang_Interleave
  imports Gang_Launch
begin

text \<open>
  A start against everything that runs beside it. A pull takes tens of minutes and holds no lock,
  so while it runs, and while it sleeps between attempts, operators stop, delete and sweep, and
  containers die. \<open>operator_step\<close> is one such step; \<open>pull_meanwhile\<close> says that a pull lets any
  number of them happen. The section that creates and launches holds the lifecycle lock, so no
  stop or delete of this deployment falls into it.
\<close>

section \<open>Steps by others\<close>

inductive operator_step :: "'w node_services \<Rightarrow> ('w \<Rightarrow> bool) \<Rightarrow> ('w \<Rightarrow> string \<Rightarrow> string \<Rightarrow> labels option) \<Rightarrow>
    'w gang \<Rightarrow> 'w gang \<Rightarrow> bool"
  for D :: "'w node_services" and ok and lab where
  op_stop: "stop_deployment D i s = (r, s') \<Longrightarrow> operator_step D ok lab s s'"
| op_delete: "delete_deployment D i s = (b, s') \<Longrightarrow> operator_step D ok lab s s'"
| op_sweep: "sweep_orphans D only s = (n, s') \<Longrightarrow> operator_step D ok lab s s'"
| op_world: "shrinks ok lab (g_world s) w' \<Longrightarrow> operator_step D ok lab s (s\<lparr>g_world := w'\<rparr>)"

inductive_cases operator_stepE: "operator_step D ok lab s s'"

definition pull_meanwhile :: "'w node_services \<Rightarrow> ('w \<Rightarrow> bool) \<Rightarrow> ('w \<Rightarrow> string \<Rightarrow> string \<Rightarrow> labels option) \<Rightarrow>
    'w pulling \<Rightarrow> bool" where
  "pull_meanwhile D ok lab P \<longleftrightarrow>
     (\<forall>a ref src s. (operator_step D ok lab)\<^sup>*\<^sup>* s (snd (snd (pl_pull P a ref src s)))) \<and>
     (\<forall>n s. (operator_step D ok lab)\<^sup>*\<^sup>* s (pl_idle P n s))"

text \<open>A sound state stays sound and no container appears.\<close>

definition sound :: "('w \<Rightarrow> bool) \<Rightarrow> 'w gang \<Rightarrow> bool" where
  "sound ok s \<longleftrightarrow> recs_ok (g_recs s) \<and> ok (g_world s)"

definition quiet :: "('w \<Rightarrow> bool) \<Rightarrow> ('w \<Rightarrow> string \<Rightarrow> string \<Rightarrow> labels option) \<Rightarrow> 'w gang \<Rightarrow> 'w gang \<Rightarrow> bool" where
  "quiet ok lab s s' \<longleftrightarrow> (sound ok s \<longrightarrow> sound ok s' \<and> shrinks ok lab (g_world s) (g_world s'))"

lemma quiet_refl [simp]: "quiet ok lab s s"
  by (simp add: quiet_def)

lemma quiet_trans: "quiet ok lab s s' \<Longrightarrow> quiet ok lab s' s'' \<Longrightarrow> quiet ok lab s s''"
  unfolding quiet_def by (metis shrinks_trans)

lemma quiet_sound: "quiet ok lab s s' \<Longrightarrow> sound ok s \<Longrightarrow> sound ok s'"
  by (simp add: quiet_def)

lemma quiet_absent: "quiet ok lab s s' \<Longrightarrow> sound ok s \<Longrightarrow> rank_absent lab (g_world s) q \<Longrightarrow> rank_absent lab (g_world s') q"
  using shrinks_None[of ok lab "g_world s" "g_world s'"] by (auto simp: quiet_def sound_def rank_absent_def)

lemma quiet_same: "g_recs s' = g_recs s \<Longrightarrow> g_world s' = g_world s \<Longrightarrow> quiet ok lab s s'"
  by (simp add: quiet_def sound_def)

lemma quiet_world: "shrinks ok lab (g_world s) w \<Longrightarrow> quiet ok lab s (s\<lparr>g_world := w\<rparr>)"
  using shrinks_ok by (auto simp: quiet_def sound_def)

lemma quiet_update: "quiet ok lab s (snd (update_record i f s))"
  by (simp add: quiet_def sound_def update_record_ok)

lemma quiet_publish: "quiet ok lab s (publish t i m s)"
  by (rule quiet_same) simp_all

lemma publish_progress_frame [simp]:
  "g_recs (publish_progress i ref snaps s) = g_recs s" "g_world (publish_progress i ref snaps s) = g_world s"
  "g_pulls (publish_progress i ref snaps s) = g_pulls s"
  by (induction snaps arbitrary: s) (simp_all add: publish_progress_def)

lemma quiet_progress: "quiet ok lab s (publish_progress i ref snaps s)"
  by (rule quiet_same) simp_all

lemma quiet_persist: "quiet ok lab s (snd (persist_planned_record p st s))"
  by (simp add: quiet_def sound_def)

context node_service_laws begin

lemma stop_quiet:
  assumes "stop_deployment D i s = (r, s')"
  shows "quiet ok lab s s'"
proof (cases "get_deployment i s")
  case None
  with assms show ?thesis by (simp add: stop_deployment_def)
next
  case (Some x)
  with stop_deployment_result[OF _ _ this] assms show ?thesis by (auto simp: quiet_def sound_def)
qed

lemma delete_quiet:
  assumes "delete_deployment D i s = (b, s')"
  shows "quiet ok lab s s'"
proof (cases "get_deployment i s")
  case None
  with assms show ?thesis by (simp add: delete_deployment_def)
next
  case (Some x)
  with delete_deployment_result[OF _ _ this assms] show ?thesis by (auto simp: quiet_def sound_def)
qed

lemma sweep_quiet: "sweep_orphans D only s = (n, s') \<Longrightarrow> quiet ok lab s s'"
  using sweep_orphans_result by (auto simp: quiet_def sound_def)

lemma operator_step_quiet: "operator_step D ok lab s s' \<Longrightarrow> quiet ok lab s s'"
  by (induction rule: operator_step.induct) (auto intro: stop_quiet delete_quiet sweep_quiet quiet_world)

lemma operator_steps_quiet: "(operator_step D ok lab)\<^sup>*\<^sup>* s s' \<Longrightarrow> quiet ok lab s s'"
  by (induction rule: rtranclp_induct) (auto intro: quiet_trans operator_step_quiet)

section \<open>Reaping and pulling make no container\<close>

lemma reap_earlier_quiet:
  "reap_earlier_generations D p w = (r, w') \<Longrightarrow> p_id p \<noteq> [] \<Longrightarrow> shrinks ok lab w w'"
  using reap_ranks_steps[of p "p_ranks p" w r w'] by (simp add: reap_earlier_generations_def)

lemma image_on_node_shrinks: "image_on_node D P a ref w = (r, w') \<Longrightarrow> shrinks ok lab w w'"
  using call_steps(8)[of a ref w] call_steps(8)[of a "pl_copy P ref"]
  by (auto simp: image_on_node_def split: prod.splits sum.splits bool.splits if_splits intro: shrinks_trans)

lemma pull_step_quiet:
  assumes m: "pull_meanwhile D ok lab P" and c: "pl_pull P a ref src s = (r, snaps, s0)"
  shows "quiet ok lab s (publish_progress i ref' snaps s0)"
proof -
  have "(operator_step D ok lab)\<^sup>*\<^sup>* s s0" using m c unfolding pull_meanwhile_def by (metis snd_conv)
  from quiet_trans[OF operator_steps_quiet[OF this] quiet_progress] show ?thesis .
qed

lemma pull_with_retries_quiet:
  assumes m: "pull_meanwhile D ok lab P"
  shows "quiet ok lab s (snd (pull_with_retries P node i ref whr left n snap s))"
proof (induction left arbitrary: n snap s)
  case 0
  obtain r snaps s0 where c: "pl_pull P node ref None s = (r, snaps, s0)" by (cases "pl_pull P node ref None s") auto
  note q = pull_step_quiet[OF m c, of i ref]
  show ?case
    unfolding pull_with_retries.simps[of P node i ref whr 0] c prod.case Let_def
    using q quiet_trans[OF q quiet_publish] by (auto split: sum.split exc.split)
next
  case (Suc l)
  obtain r snaps s0 where c: "pl_pull P node ref None s = (r, snaps, s0)" by (cases "pl_pull P node ref None s") auto
  note q = pull_step_quiet[OF m c, of i ref]
  have idle: "quiet ok lab s' (pl_idle P k s')" for k s'
    using m operator_steps_quiet unfolding pull_meanwhile_def by blast
  have again: "quiet ok lab s (snd (pull_with_retries P node i ref whr l n' snap'
      (pl_idle P k (publish t i msg (publish_progress i ref snaps s0)))))" for n' snap' k t msg
    by (rule quiet_trans[OF quiet_trans[OF quiet_trans[OF q quiet_publish] idle] Suc])
  show ?case
    unfolding pull_with_retries.simps[of P node i ref whr "Suc l"] c prod.case Let_def
    using q quiet_trans[OF q quiet_publish] again by (auto split: sum.split exc.split)
qed

lemma pull_from_registry_quiet:
  assumes m: "pull_meanwhile D ok lab P"
  shows "quiet ok lab s (snd (pull_from_registry D P node i ref whr s))"
proof (cases "relayed_source D P node ref")
  case (Some cr)
  obtain copy relay where cr: "cr = (copy, relay)" by force
  obtain r snaps s0 where c: "pl_pull P node copy relay s = (r, snaps, s0)" by (cases "pl_pull P node copy relay s") auto
  note q = pull_step_quiet[OF m c, of i ref]
  show ?thesis
    unfolding pull_from_registry_def Some cr option.case prod.case c Let_def
    using q quiet_trans[OF q quiet_publish] by (auto split: sum.split exc.split)
qed (simp add: pull_from_registry_def)

lemma run_from_ranks [simp]: "map rank_record (p_ranks (run_from a img p)) = map rank_record (p_ranks p)"
  "p_id (run_from a img p) = p_id p"
  by (auto simp: run_from_def rank_record_def)

lemma pull_image_if_missing_quiet:
  assumes m: "pull_meanwhile D ok lab P" and run: "pull_image_if_missing D P p node s = (r, p', s')"
  shows "quiet ok lab s s' \<and> map rank_record (p_ranks p') = map rank_record (p_ranks p) \<and> p_id p' = p_id p"
proof -
  let ?i = "p_id p" and ?ref = "upstream_ref p" and ?whr = "where_text node"
  obtain found w1 where c1: "image_on_node D P node ?ref (g_world s) = (found, w1)" by force
  let ?here = "case found of Inl _ \<Rightarrow> [] | Inr x \<Rightarrow> x"
  let ?s1 = "s\<lparr>g_world := w1\<rparr>"
  let ?s3 = "register_pull ?i (publish ''image.pull.started'' ?i (''pulling '' @ ?ref @ '' on '' @ ?whr)
      (snd (update_record ?i (\<lambda>r. r\<lparr>d_status := ''pulling''\<rparr>) ?s1)))"
  obtain r4 s4 where c4: "pull_from_registry D P node ?i ?ref ?whr ?s3 = (r4, s4)" by force
  obtain r5 s5 where c5: "pull_with_retries P node ?i ?ref ?whr (pull_attempts_max - 1) 1 (0, 0, ''0'') s4 = (r5, s5)" by force
  have q1: "quiet ok lab s ?s1" by (rule quiet_world[OF image_on_node_shrinks[OF c1]])
  have q3: "quiet ok lab s ?s3"
    by (rule quiet_trans[OF q1 quiet_trans[OF quiet_update quiet_trans[OF quiet_publish quiet_same]]]) simp_all
  have q4: "quiet ok lab s s4" using quiet_trans[OF q3] pull_from_registry_quiet[OF m, of ?s3 node ?i ?ref ?whr] c4 by simp
  have q5: "quiet ok lab s s5"
    using quiet_trans[OF q4] pull_with_retries_quiet[OF m, of s4 node ?i ?ref ?whr] c5 by (metis snd_conv)
  have un: "quiet ok lab s (unregister_pull ?i s0)" if "quiet ok lab s s0" for s0
    by (rule quiet_trans[OF that quiet_same]) simp_all
  have fin: "quiet ok lab s (snd (update_record ?i f (publish t ?i msg (unregister_pull ?i s0))))"
    if "quiet ok lab s s0" for s0 f t msg
    by (rule quiet_trans[OF un[OF that] quiet_trans[OF quiet_publish quiet_update]])
  show ?thesis
  proof (cases "?here \<noteq> []")
    case True
    then have "pull_image_if_missing D P p node s = (Inr False, run_from node ?here p, ?s1)"
      unfolding pull_image_if_missing_def Let_def c1 prod.case by simp
    with run q1 show ?thesis by auto
  next
    case False
    then have "pull_image_if_missing D P p node s = (case (r4, s4) of
                     (Inl e, s4) \<Rightarrow> (Inl e, p, unregister_pull ?i s4)
                   | (Inr pulled, s4) \<Rightarrow>
                       (case (if pulled \<noteq> [] then (Inr (), s4)
                              else pull_with_retries P node ?i ?ref ?whr (pull_attempts_max - 1) 1 (0, 0, ''0'') s4) of
                          (Inl e, s5) \<Rightarrow> (Inl e, p, unregister_pull ?i s5)
                        | (Inr _, s5) \<Rightarrow>
                            (Inr True, run_from node (py_or pulled ?ref) p,
                                 snd (update_record ?i (\<lambda>r. r\<lparr>d_status := ''starting'', d_image_present := True\<rparr>)
                                   (publish ''image.pull.completed'' ?i (''pulled '' @ py_or pulled ?ref) (unregister_pull ?i s5))))))"
      unfolding pull_image_if_missing_def Let_def c1 c4[symmetric] prod.case by simp
    with run un[OF q4] un[OF q5] fin[OF q4] fin[OF q5] c5 show ?thesis
      by (cases r4; cases r5) (auto split: if_splits)
  qed
qed

lemma pull_all_quiet:
  assumes m: "pull_meanwhile D ok lab P" and "pull_all D P p as s = (r, p', s')"
  shows "quiet ok lab s s' \<and> map rank_record (p_ranks p') = map rank_record (p_ranks p) \<and> p_id p' = p_id p"
  using assms(2)
proof (induction as arbitrary: p s)
  case (Cons a as)
  show ?case
  proof (cases "ks_resolve D a (g_world s)")
    case (Inl e)
    with Cons.prems show ?thesis by auto
  next
    case (Inr u)
    obtain r1 p1 s1 where c: "pull_image_if_missing D P p a s = (r1, p1, s1)"
      by (cases "pull_image_if_missing D P p a s") auto
    note 1 = pull_image_if_missing_quiet[OF m c]
    show ?thesis
    proof (cases r1)
      case (Inl e)
      with Cons.prems c Inr 1 \<open>ks_resolve D a (g_world s) = Inr u\<close> show ?thesis by auto
    next
      case (Inr b)
      then have "pull_all D P p1 as s1 = (r, p', s')" using Cons.prems c \<open>ks_resolve D a (g_world s) = Inr u\<close> by simp
      from Cons.IH[OF this] 1 show ?thesis by (auto intro: quiet_trans)
    qed
  qed
qed auto

section \<open>Waiting for readiness\<close>

lemma log_tail_step: "log_tail D a n w = (lg, w1) \<Longrightarrow> shrinks ok lab w w1"
  using logs_for_container_step unfolding log_tail_def by blast

lemma serve_process_alive_step: "serve_process_alive D a n cmd w = (b, w1) \<Longrightarrow> shrinks ok lab w w1"
  using call_steps(5)
  by (auto simp: serve_process_alive_def Let_def split: if_splits prod.splits sum.splits)

lemma probe_ready_step: "probe_ready D url m w = (b, w1) \<Longrightarrow> shrinks ok lab w w1"
  using call_steps(10)
  by (auto simp: probe_ready_def split: if_splits prod.splits option.splits)

lemma models_answering_step: "models_answering D url w = (b, w1) \<Longrightarrow> shrinks ok lab w w1"
  using call_steps(10)
  by (auto simp: models_answering_def split: if_splits prod.splits option.splits)

lemma ready_pass_step: "ready_pass D rps w = (r, w') \<Longrightarrow> shrinks ok lab w w'"
proof (induction rps arbitrary: w)
  case (Cons rp rps)
  let ?a = "rp_node rp" and ?n = "rp_name rp"
  obtain st w1 where c1: "ks_status D ?a ?n w = (st, w1)" by force
  obtain lg w2 where c2: "log_tail D ?a ?n w1 = (lg, w2)" by force
  obtain b w3 where c3: "serve_process_alive D ?a ?n (rp_command rp) w1 = (b, w3)" by force
  obtain lg4 w4 where c4: "log_tail D ?a ?n w3 = (lg4, w4)" by force
  note 1 = call_steps(2)[OF c1]
  note 2 = shrinks_trans[OF 1 log_tail_step[OF c2]]
  note 3 = shrinks_trans[OF 1 serve_process_alive_step[OF c3]]
  note 4 = shrinks_trans[OF 3 log_tail_step[OF c4]]
  have w': "w' = w \<or> w' = w2 \<or> w' = w4 \<or> ready_pass D rps w1 = (r, w') \<or> ready_pass D rps w3 = (r, w')"
    using Cons.prems c1 c2 c3 c4
    by (auto simp: Let_def split: sum.splits if_splits option.splits bool.splits)
  then show ?case
    using 2 4 shrinks_trans[OF 1 Cons.IH[of w1]] shrinks_trans[OF 3 Cons.IH[of w3]] by auto
qed simp

lemma deadline_message_step: "deadline_message D p t w = (m, w') \<Longrightarrow> shrinks ok lab w w'"
proof -
  assume run: "deadline_message D p t w = (m, w')"
  obtain an w1 where c1: "(if p_served_model p \<noteq> [] then models_answering D (p_readiness_url p) w else (None, w)) = (an, w1)"
    by force
  have 1: "shrinks ok lab w w1" using c1 models_answering_step by (auto split: if_splits)
  obtain lg w2 where c2: "log_tail D (rp_node (head_plan p)) (rp_name (head_plan p)) w1 = (lg, w2)" by force
  have "w' = w1 \<or> w' = w2"
    using run unfolding deadline_message_def Let_def c1 prod.case c2 by (auto split: sum.splits)
  with 1 shrinks_trans[OF 1 log_tail_step[OF c2]] show ?thesis by auto
qed

lemma wait_ready_step: "wait_ready D p t k w = (r, w') \<Longrightarrow> shrinks ok lab w w'"
proof (induction k arbitrary: w)
  case 0
  then show ?case using deadline_message_step by (auto split: prod.splits)
next
  case (Suc k)
  obtain r1 w1 where c1: "ready_pass D (p_ranks p) w = (r1, w1)" by force
  obtain b w2 where c2: "probe_ready D (p_readiness_url p) (p_served_model p) w1 = (b, w2)" by force
  note 1 = ready_pass_step[OF c1]
  note 2 = shrinks_trans[OF 1 probe_ready_step[OF c2]]
  have "w' = w1 \<or> w' = w2 \<or> wait_ready D p t k (ks_tick D w2) = (r, w')"
    using Suc.prems c1 c2 by (auto split: sum.splits bool.splits)
  with 1 2 shrinks_trans[OF 2 shrinks_trans[OF tick_shrinks Suc.IH]] show ?case by auto
qed

section \<open>The start\<close>

lemma ranks_same:
  assumes "map rank_record (p_ranks p') = map rank_record (p_ranks p)"
  shows "(\<forall>q \<in> set (p_ranks p'). rank_absent lab w q) = (\<forall>q \<in> set (p_ranks p). rank_absent lab w q)"
    and "gang_accounted lab i (p_ranks p') s = gang_accounted lab i (p_ranks p) s"
    and "map rp_name (p_ranks p') = map rp_name (p_ranks p)"
proof -
  have e: "rank_record ` set (p_ranks p') = rank_record ` set (p_ranks p)"
    using arg_cong[OF assms, of set] by simp
  have a: "(\<forall>q \<in> set rs. rank_absent lab w q) = (\<forall>e \<in> rank_record ` set rs. lab w (re_node e) (re_container e) = None)" for rs
    by (simp add: rank_absent_def)
  show "(\<forall>q \<in> set (p_ranks p'). rank_absent lab w q) = (\<forall>q \<in> set (p_ranks p). rank_absent lab w q)"
    by (simp only: a e)
  have g: "gang_accounted lab i rs s = (\<forall>e \<in> rank_record ` set rs. accounted lab (g_world s) (orphans_of i s) e)" for rs
    by (simp add: gang_accounted_def)
  show "gang_accounted lab i (p_ranks p') s = gang_accounted lab i (p_ranks p) s"
    by (simp only: g e)
  have "map rp_name rs = map re_container (map rank_record rs)" for rs by simp
  then show "map rp_name (p_ranks p') = map rp_name (p_ranks p)" by (metis assms)
qed

lemma absent_accounted:
  "\<forall>q \<in> set (p_ranks p). rank_absent lab (g_world s) q \<Longrightarrow> gang_accounted lab i (p_ranks p) s"
  by (simp add: gang_accounted_def rank_absent_accounted)

lemma start_fail_quiet: "start_fail D p rec m os logs s = (r, s') \<Longrightarrow> quiet ok lab s s'"
  using start_fail_result by (auto simp: quiet_def sound_def)

lemma settle_stopped_quiet: "settle_stopped D p rec m s = (r, s') \<Longrightarrow> quiet ok lab s s'"
  using settle_stopped_result by (auto simp: quiet_def sound_def)

lemma prepare_quiet:
  assumes "prepare D p initial s = (ph, s')" and "p_id p \<noteq> []"
  shows "quiet ok lab s s' \<and> (\<forall>e. ph \<noteq> Raise e)"
proof -
  obtain rec s1 where c1: "persist_planned_record p initial s = (rec, s1)" by force
  let ?s2 = "publish ''deployment_planned'' (p_id p) (''planned '' @ p_recipe_id p @ '' on '' @ p_engine p @ ''/'' @ p_variant p) s1"
  obtain r w where c2: "reap_earlier_generations D p (g_world ?s2) = (r, w)" by force
  have q1: "quiet ok lab s s1" using quiet_persist[of ok lab s p initial] c1 by simp
  have q2: "quiet ok lab s (?s2\<lparr>g_world := w\<rparr>)"
    by (rule quiet_trans[OF quiet_trans[OF q1 quiet_publish] quiet_world[OF reap_earlier_quiet[OF c2 assms(2)]]])
  show ?thesis
    using assms(1) q2 quiet_trans[OF q2 start_fail_quiet]
    unfolding prepare_def c1 prod.case Let_def c2 by (auto split: sum.splits prod.splits)
qed

lemma pull_phase_quiet:
  assumes m: "pull_meanwhile D ok lab P" and run: "pull_phase D P p rec s = (ph, s')"
  shows "quiet ok lab s s' \<and> (case ph of Next p' \<Rightarrow> map rank_record (p_ranks p') = map rank_record (p_ranks p) \<and> p_id p' = p_id p
    | Halt r \<Rightarrow> True | Raise e \<Rightarrow> False)"
proof -
  obtain r p1 s1 where c: "pull_all D P p (pull_targets p) s = (r, p1, s1)"
    by (cases "pull_all D P p (pull_targets p) s") auto
  note q = pull_all_quiet[OF m c]
  show ?thesis
    using run q quiet_trans[OF conjunct1[OF q] start_fail_quiet] quiet_trans[OF conjunct1[OF q] settle_stopped_quiet]
    unfolding pull_phase_def c prod.case by (auto split: sum.splits exc.splits prod.splits)
qed

lemma fail_launched_result:
  assumes rs: "recs_ok (g_recs s)" and ok: "ok (g_world s)" and run: "fail_launched_gang D p m s = (r, s')"
  shows "recs_ok (g_recs s') \<and> ok (g_world s') \<and>
    (get_deployment (p_id p) s \<noteq> None \<longrightarrow> gang_accounted lab (p_id p) (p_ranks p) s')"
proof -
  obtain os logs w where t: "teardown_entries D (map rank_record (p_ranks p)) (g_world s) = (os, logs, w)"
    by (cases "teardown_entries D (map rank_record (p_ranks p)) (g_world s)") auto
  let ?s = "s\<lparr>g_world := w\<rparr>" and ?x = "error_text m"
  let ?f = "\<lambda>r. r\<lparr>d_status := ''error'', d_error_message := Some ?x, d_stopped_at := Some (Some (ks_now D w)),
      d_orphans := os, d_final_logs := logs\<rparr>"
  have s': "s' = snd (update_record (p_id p) ?f (publish ''deployment_error'' (p_id p) ?x ?s))"
    using run t by (simp add: fail_launched_gang_def record_error_def Let_def)
  have okw: "ok w"
    using shrinks_ok[OF teardown_entries_shrinks ok, of "map rank_record (p_ranks p)"] t by simp
  have g: "get_deployment (p_id p) s' = map_option (redact_record \<circ> ?f) (get_deployment (p_id p) s)"
    using get_update_record[of "publish ''deployment_error'' (p_id p) ?x ?s" ?f "p_id p" "p_id p"] rs
    by (simp add: s' get_deployment_def)
  have "accounted lab w os (rank_record q)" if "q \<in> set (p_ranks p)" for q
    using teardown_entries_accounted[OF ok t] that by simp
  with g okw rs show ?thesis
    by (auto simp: s' update_record_ok gang_accounted_def orphans_of_def)
qed

text \<open>What an answered wait for readiness settles.\<close>

lemma settle_after_wait:
  assumes rs: "recs_ok (g_recs s)" and ok: "ok w" and x: "get_deployment (p_id p) s = Some x" "d_status x \<noteq> ''stopped''"
    and e: "(res, s') = (case wr of
                Inr _ \<Rightarrow> (case settle_ready D p rec (s\<lparr>g_world := w\<rparr>) of (x, s5) \<Rightarrow> (Inr x, s5))
              | Inl e \<Rightarrow> (case e of
                    NativeError m \<Rightarrow> (case settle_failed D p rec m (s\<lparr>g_world := w\<rparr>) of (x, s5) \<Rightarrow> (Inr x, s5))
                  | _ \<Rightarrow> (Inl e, s\<lparr>g_world := w\<rparr>)))"
  shows "recs_ok (g_recs s') \<and> ok (g_world s') \<and>
    (case res of
       Inl e \<Rightarrow> \<forall>m. e \<noteq> NativeError m
     | Inr r \<Rightarrow> (\<forall>x. get_deployment (p_id p) s' = Some x \<longrightarrow> d_status x \<in> {''error'', ''stopped''}) \<longrightarrow>
         gang_accounted lab (p_id p) (p_ranks p) s')"
proof -
  let ?s = "s\<lparr>g_world := w\<rparr>"
  have g: "get_deployment j ?s = get_deployment j s" for j by (simp add: get_deployment_def)
  have nt: "\<not> is_torn_down (p_id p) ?s" using x g by (simp add: is_torn_down_def)
  consider v where "wr = Inr v" | m' where "wr = Inl (NativeError m')" | e where "wr = Inl e" "\<forall>m. e \<noteq> NativeError m"
    by (cases wr; blast)
  then show ?thesis
  proof cases
    case (1 v)
    let ?f = "\<lambda>r. r\<lparr>d_status := ''running'', d_ready_at := Some (ks_now D (g_world ?s)), d_error_message := None\<rparr>"
    let ?p = "publish ''deployment_ready'' (p_id p) (p_recipe_id p @ '' is serving on port '' @ str_of_nat (p_port p)) ?s"
    from e 1 nt have s': "s' = snd (update_record (p_id p) ?f ?p)" and "\<exists>y. res = Inr y"
      by (auto simp: settle_ready_def split: prod.splits)
    moreover have "get_deployment (p_id p) s' = Some (redact_record (?f x))"
      using get_update_record[of ?p ?f "p_id p" "p_id p"] rs x(1) g by (simp add: s')
    ultimately show ?thesis using ok rs by (auto simp: update_record_ok)
  next
    case (2 m')
    obtain y s5 where c5: "fail_launched_gang D p m' ?s = (y, s5)" by force
    from e 2 nt c5 have "s' = s5" "\<exists>y. res = Inr y"
      by (auto simp: settle_failed_def split: prod.splits option.splits)
    with fail_launched_result[OF _ _ c5] rs ok x(1) g show ?thesis by auto
  next
    case (3 e)
    with assms(5) have "res = Inl e" "s' = ?s" by (auto split: exc.splits)
    with 3 rs ok show ?thesis by simp
  qed
qed

text \<open>From the pulled images on.\<close>

lemma launch_and_settle_result:
  assumes s: "sound ok s" and dist: "distinct (map rp_name (p_ranks p))"
    and abs: "\<forall>q \<in> set (p_ranks p). rank_absent lab (g_world s) q"
    and run: "(case launch_locked D k p rec s of
                  (Halt r, s3) \<Rightarrow> (Inr r, s3)
                | (Raise e, s3) \<Rightarrow> (Inl e, s3)
                | (Next r, s3) \<Rightarrow>
                    if \<not> wait then (Inr r, s3)
                    else (case wait_ready D p timeout polls (g_world s3) of
                            (Inr _, w) \<Rightarrow> (case settle_ready D p rec (s3\<lparr>g_world := w\<rparr>) of (x, s4) \<Rightarrow> (Inr x, s4))
                          | (Inl (NativeError m), w) \<Rightarrow>
                              (case settle_failed D p rec m (s3\<lparr>g_world := w\<rparr>) of (x, s4) \<Rightarrow> (Inr x, s4))
                          | (Inl e, w) \<Rightarrow> (Inl e, s3\<lparr>g_world := w\<rparr>))) = (res, s')"
  shows "recs_ok (g_recs s') \<and> ok (g_world s') \<and>
    (case res of
       Inl e \<Rightarrow> \<forall>m. e \<noteq> NativeError m
     | Inr r \<Rightarrow> (\<forall>x. get_deployment (p_id p) s' = Some x \<longrightarrow> d_status x \<in> {''error'', ''stopped''}) \<longrightarrow>
         gang_accounted lab (p_id p) (p_ranks p) s')"
proof -
  have rs: "recs_ok (g_recs s)" and ok: "ok (g_world s)" using s by (simp_all add: sound_def)
  obtain ph s3 where c: "launch_locked D k p rec s = (ph, s3)" by force
  note r3 = launch_locked_result[OF rs ok dist abs c]
  have ok3: "ok (g_world s3)" using r3 ok by (auto simp: makes_only_def)
  show ?thesis
  proof (cases ph)
    case (Halt r)
    with run c r3 ok3 show ?thesis by auto
  next
    case (Raise e)
    with run c r3 ok3 show ?thesis by auto
  next
    case (Next r)
    with r3 obtain x where x: "get_deployment (p_id p) s3 = Some x" "d_status x = ''starting''"
      by (auto simp: option_rel_Some1)
    obtain wr w where c4: "wait_ready D p timeout polls (g_world s3) = (wr, w)" by force
    have ok4: "ok w" using shrinks_ok[OF wait_ready_step[OF c4] ok3] .
    show ?thesis
    proof (cases wait)
      case False
      with run c Next x r3 ok3 show ?thesis by auto
    next
      case True
      have "(res, s') = (case wr of
                Inr _ \<Rightarrow> (case settle_ready D p rec (s3\<lparr>g_world := w\<rparr>) of (x, s5) \<Rightarrow> (Inr x, s5))
              | Inl e \<Rightarrow> (case e of
                    NativeError m \<Rightarrow> (case settle_failed D p rec m (s3\<lparr>g_world := w\<rparr>) of (x, s5) \<Rightarrow> (Inr x, s5))
                  | _ \<Rightarrow> (Inl e, s3\<lparr>g_world := w\<rparr>)))"
        using run c c4 Next True by (auto split: sum.splits exc.splits)
      from settle_after_wait[OF _ ok4 x(1) _ this] x r3 show ?thesis by simp
    qed
  qed
qed

text \<open>
  The start as a whole. Whatever was stopped, deleted or swept while it pulled, when it answers
  a deployment that is not on record as live, every rank of the plan is accounted for; and the
  only exceptions that leave it are those the runtime does not call its own.
\<close>

lemma start_result:
  assumes m: "pull_meanwhile D ok lab P" and s: "sound ok s" and i: "p_id p \<noteq> []"
    and dist: "distinct (map rp_name (p_ranks p))" and abs: "\<forall>q \<in> set (p_ranks p). rank_absent lab (g_world s) q"
    and run: "start D P k timeout polls wait initial p s = (res, s')"
  shows "recs_ok (g_recs s') \<and> ok (g_world s') \<and>
    (case res of
       Inl e \<Rightarrow> \<forall>m. e \<noteq> NativeError m
     | Inr r \<Rightarrow> (\<forall>x. get_deployment (p_id p) s' = Some x \<longrightarrow> d_status x \<in> {''error'', ''stopped''}) \<longrightarrow>
         gang_accounted lab (p_id p) (p_ranks p) s')"
proof -
  obtain ph1 s1 where c1: "prepare D p initial s = (ph1, s1)" by force
  from prepare_quiet[OF c1 i] have q1: "quiet ok lab s s1" and nr: "\<And>e. ph1 \<noteq> Raise e" by auto
  have snd1: "sound ok s1" and abs1: "\<forall>q \<in> set (p_ranks p). rank_absent lab (g_world s1) q"
    using quiet_sound[OF q1 s] quiet_absent[OF q1 s] abs by auto
  show ?thesis
  proof (cases ph1)
    case (Halt r)
    with run c1 have "res = Inr r" "s' = s1" by (auto simp: start_def)
    with snd1 absent_accounted[OF abs1] show ?thesis by (simp add: sound_def)
  next
    case (Raise e)
    with nr[of e] show ?thesis by simp
  next
    case (Next rec)
    obtain ph2 s2 where c2: "pull_phase D P p rec s1 = (ph2, s2)" by force
    from pull_phase_quiet[OF m c2] have q2: "quiet ok lab s1 s2"
      and k2: "case ph2 of Next p' \<Rightarrow> map rank_record (p_ranks p') = map rank_record (p_ranks p) \<and> p_id p' = p_id p
        | Halt r \<Rightarrow> True | Raise e \<Rightarrow> False" by auto
    have snd2: "sound ok s2" and abs2: "\<forall>q \<in> set (p_ranks p). rank_absent lab (g_world s2) q"
      using quiet_sound[OF q2 snd1] quiet_absent[OF q2 snd1] abs1 by auto
    show ?thesis
    proof (cases ph2)
      case (Halt r)
      with run c1 Next c2 have "res = Inr r" "s' = s2" by (auto simp: start_def)
      with snd2 absent_accounted[OF abs2] show ?thesis by (simp add: sound_def)
    next
      case (Raise e)
      with k2 show ?thesis by simp
    next
      case p1: (Next p1)
      with k2 have same: "map rank_record (p_ranks p1) = map rank_record (p_ranks p)" "p_id p1 = p_id p" by auto
      show ?thesis
        using launch_and_settle_result[OF snd2, where p = p1 and k = k and rec = rec and wait = wait and timeout = timeout and polls = polls and res = res and s' = s'] run c1 c2 Next p1
          dist abs2 ranks_same[OF same(1)] same(2)
        by (auto simp: start_def split: sum.splits)
    qed
  qed
qed

end

end
