(* ===== verification/Gang_Properties.thy ===== *)
theory Gang_Properties
  imports Gang_Teardown
begin

text \<open>
  What the gang runtime's teardown promises, for every node service that satisfies the laws of
  \<open>Node_Service\<close>: a rank is released on evidence only, by a stop, a delete and the orphan sweep;
  an error always says why; the reconciling list judges only on what this machine answered.
  The witnesses run on the simulated cluster, with one rank here and one on a peer that does
  not answer.
\<close>

definition ex_rank :: "nat \<Rightarrow> string \<Rightarrow> rank_entry" where
  "ex_rank k node = \<lparr>re_rank = k, re_node = node, re_host = node,
     re_container = rank_container_name ''a'' k 1, re_is_head = (k = 0)\<rparr>"

definition ex_dep :: dep where
  "ex_dep = (blank_dep ''a'')\<lparr>d_status := ''running'', d_started_at := Some ''t0'', d_generation := Some 1,
     d_ranks := [ex_rank 0 [], ex_rank 1 ''10.0.0.2'']\<rparr>"

definition ex_container :: "string \<Rightarrow> container" where
  "ex_container n = \<lparr>ct_name = n, ct_status = ''running'', ct_image = ''img'',
     ct_labels = [(label ''managed'', ''true''), (label ''deployment'', ''a''), (label ''generation'', ''1'')],
     ct_log = [''boot''], ct_serving = True, ct_user = None, ct_removed = False\<rparr>"

definition ex_node :: "bool \<Rightarrow> string \<Rightarrow> sim_node" where
  "ex_node c n = \<lparr>sn_connected = c, sn_daemon =
     \<lparr>dm_down = False, dm_containers = [(n, ex_container n)], dm_images = [''img'']\<rparr>, sn_own = ''1000:1000''\<rparr>"

definition ex_world :: sim where
  "ex_world = \<lparr>sim_nodes = [([], ex_node True (rank_container_name ''a'' 0 1)),
     (''10.0.0.2'', ex_node False (rank_container_name ''a'' 1 1))], sim_clock = ''now''\<rparr>"

definition ex_gang :: "sim gang" where
  "ex_gang = \<lparr>g_recs = [ex_dep, blank_dep ''b''], g_events = [], g_pulls = [], g_world = ex_world\<rparr>"

lemma ex_gang_ok [simp]: "recs_ok (g_recs ex_gang)" "sim_ok (g_world ex_gang)"
  by (simp_all add: ex_gang_def recs_ok_def redact_record_def ex_dep_def blank_dep_def sim_ok_def
      ex_world_def ex_node_def daemon_ok_def ex_container_def)

lemma ex_gang_get [simp]: "get_deployment ''a'' ex_gang = Some ex_dep"
  by (simp add: get_deployment_def ex_gang_def ex_dep_def)

lemmas sim_laws = simulated.node_service_laws_axioms

text \<open>
  C2. Stopping releases on evidence. A stop of a deployment on record always answers; afterwards
  the record is stopped, and each of its ranks either has no container on its node or is listed
  as an orphan of the record. No other record changes. A stop of an unknown id does nothing.
\<close>

theorem stop_releases_on_evidence:
  assumes "node_service_laws D ok lab" and "recs_ok (g_recs s)" and "ok (g_world s)"
  shows "case get_deployment i s of
      None \<Rightarrow> stop_deployment D i s = (None, s)
    | Some r \<Rightarrow> (\<exists>x s'. stop_deployment D i s = (Some x, s') \<and> d_status x = ''stopped'' \<and>
        get_deployment i s' = Some (redact_record x) \<and> d_ranks x = d_ranks r \<and>
        (\<forall>e \<in> set (rank_entries r). re_container e = [] \<or>
           lab (g_world s') (re_node e) (re_container e) = None \<or> outstanding e (d_orphans x)) \<and>
        (\<forall>j. j \<noteq> i \<longrightarrow> get_deployment j s' = get_deployment j s))"
proof (cases "get_deployment i s")
  case None
  then show ?thesis by (simp add: stop_deployment_def)
next
  case (Some r)
  from node_service_laws.stop_deployment_result[OF assms Some] Some show ?thesis
    unfolding accounted_def by auto
qed

theorem stop_releases_on_evidence_witness:
  "\<exists>x s'. stop_deployment sim_services ''a'' ex_gang = (Some x, s') \<and> d_status x = ''stopped'' \<and>
     (sim_labels (g_world s') ''10.0.0.2'' (rank_container_name ''a'' 1 1) = None \<or>
      outstanding (ex_rank 1 ''10.0.0.2'') (d_orphans x))"
proof -
  have "rank_entries ex_dep = [ex_rank 0 [], ex_rank 1 ''10.0.0.2'']"
    by (simp add: rank_entries_def ex_dep_def)
  moreover have "re_container (ex_rank 1 ''10.0.0.2'') = rank_container_name ''a'' 1 1"
    and "re_node (ex_rank 1 ''10.0.0.2'') = ''10.0.0.2''"
    and "rank_container_name ''a'' 1 1 \<noteq> []"
    by (simp_all add: ex_rank_def rank_container_name_def)
  ultimately show ?thesis
    using stop_releases_on_evidence[OF sim_laws ex_gang_ok, of "''a''"] by auto
qed

text \<open>
  C3. Deleting releases on evidence. A delete answers True only when every rank of the record is
  confirmed gone, and then the record is gone; when it answers False on a deployment that was on
  record, the record is kept, stopped, with the ranks that are outstanding as its orphans.
\<close>

theorem delete_drops_on_evidence:
  assumes "node_service_laws D ok lab" and "recs_ok (g_recs s)" and "ok (g_world s)"
    and "get_deployment i s = Some r" and "delete_deployment D i s = (b, s')"
  shows "(if b then get_deployment i s' = None \<and>
         (\<forall>e \<in> set (rank_entries r). re_container e = [] \<or> lab (g_world s') (re_node e) (re_container e) = None)
     else \<exists>x. get_deployment i s' = Some x \<and> d_status x = ''stopped'' \<and> d_orphans x \<noteq> [] \<and>
         (\<forall>e \<in> set (rank_entries r). re_container e = [] \<or>
            lab (g_world s') (re_node e) (re_container e) = None \<or> outstanding e (d_orphans x))) \<and>
    (\<forall>j. j \<noteq> i \<longrightarrow> get_deployment j s' = get_deployment j s)"
  using node_service_laws.delete_deployment_result[OF assms] unfolding accounted_def by auto

theorem delete_drops_on_evidence_witness:
  "\<exists>s' x. delete_deployment sim_services ''a'' ex_gang = (False, s') \<and> get_deployment ''a'' s' = Some x \<and>
     d_status x = ''stopped'' \<and> d_orphans x \<noteq> []"
proof -
  have "fst (delete_deployment sim_services ''a'' ex_gang) = False" by code_simp
  then obtain s' where d: "delete_deployment sim_services ''a'' ex_gang = (False, s')" by (metis prod.collapse)
  show ?thesis
    using delete_drops_on_evidence[OF sim_laws ex_gang_ok ex_gang_get d] d by auto
qed

text \<open>
  C4. The orphan sweep frees on evidence: it changes no record but by removing orphans, in
  order, and an orphan it removed has no container on its node.
\<close>

theorem sweep_frees_on_evidence:
  assumes "node_service_laws D ok lab" and "recs_ok (g_recs s)" and "ok (g_world s)"
    and "sweep_orphans D only s = (n, s')" and "get_deployment i s = Some r"
  shows "\<exists>r'. get_deployment i s' = Some r' \<and> r' = r\<lparr>d_orphans := d_orphans r'\<rparr> \<and>
    subseq (d_orphans r') (d_orphans r) \<and>
    (\<forall>x \<in> set (d_orphans r). x \<in> set (d_orphans r') \<or> lab (g_world s') (or_node x) (or_container x) = None)"
proof -
  have "rel_option (node_service_laws.swept lab (g_world s')) (get_deployment i s) (get_deployment i s')"
    using node_service_laws.sweep_orphans_result[OF assms(1-4)] by blast
  with assms(5) show ?thesis
    by (cases "get_deployment i s'") (auto simp: node_service_laws.swept_def[OF assms(1)])
qed

theorem sweep_frees_on_evidence_witness:
  "\<exists>n s' r'. sweep_orphans sim_services None ex_gang = (n, s') \<and> get_deployment ''a'' s' = Some r' \<and>
     subseq (d_orphans r') (d_orphans ex_dep)"
proof -
  obtain n s' where "sweep_orphans sim_services None ex_gang = (n, s')" by force
  from this sweep_frees_on_evidence[OF sim_laws ex_gang_ok this ex_gang_get] show ?thesis by blast
qed



text \<open>
  C16. An error always says why: an update into \<open>error\<close> records a reason that is never empty,
  publishes the same text on the event stream, and stamps the time; the same reason for an
  empty message is the fixed one.
\<close>

theorem record_error_explains:
  assumes "recs_ok (g_recs s)" and "\<forall>r. d_id (extra r) = d_id r"
    and "\<forall>r. d_status (extra r) = d_status r \<and> d_error_message (extra r) = d_error_message r \<and>
      d_stopped_at (extra r) = d_stopped_at r"
    and "get_deployment i s = Some r"
  shows "\<exists>r' t. get_deployment i (snd (record_error now i m extra s)) = Some r' \<and> t \<noteq> [] \<and>
    d_status r' = ''error'' \<and> d_error_message r' = Some t \<and> d_stopped_at r' = Some (Some now) \<and>
    (t = strip m \<or> strip m = [] \<and> t = unexplained_error) \<and>
    g_events (snd (record_error now i m extra s)) =
      g_events s @ [\<lparr>ev_type = ''deployment_error'', ev_resource = i, ev_message = t\<rparr>]"
proof -
  let ?t = "error_text m"
  let ?f = "\<lambda>r. extra (r\<lparr>d_status := ''error'', d_error_message := Some ?t, d_stopped_at := Some (Some now)\<rparr>)"
  have t: "?t \<noteq> []" "?t = strip m \<or> strip m = [] \<and> ?t = unexplained_error"
    by (simp_all add: error_text_def unexplained_error_def py_or_def)
  have f: "\<forall>r. d_id (?f r) = d_id r" using assms(2) by simp
  have "get_deployment i (snd (record_error now i m extra s)) = Some (redact_record (?f r))"
    using get_update_record[of "publish ''deployment_error'' i ?t s" ?f i i] f assms(1,4)
    by (simp add: record_error_def Let_def)
  moreover have "g_events (snd (record_error now i m extra s)) =
      g_events s @ [\<lparr>ev_type = ''deployment_error'', ev_resource = i, ev_message = ?t\<rparr>]"
    using t(1) by (simp add: record_error_def publish_def py_or_def Let_def)
  ultimately show ?thesis using t assms(3) by auto
qed

theorem record_error_explains_witness:
  "\<exists>r' t. get_deployment ''a'' (snd (record_error ''now'' ''a'' ''  '' id ex_gang)) = Some r' \<and> t \<noteq> [] \<and>
     d_error_message r' = Some t"
  using record_error_explains[of ex_gang id "''a''" ex_dep "''now''" "''  ''"] by auto





text \<open>
  C35. A run the reconciling list marks stopped keeps an empty stop time: its record was written
  by the planner, which sets the key to null, and the time is only filled in where the key is
  absent.
\<close>

theorem reconciled_stop_has_no_time:
  assumes "d_stopped_at r = Some None" and "judge_record D now cs r \<noteq> r"
  shows "d_status (judge_record D now cs r) = ''stopped'' \<and> d_stopped_at (judge_record D now cs r) = Some None \<and>
     d_stopped_at (record_from_plan p st) = Some None"
  using assms by (auto simp: judge_record_def record_from_plan_def split: if_splits)

theorem reconciled_stop_has_no_time_witness:
  "d_stopped_at (judge_record sim_services ''now'' [] ex_dep) = Some None \<and>
   d_status (judge_record sim_services ''now'' [] ex_dep) = ''stopped''"
proof -
  have "judge_record sim_services ''now'' [] ex_dep \<noteq> ex_dep"
    by (simp add: judge_record_def ex_dep_def blank_dep_def rank_entries_def ex_rank_def rank_lost_def
        rank_is_here_def by_name_def)
  moreover have "d_stopped_at ex_dep = Some None" by (simp add: ex_dep_def blank_dep_def)
  ultimately show ?thesis using reconciled_stop_has_no_time[of ex_dep] by blast
qed



end
