(* ===== verification/Gang_Start_Properties.thy ===== *)
theory Gang_Start_Properties
  imports Gang_Interleave Gang_Properties
begin

text \<open>
  What a start promises, for every node service that satisfies the laws of \<open>Node_Service\<close> and every
  interleaving of stops, deletes, sweeps and dying containers with its pull. The witnesses run
  a two-rank gang on the simulated cluster, with a pull during which an operator stops it.
\<close>

definition ex_spec :: "nat \<Rightarrow> cspec" where
  "ex_spec k = \<lparr>cs_image = ''img2'', cs_name = rank_container_name ''a'' k 2, cs_command = ''sleep'',
     cs_env = [], cs_labels = [], cs_mounts = [], cs_privileged = False, cs_ipc_host = True,
     cs_network_host = True, cs_shm_gb = 1, cs_devices = [], cs_cap_add = [], cs_ulimits = [],
     cs_memory_gb = None, cs_pids_limit = 100, cs_nofile_limit = 100, cs_ports = [],
     cs_entrypoint_clear = True, cs_user = None\<rparr>"

definition ex_rank_plan :: "nat \<Rightarrow> string \<Rightarrow> rank_plan" where
  "ex_rank_plan k node = \<lparr>rp_rank = k, rp_node = node, rp_host = node, rp_container = ex_spec k,
     rp_command = ''serve'', rp_script = ''x'', rp_is_head = (k = 0)\<rparr>"

definition ex_plan :: deploy_plan where
  "ex_plan = \<lparr>p_id = ''a'', p_recipe_id = ''r'', p_name = ''a'', p_engine = ''e'', p_variant = ''v'',
     p_image_ref = ''img2'', p_nodes = [[], ''10.0.0.3''], p_node_count = 2, p_port = 8000,
     p_rendezvous_port = None, p_rpc_port = None, p_readiness_url = ''u'', p_served_model = [],
     p_launch_command = ''serve'', p_mods = [], p_container = ex_spec 0,
     p_ranks = [ex_rank_plan 0 [], ex_rank_plan 1 ''10.0.0.3''], p_generation = 2, p_image_present = False,
     p_gpu_fraction = None, p_created_at = ''t'', p_workdir = [], p_warnings = []\<rparr>"

text \<open>A pull during which an operator stops the deployment, and which ends well all the same.\<close>

definition ex_pulling :: "sim pulling" where
  "ex_pulling = \<lparr>pl_pull = (\<lambda>a ref src s. (Inr (), [], snd (stop_deployment sim_services ''a'' s))),
     pl_idle = (\<lambda>n s. s), pl_copy = (\<lambda>r. []), pl_held = (\<lambda>r. False), pl_relay = []\<rparr>"

lemma ex_pulling_meanwhile: "pull_meanwhile sim_services sim_ok sim_labels ex_pulling"
proof -
  have "operator_step sim_services sim_ok sim_labels s (snd (stop_deployment sim_services ''a'' s))" for s
    by (rule op_stop[of _ _ _ "fst (stop_deployment sim_services ''a'' s)"]) simp
  then show ?thesis by (auto simp: pull_meanwhile_def ex_pulling_def)
qed

lemma ex_gang_sound: "sound sim_ok ex_gang"
  by (simp add: sound_def)

lemma ex_names:
  "rank_container_name ''a'' 0 2 = ''spark-pulse-a-r0-g2''" "rank_container_name ''a'' (Suc 0) 2 = ''spark-pulse-a-r1-g2''"
  "rank_container_name ''a'' 0 (Suc 0) = ''spark-pulse-a-r0-g1''"
  "rank_container_name ''a'' (Suc 0) (Suc 0) = ''spark-pulse-a-r1-g1''"
  by code_simp+

lemma ex_plan_fresh:
  "p_id ex_plan \<noteq> []" "distinct (map rp_name (p_ranks ex_plan))"
  "\<forall>q \<in> set (p_ranks ex_plan). rank_absent sim_labels (g_world ex_gang) q"
  by (simp_all add: ex_plan_def ex_rank_plan_def ex_spec_def rank_absent_def sim_labels_def sim_node_def sim_key_def
      ex_gang_def ex_world_def ex_node_def daemon_labels_def empty_daemon_def ex_names)

text \<open>The same plan with its second rank on the peer that does not answer.\<close>

definition ex_far_plan :: deploy_plan where
  "ex_far_plan = ex_plan\<lparr>p_ranks := [ex_rank_plan 0 [], ex_rank_plan 1 ''10.0.0.2'']\<rparr>"

lemma ex_far_plan_fresh:
  "p_id ex_far_plan \<noteq> []" "distinct (map rp_name (p_ranks ex_far_plan))"
  "\<forall>q \<in> set (p_ranks ex_far_plan). rank_absent sim_labels (g_world ex_gang) q"
  by (simp_all add: ex_far_plan_def ex_plan_def ex_rank_plan_def ex_spec_def rank_absent_def sim_labels_def
      sim_node_def sim_key_def ex_gang_def ex_world_def ex_node_def daemon_labels_def empty_daemon_def ex_names)

text \<open>The first rank of the example is created without a warning.\<close>

lemma ex_create_rank:
  "fst (create_rank sim_services ex_plan (ex_rank_plan 0 []) ex_gang) = Inr []"
  by (simp add: create_rank_def make_bind_sources_def ex_rank_plan_def ex_spec_def bind_sources_to_create_def Let_def
      sim_services_def sim_call_def sim_node_def sim_key_def ex_gang_def ex_world_def ex_node_def svc_run_def
      daemon_run_def daemon_check_def ex_plan_def split: prod.split)

text \<open>
  C1. A start is all or nothing. Whatever operators stop, delete or sweep while it pulls, when the
  start answers and the deployment is not on record as live (gone, stopped or in error), each of
  its ranks has no container on its node or is listed as an orphan of its record. The only
  exceptions that leave it are those that are not the runtime's own error.
\<close>

theorem start_accounts_for_gang:
  assumes "node_service_laws D ok lab" and "pull_meanwhile D ok lab P"
    and "recs_ok (g_recs s)" and "ok (g_world s)" and "p_id p \<noteq> []"
    and "distinct (map rp_name (p_ranks p))"
    and "\<forall>q \<in> set (p_ranks p). lab (g_world s) (rp_node q) (rp_name q) = None"
    and "start D P k timeout polls wait initial p s = (res, s')"
  shows "case res of
      Inl e \<Rightarrow> \<forall>m. e \<noteq> NativeError m
    | Inr _ \<Rightarrow> (\<forall>r. get_deployment (p_id p) s' = Some r \<longrightarrow> d_status r \<in> {''error'', ''stopped''}) \<longrightarrow>
        (\<forall>q \<in> set (p_ranks p). rp_name q = [] \<or> lab (g_world s') (rp_node q) (rp_name q) = None \<or>
           (\<exists>r. get_deployment (p_id p) s' = Some r \<and> outstanding (rank_record q) (d_orphans r)))"
proof -
  have "sound ok s" and abs: "\<forall>q \<in> set (p_ranks p). rank_absent lab (g_world s) q"
    using assms(3,4,7) by (simp_all add: sound_def rank_absent_def)
  from node_service_laws.start_result[OF assms(1,2) this(1) assms(5,6) abs assms(8)]
  have r: "case res of
       Inl e \<Rightarrow> \<forall>m. e \<noteq> NativeError m
     | Inr r \<Rightarrow> (\<forall>x. get_deployment (p_id p) s' = Some x \<longrightarrow> d_status x \<in> {''error'', ''stopped''}) \<longrightarrow>
         gang_accounted lab (p_id p) (p_ranks p) s'" by blast
  have out: "outstanding e (orphans_of i s') \<Longrightarrow> \<exists>r. get_deployment i s' = Some r \<and> outstanding e (d_orphans r)" for e i
    by (cases "get_deployment i s'") (auto simp: orphans_of_def outstanding_def)
  show ?thesis
    using r out[of _ "p_id p"] by (cases res) (fastforce simp: gang_accounted_def accounted_def)+
qed

theorem start_accounts_for_gang_witness:
  "\<exists>res s' x. start sim_services ex_pulling 0 600 3 True ''starting'' ex_far_plan ex_gang = (res, s') \<and>
     get_deployment ''a'' s' = Some x \<and> d_status x = ''error'' \<and>
     (sim_labels (g_world s') ''10.0.0.2'' (rank_container_name ''a'' 1 2) = None \<or>
      outstanding (rank_record (ex_rank_plan 1 ''10.0.0.2'')) (d_orphans x))"
proof -
  obtain res s' where r: "start sim_services ex_pulling 0 600 3 True ''starting'' ex_far_plan ex_gang = (res, s')" by force
  have e: "case start sim_services ex_pulling 0 600 3 True ''starting'' ex_far_plan ex_gang of (res, s') \<Rightarrow>
      (case res of Inl e \<Rightarrow> False | Inr r \<Rightarrow> map_option d_status (get_deployment ''a'' s') = Some ''error'')"
    by code_simp
  then obtain x where x: "get_deployment ''a'' s' = Some x" "d_status x = ''error''" using r by (auto split: sum.splits)
  have abs: "\<forall>q \<in> set (p_ranks ex_far_plan). sim_labels (g_world ex_gang) (rp_node q) (rp_name q) = None"
    using ex_far_plan_fresh(3) by (simp add: rank_absent_def)
  have q: "ex_rank_plan 1 ''10.0.0.2'' \<in> set (p_ranks ex_far_plan)" "p_id ex_far_plan = ''a''"
    "rp_node (ex_rank_plan 1 ''10.0.0.2'') = ''10.0.0.2''" "rp_name (ex_rank_plan 1 ''10.0.0.2'') = rank_container_name ''a'' 1 2"
    "rank_container_name ''a'' 1 2 \<noteq> []"
    by (simp_all add: ex_far_plan_def ex_plan_def ex_rank_plan_def ex_spec_def rank_container_name_def)
  obtain y where "res = Inr y" using e r by (cases res) auto
  with start_accounts_for_gang[OF sim_laws ex_pulling_meanwhile ex_gang_ok ex_far_plan_fresh(1,2) abs r] q x
  show ?thesis using r by fastforce
qed

text \<open>
  C5. Nothing of an earlier attempt is left when a start claims its names and GPUs. After a reap
  that ends well no node of the plan carries a managed container of the deployment from another
  generation.
\<close>

theorem reap_clears_nodes:
  assumes "node_service_laws D ok lab" and "ok w" and "p_id p \<noteq> []"
    and "reap_earlier_generations D p w = (Inr (), w')"
  shows "\<forall>rp \<in> set (p_ranks p). \<forall>n ls. lab w' (rp_node rp) n = Some ls \<longrightarrow>
    \<not> (dict_get ls (label ''managed'') = Some ''true'' \<and> dict_get ls (label ''deployment'') = Some (p_id p) \<and>
       dict_get ls (label ''generation'') \<noteq> Some (str_of_nat (p_generation p)))"
  using node_service_laws.reap_ranks_steps[OF assms(1), of p "p_ranks p" w "Inr ()" w'] assms(2-4)
  by (auto simp: reap_earlier_generations_def node_service_laws.leftover_def[OF assms(1)])

theorem reap_clears_nodes_witness:
  "\<exists>w'. reap_earlier_generations sim_services ex_plan ex_world = (Inr (), w') \<and>
     sim_labels w' [] (rank_container_name ''a'' 0 1) \<noteq> Some (ct_labels (ex_container []))"
proof -
  have "fst (reap_earlier_generations sim_services ex_plan ex_world) = Inr ()" by code_simp
  then obtain w' where c: "reap_earlier_generations sim_services ex_plan ex_world = (Inr (), w')" by (metis prod.collapse)
  have ok: "sim_ok ex_world" using ex_gang_ok(2) by (simp add: ex_gang_def)
  have q: "ex_rank_plan 0 [] \<in> set (p_ranks ex_plan)" "rp_node (ex_rank_plan 0 []) = []" "p_id ex_plan = ''a''"
    "p_generation ex_plan = 2" by (simp_all add: ex_plan_def ex_rank_plan_def)
  have g: "dict_get (ct_labels (ex_container n)) (label ''managed'') = Some ''true''"
    "dict_get (ct_labels (ex_container n)) (label ''deployment'') = Some ''a''"
    "dict_get (ct_labels (ex_container n)) (label ''generation'') \<noteq> Some (str_of_nat 2)" for n
    by (simp_all add: ex_container_def label_def) code_simp
  show ?thesis
    using reap_clears_nodes[OF sim_laws ok ex_plan_fresh(1) c] q g[of "[]"] c by fastforce
qed

text \<open>
  C6. Rank zero of an RPC gang is launched against evidence: the wait before it ends well only
  when every other rank was seen accepting a connection on the RPC port.
\<close>

theorem rpc_head_waits_for_workers:
  assumes "node_service_laws D ok lab" and "p_rpc_port p = Some port" and "port \<noteq> 0" and "p_node_count p > 1"
    and "wait_rpc_workers D k p w = (Inr (), w')" and "rp \<in> set (p_ranks p)" and "\<not> rp_is_head rp"
  shows "seen_listening D port rp w w'"
proof -
  have "rpc_loop D port k (filter (\<lambda>r. \<not> rp_is_head r) (p_ranks p)) w = (Inr (), w')"
    using assms(2-5) by (simp add: wait_rpc_workers_def)
  from node_service_laws.rpc_loop_evidence[OF assms(1) this] assms(6,7) show ?thesis by simp
qed

theorem rpc_head_waits_for_workers_witness:
  "\<exists>w'. wait_rpc_workers sim_services 5 (ex_plan\<lparr>p_rpc_port := Some 50052\<rparr>) ex_world = (Inr (), w') \<and>
     seen_listening sim_services 50052 (ex_rank_plan 1 ''10.0.0.3'') ex_world w'"
proof -
  let ?p = "ex_plan\<lparr>p_rpc_port := Some 50052\<rparr>"
  have "wait_rpc_workers sim_services 5 ?p ex_world = (Inr (), ex_world)"
    by (simp add: wait_rpc_workers_def rpc_loop.simps[of _ _ "5::nat"] ex_plan_def ex_rank_plan_def sim_services_def)
  moreover from rpc_head_waits_for_workers[OF sim_laws _ _ _ this, of 50052 "ex_rank_plan 1 ''10.0.0.3''"]
  have "seen_listening sim_services 50052 (ex_rank_plan 1 ''10.0.0.3'') ex_world ex_world"
    by (simp add: ex_plan_def ex_rank_plan_def)
  ultimately show ?thesis by blast
qed

text \<open>
  C8. A stop that lands while a pull is finishing is lost. When the image's pull completes although
  an operator stopped the deployment during it, the record goes back to \<open>starting\<close>, the stop's
  request is forgotten with the pull's registration, and nothing tells the create path to give up.
\<close>

theorem stop_during_completing_pull_is_lost:
  assumes "node_service_laws D ok lab" and "recs_ok (g_recs s)" and "ok (g_world s)"
    and "get_deployment (p_id p) s = Some r"
    and "image_on_node D P node (upstream_ref p) (g_world s) = (Inr [], w1)"
    and "relayed_source D P node (upstream_ref p) = None"
    and "\<forall>s. pl_pull P node (upstream_ref p) None s = (Inr (), [], snd (stop_deployment D (p_id p) s))"
  shows "\<exists>p' s' r'. pull_image_if_missing D P p node s = (Inr True, p', s') \<and>
    get_deployment (p_id p) s' = Some r' \<and> d_status r' = ''starting'' \<and> \<not> teardown_requested (p_id p) s'"
proof -
  let ?i = "p_id p" and ?ref = "upstream_ref p"
  let ?s1 = "s\<lparr>g_world := w1\<rparr>"
  let ?s3 = "register_pull ?i (publish ''image.pull.started'' ?i (''pulling '' @ ?ref @ '' on '' @ where_text node)
      (snd (update_record ?i (\<lambda>r. r\<lparr>d_status := ''pulling''\<rparr>) ?s1)))"
  let ?s5 = "snd (stop_deployment D ?i ?s3)"
  let ?s6 = "publish ''image.pull.completed'' ?i (''pulled '' @ py_or [] ?ref) (unregister_pull ?i ?s5)"
  let ?f = "\<lambda>r. r\<lparr>d_status := ''starting'', d_image_present := True\<rparr>"
  have sh: "shrinks ok lab (g_world s) w1"
    by (rule node_service_laws.image_on_node_shrinks[OF assms(1,5)])
  have g1: "get_deployment j ?s1 = get_deployment j s" for j by (simp add: get_deployment_def)
  have ok3: "recs_ok (g_recs ?s3)" "ok (g_world ?s3)"
    using assms(2) shrinks_ok[OF sh assms(3)] by (simp_all add: update_record_ok)
  have g3: "get_deployment ?i ?s3 = Some (redact_record (r\<lparr>d_status := ''pulling''\<rparr>))"
    using get_update_record[of ?s1 "\<lambda>r. r\<lparr>d_status := ''pulling''\<rparr>" ?i ?i] assms(2,4) g1
    by (simp add: get_deployment_def)
  from node_service_laws.stop_deployment_result[OF assms(1) ok3 g3] obtain x where
    5: "recs_ok (g_recs ?s5)" "get_deployment ?i ?s5 = Some (redact_record x)" by (metis snd_conv)
  have "pull_image_if_missing D P p node s = (Inr True, run_from node (py_or [] ?ref) p, snd (update_record ?i ?f ?s6))"
    by (simp add: pull_image_if_missing_def Let_def assms(5,6,7) pull_from_registry_def pull_with_retries.simps
        publish_progress_def)
  moreover have "get_deployment ?i (snd (update_record ?i ?f ?s6)) = Some (redact_record (?f (redact_record x)))"
    using get_update_record[of ?s6 ?f ?i ?i] 5 by (simp add: get_deployment_def)
  moreover have "\<not> pull_cancel_requested ?i (snd (update_record ?i ?f ?s6))"
    by (simp add: pull_cancel_requested_def unregister_pull_def publish_def dict_lookup_def)
  ultimately show ?thesis
    by (simp add: teardown_requested_def is_torn_down_def)
qed

theorem stop_during_completing_pull_is_lost_witness:
  "\<exists>p' s' r'. pull_image_if_missing sim_services ex_pulling ex_plan [] ex_gang = (Inr True, p', s') \<and>
     get_deployment ''a'' s' = Some r' \<and> d_status r' = ''starting'' \<and> \<not> teardown_requested ''a'' s'"
proof -
  have i: "p_id ex_plan = ''a''" by (simp add: ex_plan_def)
  obtain w1 where "image_on_node sim_services ex_pulling [] (upstream_ref ex_plan) (g_world ex_gang) = (Inr [], w1)"
    by (simp add: image_on_node_def sim_services_def sim_call_def sim_node_def sim_key_def ex_gang_def ex_world_def
        ex_node_def svc_image_exists_def upstream_ref_def ex_plan_def ex_pulling_def py_or_def)
  moreover have "relayed_source sim_services ex_pulling [] (upstream_ref ex_plan) = None"
    by (simp add: relayed_source_def ex_pulling_def)
  ultimately show ?thesis
    using stop_during_completing_pull_is_lost[OF sim_laws ex_gang_ok, of ex_plan ex_dep ex_pulling "[]"] i
    by (simp add: ex_pulling_def)
qed

text \<open>
  C9. An error the runtime does not call its own strands what was created. When the second rank's
  node cannot be resolved, the first rank's container stays, the exception leaves the start, and
  the background handler's error record lists no new orphan for it.
\<close>

theorem escaped_error_strands_ranks:
  assumes "node_service_laws D ok lab" and "recs_ok (g_recs s)"
    and "p_ranks p = [r0, r1]" and "get_deployment (p_id p) s = Some r" and "\<not> teardown_requested (p_id p) s"
    and "ks_resolve D (rp_node r0) (g_world s) = Inr ()" and "create_rank D p r0 s = (Inr ws, s1)"
    and "ks_resolve D (rp_node r1) (g_world s1) = Inl (OtherExc m)"
  shows "launch_locked D k p rec s = (Raise (OtherExc m), s1) \<and> get_deployment (p_id p) s1 = Some r \<and>
    g_world (background_failed D p (OtherExc m) s1) = g_world s1 \<and>
    (\<exists>r'. get_deployment (p_id p) (background_failed D p (OtherExc m) s1) = Some r' \<and>
       d_status r' = ''error'' \<and> d_orphans r' = d_orphans r)"
proof -
  have same: "g_recs s1 = g_recs s" using node_service_laws.create_rank_steps[OF assms(1,7)] by blast
  have g: "get_deployment j s1 = get_deployment j s" for j by (rule get_deployment_cong[OF same])
  let ?i = "p_id p" and ?now = "ks_now D (g_world s1)"
  let ?m = "''the deploy of '' @ p_id p @ '' failed to start: '' @ exc_text (OtherExc m)"
  let ?f = "\<lambda>r. id (r\<lparr>d_status := ''error'', d_error_message := Some (error_text ?m), d_stopped_at := Some (Some ?now)\<rparr>)"
  let ?p = "publish ''deployment_error'' ?i (error_text ?m) s1"
  have "d_status r \<noteq> ''stopped''" using assms(4,5) by (auto simp: teardown_requested_def is_torn_down_def)
  then have b: "background_failed D p (OtherExc m) s1 = snd (update_record ?i ?f ?p)"
    using assms(4) g by (simp add: background_failed_def is_torn_down_def record_error_def Let_def)
  have "get_deployment ?i (snd (update_record ?i ?f ?p)) = Some (redact_record (?f r))"
    using get_update_record[of ?p ?f ?i ?i] assms(2,4) g same by simp
  moreover have "launch_locked D k p rec s = (Raise (OtherExc m), s1)"
    using assms(3,5,6,7,8) by (simp add: launch_locked_def teardown_order_def rank_failed_def)
  ultimately show ?thesis using g assms(4) by (simp add: b)
qed

definition ex_unregistered :: "sim node_services" where
  "ex_unregistered = sim_services\<lparr>ks_resolve := (\<lambda>a w. if a = [] then Inr () else Inl (OtherExc ''no agent''))\<rparr>"

lemma ex_unregistered_laws: "node_service_laws ex_unregistered sim_ok sim_labels"
  using sim_laws unfolding node_service_laws_def ex_unregistered_def by simp

theorem escaped_error_strands_ranks_witness:
  "\<exists>s1. launch_locked ex_unregistered 0 ex_plan ex_dep ex_gang = (Raise (OtherExc ''no agent''), s1) \<and>
     get_deployment ''a'' s1 = Some ex_dep"
proof -
  have e: "create_rank ex_unregistered ex_plan (ex_rank_plan 0 []) ex_gang = create_rank sim_services ex_plan (ex_rank_plan 0 []) ex_gang"
    by (simp add: create_rank_def make_bind_sources_def ex_unregistered_def ex_plan_def ex_rank_plan_def ex_spec_def Let_def
        split: prod.split sum.split)
  obtain s1 where "create_rank ex_unregistered ex_plan (ex_rank_plan 0 []) ex_gang = (Inr [], s1)"
    using ex_create_rank e by (metis prod.collapse)
  then show ?thesis
    using escaped_error_strands_ranks[OF ex_unregistered_laws ex_gang_ok(1), of ex_plan "ex_rank_plan 0 []"
        "ex_rank_plan 1 ''10.0.0.3''" ex_dep "[]" s1 "''no agent''" 0 ex_dep]
    by (simp add: ex_plan_def ex_rank_plan_def ex_unregistered_def teardown_requested_def is_torn_down_def
        pull_cancel_requested_def dict_lookup_def ex_gang_def get_deployment_def ex_dep_def)
qed

end
