(* ===== verification/Reconciler.thy ===== *)
theory Reconciler
  imports Gang_Interleave
begin

text \<open>
  The reconciler, \<open>spark_pulse/tools/reconciler.py\<close>, and the request that gives it work
  (\<open>routers/deployments.py\<close>). A request records an intent in three fields of the record; a sweep
  advances every record that is not settled. What the reconciler needs of the runtime is the
  record \<open>runtime\<close>; the locale \<open>converging_runtime\<close> states its laws, and every gang runtime over
  lawful node services satisfies them. An exception of a runtime call is a value.
\<close>

section \<open>The convergence state of a record\<close>

definition sync_ok :: string where "sync_ok = ''in_sync''"
definition sync_in_progress :: string where "sync_in_progress = ''in_progress''"
definition sync_deleting :: string where "sync_deleting = ''deleting''"
definition sync_unknown :: string where "sync_unknown = ''unknown''"
definition sync_states :: "string list" where
  "sync_states = [sync_ok, sync_in_progress, sync_deleting, sync_unknown]"
definition intent_stop :: string where "intent_stop = ''stop''"

lemmas sync_words = sync_ok_def sync_in_progress_def sync_deleting_def sync_unknown_def intent_stop_def

definition sync_state :: "dep \<Rightarrow> string" where
  "sync_state r = (let v = py_or (d_sync r) sync_ok in if v \<in> set sync_states then v else sync_ok)"

definition with_sync :: "string \<Rightarrow> string \<Rightarrow> string \<Rightarrow> dep \<Rightarrow> dep" where
  "with_sync st reason want r = r\<lparr>d_sync := st, d_sync_reason := reason, d_sync_intent := want\<rparr>"

lemma with_sync_simps [simp]:
  "d_sync (with_sync st re it r) = st" "d_sync_intent (with_sync st re it r) = it" "d_id (with_sync st re it r) = d_id r"
  "d_status (with_sync st re it r) = d_status r" "d_orphans (with_sync st re it r) = d_orphans r"
  "rank_entries (with_sync st re it r) = rank_entries r" "d_runtime (with_sync st re it r) = d_runtime r"
  by (simp_all add: with_sync_def rank_entries_def)

section \<open>What the reconciler calls\<close>

record 's runtime =
  rt_stop :: "string \<Rightarrow> 's \<Rightarrow> (exc + dep option) \<times> 's"
  rt_delete :: "string \<Rightarrow> 's \<Rightarrow> (exc + bool) \<times> 's"
  rt_list :: "'s \<Rightarrow> (exc + dep list) \<times> 's"
  rt_load :: "'s \<Rightarrow> (exc + dep list) \<times> 's"
  rt_get :: "string \<Rightarrow> 's \<Rightarrow> (exc + dep option) \<times> 's"
  rt_set_sync :: "string \<Rightarrow> string \<Rightarrow> string \<Rightarrow> string \<Rightarrow> 's \<Rightarrow> (exc + dep option) \<times> 's"
  rt_publish :: "string \<Rightarrow> string \<Rightarrow> string \<Rightarrow> 's \<Rightarrow> 's"
  rt_forget :: "string \<Rightarrow> 's \<Rightarrow> 's"

definition mark :: "'s runtime \<Rightarrow> string \<Rightarrow> string \<Rightarrow> string \<Rightarrow> string \<Rightarrow> 's \<Rightarrow> (exc + dep option) \<times> 's" where
  "mark R i st reason want s =
     (if st \<notin> set sync_states then (Inl (OtherExc (''unknown sync state: '' @ st)), s)
      else case rt_set_sync R i st reason want s of
             (Inl e, s1) \<Rightarrow> (Inl e, s1)
           | (Inr None, s1) \<Rightarrow> (Inr None, s1)
           | (Inr (Some r), s1) \<Rightarrow>
               (Inr (Some r), rt_publish R ''deployment_sync'' i (py_or reason (''sync: '' @ st)) s1))"

text \<open>What a sweep reports: the record as marked, or that it is gone.\<close>

datatype touched = TRecord dep | TDeleted string

definition marked :: "(exc + dep option) \<times> 's \<Rightarrow> (exc + touched option) \<times> 's" where
  "marked m = (case m of (Inl e, s) \<Rightarrow> (Inl e, s) | (Inr r, s) \<Rightarrow> (Inr (map_option TRecord r), s))"

definition unconfirmed_reason :: string where
  "unconfirmed_reason = ''waiting for a rank whose container could not be confirmed gone''"

definition finish_stop :: "'s runtime \<Rightarrow> string \<Rightarrow> 's \<Rightarrow> (exc + touched option) \<times> 's" where
  "finish_stop R i s =
     (case rt_stop R i s of
        (Inl e, s1) \<Rightarrow> marked (mark R i sync_in_progress (''waiting on a node: '' @ exc_text e) intent_stop s1)
      | (Inr None, s1) \<Rightarrow> (Inr (Some (TDeleted i)), s1)
      | (Inr (Some r), s1) \<Rightarrow>
          if d_orphans r \<noteq> [] then marked (mark R i sync_in_progress unconfirmed_reason intent_stop s1)
          else marked (mark R i sync_ok [] [] s1))"

definition finish_delete :: "'s runtime \<Rightarrow> string \<Rightarrow> 's \<Rightarrow> (exc + touched option) \<times> 's" where
  "finish_delete R i s =
     (case rt_delete R i s of
        (Inl e, s1) \<Rightarrow> marked (mark R i sync_deleting (''waiting on a node: '' @ exc_text e) [] s1)
      | (Inr True, s1) \<Rightarrow>
          (Inr (Some (TDeleted i)),
           rt_publish R ''deployment_deleted'' i ''removed from every node'' (rt_forget R i s1))
      | (Inr False, s1) \<Rightarrow> marked (mark R i sync_deleting unconfirmed_reason [] s1))"

definition in_flight :: "dep \<Rightarrow> bool" where
  "in_flight r \<longleftrightarrow> d_status r \<in> {''pulling'', ''pending''}"

definition settle :: "'s runtime \<Rightarrow> string \<Rightarrow> dep \<Rightarrow> 's \<Rightarrow> (exc + touched option) \<times> 's" where
  "settle R i r s =
     (if in_flight r then (Inr None, s)
      else case rt_list R s of
             (Inl e, s1) \<Rightarrow> marked (mark R i sync_unknown (''a node could not be asked: '' @ exc_text e) [] s1)
           | (Inr _, s1) \<Rightarrow>
               (case rt_get R i s1 of
                  (Inl e, s2) \<Rightarrow> (Inl e, s2)
                | (Inr None, s2) \<Rightarrow> (Inr (Some (TDeleted i)), s2)
                | (Inr (Some c), s2) \<Rightarrow>
                    if in_flight c then (Inr None, s2) else marked (mark R i sync_ok [] [] s2)))"

definition converge :: "'s runtime \<Rightarrow> dep \<Rightarrow> string \<Rightarrow> 's \<Rightarrow> (exc + touched option) \<times> 's" where
  "converge R r st s =
     (let i = d_id r
      in if i = [] then (Inr None, s)
         else if st = sync_deleting then finish_delete R i s
         else if st = sync_in_progress
              then (if d_sync_intent r = intent_stop then finish_stop R i s else settle R i r s)
         else (Inr None, s))"

fun sweep_loop :: "'s runtime \<Rightarrow> dep list \<Rightarrow> 's \<Rightarrow> (exc + touched list) \<times> 's" where
  "sweep_loop R [] s = (Inr [], s)"
| "sweep_loop R (r # rs) s =
     (if sync_state r = sync_ok then sweep_loop R rs s
      else case converge R r (sync_state r) s of
             (Inl e, s1) \<Rightarrow> (Inl e, s1)
           | (Inr t, s1) \<Rightarrow>
               (case sweep_loop R rs s1 of
                  (Inl e, s2) \<Rightarrow> (Inl e, s2)
                | (Inr ts, s2) \<Rightarrow> (Inr (case t of None \<Rightarrow> ts | Some x \<Rightarrow> x # ts), s2)))"

definition sweep :: "'s runtime \<Rightarrow> 's \<Rightarrow> (exc + touched list) \<times> 's" where
  "sweep R s =
     (case rt_load R s of (Inl e, s1) \<Rightarrow> (Inl e, s1) | (Inr rs, s1) \<Rightarrow> sweep_loop R rs s1)"

text \<open>
  The request, \<open>stop_or_delete_deployment\<close>: on a record that has ended it asks for removal, on any
  other for a stop, and answers with the state, the intent and the status of the record. Waking
  the thread is not modelled. \<open>None\<close> is the 404.
\<close>

definition request_teardown :: "'s runtime \<Rightarrow> string \<Rightarrow> 's \<Rightarrow> (exc + (string \<times> string \<times> string) option) \<times> 's" where
  "request_teardown R i s =
     (case rt_list R s of
        (Inl e, s1) \<Rightarrow> (Inl e, s1)
      | (Inr rs, s1) \<Rightarrow>
          (case find (\<lambda>r. d_id r = i) rs of
             None \<Rightarrow> (Inr None, s1)
           | Some r \<Rightarrow>
               (let ended = d_status r \<in> {''stopped'', ''error''};
                    st = (if ended then sync_deleting else sync_in_progress)
                in case mark R i st (if ended then ''removal requested'' else ''stop requested'')
                          (if ended then [] else intent_stop) s1 of
                     (Inl e, s2) \<Rightarrow> (Inl e, s2)
                   | (Inr m, s2) \<Rightarrow>
                         (Inr (Some (st, if ended then ''delete'' else intent_stop,
                                     d_status (case m of Some x \<Rightarrow> x | None \<Rightarrow> r))), s2))))"

section \<open>The contract of the runtime\<close>

text \<open>
  A call that leaves every intent alone: what is gone stays gone, and a record that is still
  there asks for what it asked for before.
\<close>

definition same_sync :: "dep \<Rightarrow> dep \<Rightarrow> bool" where
  "same_sync r r' \<longleftrightarrow> d_sync r' = d_sync r \<and> d_sync_intent r' = d_sync_intent r"

lemma same_sync_refl [simp]: "same_sync r r"
  by (simp add: same_sync_def)

lemma same_sync_state: "same_sync r r' \<Longrightarrow> sync_state r' = sync_state r"
  by (simp add: same_sync_def sync_state_def)

definition keeps_intents :: "('s \<Rightarrow> string \<Rightarrow> dep option) \<Rightarrow> ('s \<Rightarrow> string \<Rightarrow> string \<Rightarrow> bool) \<Rightarrow> 's \<Rightarrow> 's \<Rightarrow> bool" where
  "keeps_intents look gone s s' \<longleftrightarrow>
     (\<forall>a n. gone s a n \<longrightarrow> gone s' a n) \<and>
     (\<forall>i r r'. look s i = Some r \<longrightarrow> look s' i = Some r' \<longrightarrow> same_sync r r')"

lemma keeps_intents_refl [simp]: "keeps_intents look gone s s"
  by (simp add: keeps_intents_def)

text \<open>No container of the record is left on any node.\<close>

definition ranks_gone :: "('s \<Rightarrow> string \<Rightarrow> string \<Rightarrow> bool) \<Rightarrow> 's \<Rightarrow> dep \<Rightarrow> bool" where
  "ranks_gone gone s r \<longleftrightarrow> (\<forall>e \<in> set (rank_entries r). re_container e = [] \<or> gone s (re_node e) (re_container e))"

text \<open>
  The convergence state machine a sweep moves a record through. A removal ends only with the
  record; a stop request ends settled; any other change ends settled or unknown; a settled and
  an unknown record stay what they are.
\<close>

definition wants_stop :: "dep \<Rightarrow> bool" where
  "wants_stop r \<longleftrightarrow> sync_state r = sync_in_progress \<and> d_sync_intent r = intent_stop"

definition follows :: "dep \<Rightarrow> dep \<Rightarrow> bool" where
  "follows r r' \<longleftrightarrow>
     sync_state r' = sync_state r \<and> wants_stop r' = wants_stop r \<or>
     sync_state r = sync_in_progress \<and> sync_state r' = sync_ok \<or>
     sync_state r = sync_in_progress \<and> \<not> wants_stop r \<and> sync_state r' = sync_unknown"

lemma follows_refl [simp]: "follows r r"
  by (simp add: follows_def)

lemma follows_trans: "follows r r' \<Longrightarrow> follows r' r'' \<Longrightarrow> follows r r''"
  by (auto simp: follows_def wants_stop_def sync_words)

lemma same_follows: "same_sync r r' \<Longrightarrow> follows r r'"
  by (simp add: follows_def wants_stop_def same_sync_def sync_state_def)

lemma sync_state_with [simp]: "st \<in> set sync_states \<Longrightarrow> sync_state (with_sync st re it r) = st"
  by (auto simp: sync_state_def sync_states_def sync_words py_or_def)

lemma sync_states_in [simp]: "sync_ok \<in> set sync_states" "sync_in_progress \<in> set sync_states"
  "sync_deleting \<in> set sync_states" "sync_unknown \<in> set sync_states"
  by (simp_all add: sync_states_def)

lemma sync_distinct [simp]:
  "sync_ok \<noteq> sync_in_progress" "sync_ok \<noteq> sync_deleting" "sync_ok \<noteq> sync_unknown"
  "sync_in_progress \<noteq> sync_deleting" "sync_in_progress \<noteq> sync_unknown" "sync_deleting \<noteq> sync_unknown"
  "sync_in_progress \<noteq> sync_ok" "sync_deleting \<noteq> sync_ok" "sync_unknown \<noteq> sync_ok"
  "sync_deleting \<noteq> sync_in_progress" "sync_unknown \<noteq> sync_in_progress" "sync_unknown \<noteq> sync_deleting"
  by (simp_all add: sync_words)

locale converging_runtime =
  fixes R :: "'s runtime"
    and ok :: "'s \<Rightarrow> bool"
    and look :: "'s \<Rightarrow> string \<Rightarrow> dep option"
    and gone :: "'s \<Rightarrow> string \<Rightarrow> string \<Rightarrow> bool"
  assumes stop_keeps: "ok s \<Longrightarrow> rt_stop R i s = (r, s') \<Longrightarrow>
      ok s' \<and> keeps_intents look gone s s' \<and> (\<forall>j. look s j \<noteq> None \<longrightarrow> look s' j \<noteq> None)"
    and stop_answers: "ok s \<Longrightarrow> rt_stop R i s = (Inr x, s') \<Longrightarrow>
      (case x of
         None \<Rightarrow> look s' i = None
       | Some y \<Rightarrow> (\<exists>z. look s' i = Some z \<and> d_status z = ''stopped'' \<and> d_orphans z = d_orphans y \<and>
           (d_orphans y = [] \<longrightarrow> ranks_gone gone s' z)))"
    and delete_keeps: "ok s \<Longrightarrow> rt_delete R i s = (d, s') \<Longrightarrow>
      ok s' \<and> keeps_intents look gone s s' \<and> (\<forall>j. j \<noteq> i \<longrightarrow> look s j \<noteq> None \<longrightarrow> look s' j \<noteq> None)"
    and delete_answers: "ok s \<Longrightarrow> rt_delete R i s = (d, s') \<Longrightarrow>
      (if d = Inr True then look s' i = None \<and> (\<forall>r. look s i = Some r \<longrightarrow> ranks_gone gone s' r)
       else (look s i \<noteq> None \<longrightarrow> look s' i \<noteq> None))"
    and list_keeps: "ok s \<Longrightarrow> rt_list R s = (l, s') \<Longrightarrow>
      ok s' \<and> keeps_intents look gone s s' \<and> (\<forall>j. look s j \<noteq> None \<longrightarrow> look s' j \<noteq> None)"
    and load_reads: "ok s \<Longrightarrow> rt_load R s = (l, s') \<Longrightarrow>
      s' = s \<and> (\<forall>rs. l = Inr rs \<longrightarrow> (\<forall>x. x \<in> set rs \<longleftrightarrow> look s (d_id x) = Some x) \<and> distinct (map d_id rs))"
    and get_reads: "ok s \<Longrightarrow> rt_get R i s = (g, s') \<Longrightarrow> s' = s \<and> (\<forall>x. g = Inr x \<longrightarrow> x = look s i)"
    and set_sync_writes: "ok s \<Longrightarrow> rt_set_sync R i st re it s = (r, s') \<Longrightarrow>
      ok s' \<and> gone s' = gone s \<and>
      (case r of Inl e \<Rightarrow> look s' = look s
       | Inr x \<Rightarrow> x = map_option (with_sync st re it) (look s i) \<and> look s' = (look s)(i := x))"
    and publish_neutral: "ok s \<Longrightarrow> ok (rt_publish R t i m s) \<and> look (rt_publish R t i m s) = look s \<and>
      gone (rt_publish R t i m s) = gone s"
    and forget_neutral: "ok s \<Longrightarrow> ok (rt_forget R i s) \<and> look (rt_forget R i s) = look s \<and> gone (rt_forget R i s) = gone s"
    and look_id: "ok s \<Longrightarrow> look s i = Some q \<Longrightarrow> d_id q = i \<and> i \<noteq> []"
begin

text \<open>A mark of a legal state writes the three fields of one record and nothing else.\<close>

lemma mark_result:
  assumes ok: "ok s" and st: "st \<in> set sync_states" and m: "mark R i st re it s = (r, s')"
  shows "ok s' \<and> gone s' = gone s \<and>
    (look s' = look s \<and> (\<exists>e. r = Inl e) \<or>
     look s' = (look s)(i := map_option (with_sync st re it) (look s i)) \<and> r = Inr (map_option (with_sync st re it) (look s i)))"
proof -
  obtain r1 s1 where c: "rt_set_sync R i st re it s = (r1, s1)" by force
  note w = set_sync_writes[OF ok c]
  then have ok1: "ok s1" by simp
  show ?thesis
  proof (cases r1)
    case (Inl e)
    with m w c st show ?thesis by (auto simp: mark_def)
  next
    case (Inr x)
    with m w c st publish_neutral[OF ok1] show ?thesis by (cases x) (auto simp: mark_def)
  qed
qed

lemma marked_result:
  assumes "ok s" and "st \<in> set sync_states" and m: "marked (mark R i st re it s) = (r, s')"
  shows "ok s' \<and> gone s' = gone s \<and>
    (look s' = look s \<and> (\<exists>e. r = Inl e) \<or> look s' = (look s)(i := map_option (with_sync st re it) (look s i)))"
proof -
  obtain r1 s1 where c: "mark R i st re it s = (r1, s1)" by force
  with m have "s' = s1" "(\<exists>e. r = Inl e) = (\<exists>e. r1 = Inl e)"
    by (auto simp: marked_def split: sum.splits)
  with mark_result[OF assms(1,2) c] show ?thesis by auto
qed

text \<open>What a converging call does around its own record.\<close>

definition advances :: "string \<Rightarrow> 's \<Rightarrow> 's \<Rightarrow> bool" where
  "advances i s s' \<longleftrightarrow> ok s' \<and> (\<forall>a n. gone s a n \<longrightarrow> gone s' a n) \<and>
     (\<forall>j r. j \<noteq> i \<longrightarrow> look s j = Some r \<longrightarrow> (\<exists>r'. look s' j = Some r' \<and> same_sync r r'))"

lemma advancesI:
  assumes "ok s'" "keeps_intents look gone s s'" "\<forall>j. j \<noteq> i \<longrightarrow> look s j \<noteq> None \<longrightarrow> look s' j \<noteq> None"
  shows "advances i s s'"
  using assms unfolding advances_def keeps_intents_def by (metis option.exhaust)

lemma advances_mark:
  assumes "advances i s s1" "ok s'" "gone s' = gone s1"
    and "look s' = look s1 \<or> look s' = (look s1)(i := x)"
  shows "advances i s s'"
  using assms unfolding advances_def by auto

text \<open>The end of a converging call that marks: the record, if it is there, has the new state.\<close>

lemma marked_step:
  assumes a: "advances i s s1" and st: "st \<in> set sync_states"
    and m: "marked (mark R i st re it s1) = (Inr t, s')"
  shows "advances i s s' \<and> look s' i = map_option (with_sync st re it) (look s1 i) \<and> gone s' = gone s1"
proof -
  from a have ok1: "ok s1" by (simp add: advances_def)
  note w = marked_result[OF ok1 st m]
  then have l: "look s' = (look s1)(i := map_option (with_sync st re it) (look s1 i))" by auto
  with advances_mark[OF a, of s'] w show ?thesis by auto
qed

subsection \<open>Stopping\<close>

text \<open>
  A stop is declared done on evidence: the record a finished stop leaves in sync is stopped, has
  no orphan, and no container of it is left. In every other case the stop stays asked for.
\<close>

lemma finish_stop_result:
  assumes ok: "ok s" and x: "look s i = Some x" and run: "finish_stop R i s = (Inr t, s')"
  shows "advances i s s' \<and> (\<exists>y. look s' i = Some y \<and>
      (sync_state y = sync_ok \<and> d_status y = ''stopped'' \<and> d_orphans y = [] \<and> ranks_gone gone s' y \<or> wants_stop y))"
proof -
  obtain r1 s1 where c: "rt_stop R i s = (r1, s1)" by force
  note k = stop_keeps[OF ok c]
  then have a: "advances i s s1" by (intro advancesI) auto
  from k x obtain z where z: "look s1 i = Some z" by fastforce
  have stop: "wants_stop (with_sync sync_in_progress re intent_stop z)" for re
    by (simp add: wants_stop_def)
  show ?thesis
  proof (cases r1)
    case (Inl e)
    with run c have m: "marked (mark R i sync_in_progress (''waiting on a node: '' @ exc_text e) intent_stop s1) = (Inr t, s')"
      by (simp add: finish_stop_def)
    from marked_step[OF a _ m] z stop show ?thesis by auto
  next
    case (Inr o1)
    from stop_answers[OF ok c[unfolded Inr]] z obtain y where y: "o1 = Some y" "d_status z = ''stopped''" "d_orphans z = d_orphans y"
      "d_orphans y = [] \<longrightarrow> ranks_gone gone s1 z" by (cases o1) auto
    show ?thesis
    proof (cases "d_orphans y = []")
      case True
      with run c Inr y have m: "marked (mark R i sync_ok [] [] s1) = (Inr t, s')" by (simp add: finish_stop_def)
      from marked_step[OF a _ m] z y True show ?thesis by (auto simp: ranks_gone_def)
    next
      case False
      with run c Inr y have m: "marked (mark R i sync_in_progress unconfirmed_reason intent_stop s1) = (Inr t, s')"
        by (simp add: finish_stop_def)
      from marked_step[OF a _ m] z stop show ?thesis by auto
    qed
  qed
qed

subsection \<open>Deleting\<close>

lemma finish_delete_result:
  assumes ok: "ok s" and x: "look s i = Some x" and run: "finish_delete R i s = (Inr t, s')"
  shows "advances i s s' \<and>
    (t = Some (TDeleted i) \<and> look s' i = None \<and> ranks_gone gone s' x \<or>
     (\<exists>y. look s' i = Some y \<and> sync_state y = sync_deleting \<and> \<not> wants_stop y))"
proof -
  obtain d s1 where c: "rt_delete R i s = (d, s1)" by force
  note k = delete_keeps[OF ok c]
  then have a: "advances i s s1" by (intro advancesI) auto
  show ?thesis
  proof (cases d)
    case (Inl e)
    with run c have m: "marked (mark R i sync_deleting (''waiting on a node: '' @ exc_text e) [] s1) = (Inr t, s')"
      by (simp add: finish_delete_def)
    from delete_answers[OF ok c] Inl x obtain z where "look s1 i = Some z" by auto
    with marked_step[OF a _ m] show ?thesis by (auto simp: wants_stop_def)
  next
    case (Inr b)
    note ans = delete_answers[OF ok c]
    show ?thesis
    proof (cases b)
      case True
      let ?s = "rt_publish R ''deployment_deleted'' i ''removed from every node'' (rt_forget R i s1)"
      from True run c Inr have r: "t = Some (TDeleted i)" "s' = ?s" by (auto simp: finish_delete_def)
      have n: "ok ?s" "look ?s = look s1" "gone ?s = gone s1"
        using forget_neutral[of s1 i] publish_neutral[of "rt_forget R i s1"] k by auto
      with advances_mark[OF a n(1)] ans True Inr x r show ?thesis by (auto simp: ranks_gone_def)
    next
      case False
      with run c Inr have m: "marked (mark R i sync_deleting unconfirmed_reason [] s1) = (Inr t, s')"
        by (simp add: finish_delete_def)
      from ans False Inr x obtain z where "look s1 i = Some z" by auto
      with marked_step[OF a _ m] show ?thesis by (auto simp: wants_stop_def)
    qed
  qed
qed

subsection \<open>Settling and sweeping\<close>

lemma settle_result:
  assumes ok: "ok s" and x: "look s i = Some x" and run: "settle R i r s = (Inr t, s')"
  shows "advances i s s' \<and> (\<exists>y. look s' i = Some y \<and> (same_sync x y \<or> sync_state y \<in> {sync_ok, sync_unknown}))"
proof (cases "in_flight r")
  case True
  with run ok x show ?thesis by (auto simp: settle_def advances_def)
next
  case False
  obtain l s1 where c: "rt_list R s = (l, s1)" by force
  note k = list_keeps[OF ok c]
  then have a: "advances i s s1" and ok1: "ok s1" by (auto intro: advancesI)
  from k x obtain z where z: "look s1 i = Some z" "same_sync x z" unfolding keeps_intents_def by fastforce
  show ?thesis
  proof (cases l)
    case (Inl e)
    with run c False have m: "marked (mark R i sync_unknown (''a node could not be asked: '' @ exc_text e) [] s1) = (Inr t, s')"
      by (simp add: settle_def)
    from marked_step[OF a _ m] z show ?thesis by auto
  next
    case (Inr ds)
    obtain g s2 where c2: "rt_get R i s1 = (g, s2)" by force
    note gr = get_reads[OF ok1 c2]
    show ?thesis
    proof (cases g)
      case (Inl e)
      with run c c2 False Inr show ?thesis by (simp add: settle_def)
    next
      case (Inr cur)
      with gr z have cur: "cur = Some z" "s2 = s1" by auto
      show ?thesis
      proof (cases "in_flight z")
        case True
        with run c c2 False Inr \<open>l = Inr ds\<close> cur a z show ?thesis by (auto simp: settle_def)
      next
        case False
        with run c c2 \<open>\<not> in_flight r\<close> Inr \<open>l = Inr ds\<close> cur have m: "marked (mark R i sync_ok [] [] s1) = (Inr t, s')"
          by (simp add: settle_def)
        from marked_step[OF a _ m] z show ?thesis by auto
      qed
    qed
  qed
qed

text \<open>One record of a sweep.\<close>

lemma converge_result:
  assumes ok: "ok s" and x: "look s (d_id r) = Some x" and same: "same_sync r x" and ns: "sync_state r \<noteq> sync_ok"
    and run: "converge R r (sync_state r) s = (Inr t, s')"
  shows "advances (d_id r) s s' \<and>
    (t = Some (TDeleted (d_id r)) \<and> sync_state x = sync_deleting \<and> look s' (d_id r) = None \<and> ranks_gone gone s' x \<or>
     (\<exists>y. look s' (d_id r) = Some y \<and> follows x y))"
proof -
  let ?i = "d_id r"
  have i: "?i \<noteq> []" using look_id[OF ok x] by simp
  have sx: "sync_state x = sync_state r" and ix: "d_sync_intent x = d_sync_intent r"
    using same same_sync_state[OF same] by (simp_all add: same_sync_def)
  consider "sync_state r = sync_deleting" | "sync_state r = sync_in_progress" "d_sync_intent r = intent_stop"
    | "sync_state r = sync_in_progress" "d_sync_intent r \<noteq> intent_stop"
    | "sync_state r \<noteq> sync_deleting" "sync_state r \<noteq> sync_in_progress" by blast
  then show ?thesis
  proof cases
    case 1
    with run i have "finish_delete R ?i s = (Inr t, s')" by (simp add: converge_def)
    from finish_delete_result[OF ok x this] 1 sx show ?thesis by (auto simp: follows_def wants_stop_def)
  next
    case 2
    with run i have "finish_stop R ?i s = (Inr t, s')" by (simp add: converge_def)
    from finish_stop_result[OF ok x this] 2 sx ix show ?thesis by (auto simp: follows_def wants_stop_def)
  next
    case 3
    with run i have "settle R ?i r s = (Inr t, s')" by (simp add: converge_def)
    from settle_result[OF ok x this] 3 sx ix show ?thesis
      by (auto simp: follows_def wants_stop_def same_sync_def sync_state_def)
  next
    case 4
    with run i have "t = None" "s' = s" by (auto simp: converge_def)
    with ok x show ?thesis by (auto simp: advances_def)
  qed
qed

lemma advances_refl: "ok s \<Longrightarrow> advances i s s"
  by (auto simp: advances_def)

text \<open>
  A sweep that ends: each record it had read is reported removed, on evidence, or is still there
  and follows what it asked for.
\<close>

lemma sweep_loop_result:
  assumes "ok s" and "distinct (map d_id rs)" and "\<forall>r \<in> set rs. \<exists>x. look s (d_id r) = Some x \<and> same_sync r x"
    and "sweep_loop R rs s = (Inr ts, s')"
  shows "ok s' \<and> (\<forall>a n. gone s a n \<longrightarrow> gone s' a n) \<and>
    (\<forall>i x. i \<notin> d_id ` set rs \<and> look s i = Some x \<longrightarrow> (\<exists>y. look s' i = Some y \<and> same_sync x y)) \<and>
    (\<forall>r \<in> set rs. (TDeleted (d_id r) \<in> set ts \<and> sync_state r = sync_deleting) \<or>
       (\<exists>y. look s' (d_id r) = Some y \<and> follows r y))"
  using assms
proof (induction rs arbitrary: s ts)
  case Nil
  then show ?case by auto
next
  case (Cons r rs)
  let ?i = "d_id r"
  from Cons.prems(3) obtain x where x: "look s ?i = Some x" "same_sync r x" by auto
  have ni: "?i \<notin> d_id ` set rs" using Cons.prems(2) by auto
  obtain t ts1 s1 where step: "sweep_loop R rs s1 = (Inr ts1, s')" "advances ?i s s1"
    "set ts1 \<subseteq> set ts" "\<forall>z. t = Some z \<longrightarrow> z \<in> set ts"
    "t = Some (TDeleted ?i) \<and> sync_state x = sync_deleting \<or> (\<exists>y. look s1 ?i = Some y \<and> follows x y)"
  proof (cases "sync_state r = sync_ok")
    case True
    with Cons.prems have "sweep_loop R rs s = (Inr ts, s')" by simp
    with that[of s ts None] advances_refl[OF Cons.prems(1)] x show ?thesis by auto
  next
    case False
    obtain c1 s1 where c: "converge R r (sync_state r) s = (c1, s1)" by force
    with Cons.prems(4) False obtain t where t: "c1 = Inr t" by (cases c1) auto
    obtain d1 s2 where c2: "sweep_loop R rs s1 = (d1, s2)" by force
    with Cons.prems(4) False c t obtain ts1 where "d1 = Inr ts1" "s2 = s'" "ts = (case t of None \<Rightarrow> ts1 | Some z \<Rightarrow> z # ts1)"
      by (cases d1) auto
    with that[of s1 ts1 t] converge_result[OF Cons.prems(1) x False c[unfolded t]] c2 show ?thesis
      by (auto split: option.splits)
  qed
  from step(2) have ok1: "ok s1" and g1: "\<forall>a n. gone s a n \<longrightarrow> gone s1 a n"
    and o1: "\<forall>j q. j \<noteq> ?i \<longrightarrow> look s j = Some q \<longrightarrow> (\<exists>q'. look s1 j = Some q' \<and> same_sync q q')"
    by (auto simp: advances_def)
  have "\<forall>q \<in> set rs. \<exists>z. look s1 (d_id q) = Some z \<and> same_sync q z"
  proof
    fix q assume q: "q \<in> set rs"
    with Cons.prems(3) obtain z where z: "look s (d_id q) = Some z" "same_sync q z" by auto
    moreover have "d_id q \<noteq> ?i" using q ni by (metis imageI)
    ultimately obtain z' where "look s1 (d_id q) = Some z'" "same_sync z z'" using o1 by blast
    with z show "\<exists>z. look s1 (d_id q) = Some z \<and> same_sync q z" by (auto simp: same_sync_def)
  qed
  from Cons.IH[OF ok1 _ this step(1)] Cons.prems(2)
  have ih: "ok s'" "\<forall>a n. gone s1 a n \<longrightarrow> gone s' a n"
    "\<forall>i z. i \<notin> d_id ` set rs \<and> look s1 i = Some z \<longrightarrow> (\<exists>y. look s' i = Some y \<and> same_sync z y)"
    "\<forall>q \<in> set rs. (TDeleted (d_id q) \<in> set ts1 \<and> sync_state q = sync_deleting) \<or>
       (\<exists>y. look s' (d_id q) = Some y \<and> follows q y)" by auto
  have head: "(TDeleted ?i \<in> set ts \<and> sync_state r = sync_deleting) \<or> (\<exists>y. look s' ?i = Some y \<and> follows r y)"
    using step(5)
  proof
    assume "t = Some (TDeleted ?i) \<and> sync_state x = sync_deleting"
    with step(4) same_sync_state[OF x(2)] show ?thesis by auto
  next
    assume "\<exists>y. look s1 ?i = Some y \<and> follows x y"
    then obtain y where y: "look s1 ?i = Some y" "follows x y" by blast
    with ih(3) ni obtain z where "look s' ?i = Some z" "same_sync y z" by blast
    with y follows_trans[OF follows_trans[OF same_follows[OF x(2)]] same_follows] show ?thesis by blast
  qed
  have others: "\<exists>y. look s' j = Some y \<and> same_sync z y" if "j \<notin> d_id ` set (r # rs)" "look s j = Some z" for j z
  proof -
    from that(1) have "j \<noteq> ?i" by auto
    with o1 that(2) obtain z1 where z1: "look s1 j = Some z1" "same_sync z z1" by blast
    moreover from that(1) have "j \<notin> d_id ` set rs" by auto
    ultimately obtain y where "look s' j = Some y" "same_sync z1 y" using ih(3) by blast
    with z1 show ?thesis by (auto simp: same_sync_def)
  qed
  show ?case
    using ih(1,2,4) g1 head others step(3) by auto
qed

lemma sweep_result:
  assumes ok: "ok s" and run: "sweep R s = (Inr ts, s')" and x: "look s i = Some x"
  shows "ok s' \<and> (TDeleted i \<in> set ts \<and> sync_state x = sync_deleting \<or> (\<exists>y. look s' i = Some y \<and> follows x y))"
proof -
  obtain l s1 where c: "rt_load R s = (l, s1)" by force
  with run obtain rs where l: "l = Inr rs" and loop: "sweep_loop R rs s1 = (Inr ts, s')"
    by (cases l) (auto simp: sweep_def)
  from load_reads[OF ok c] l have rs: "s1 = s" "\<And>z. z \<in> set rs \<longleftrightarrow> look s (d_id z) = Some z" "distinct (map d_id rs)"
    by auto
  have "x \<in> set rs" and i: "d_id x = i" using rs(2) look_id[OF ok x] x by auto
  moreover have "\<forall>r \<in> set rs. \<exists>x. look s (d_id r) = Some x \<and> same_sync r x" using rs(2) by auto
  ultimately show ?thesis
    using sweep_loop_result[OF ok rs(3) _ loop[unfolded rs(1)]] by auto
qed

text \<open>When the nodes of a removal answer, one sweep completes it.\<close>

definition delete_answered :: "string \<Rightarrow> bool" where
  "delete_answered i \<longleftrightarrow> (\<forall>s. ok s \<and> look s i \<noteq> None \<longrightarrow> fst (rt_delete R i s) = Inr True)"

lemma sweep_loop_deletes:
  assumes "ok s" and "distinct (map d_id rs)" and "\<forall>r \<in> set rs. \<exists>x. look s (d_id r) = Some x \<and> same_sync r x"
    and "sweep_loop R rs s = (Inr ts, s')" and r: "r \<in> set rs" "sync_state r = sync_deleting" and a: "delete_answered (d_id r)"
  shows "TDeleted (d_id r) \<in> set ts"
  using assms(1-4) r(1)
proof (induction rs arbitrary: s ts)
  case (Cons q rs)
  from Cons.prems(3) obtain x where x: "look s (d_id q) = Some x" "same_sync q x" by auto
  show ?case
  proof (cases "sync_state q = sync_ok")
    case True
    with Cons r(2) show ?thesis by auto
  next
    case False
    obtain c1 s1 where c: "converge R q (sync_state q) s = (c1, s1)" by force
    with Cons.prems(4) False obtain t where t: "c1 = Inr t" by (cases c1) auto
    obtain d1 s2 where c2: "sweep_loop R rs s1 = (d1, s2)" by force
    with Cons.prems(4) False c t obtain ts1 where ts: "d1 = Inr ts1" "s2 = s'" "ts = (case t of None \<Rightarrow> ts1 | Some z \<Rightarrow> z # ts1)"
      by (cases d1) auto
    from converge_result[OF Cons.prems(1) x False c[unfolded t]] have adv: "advances (d_id q) s s1" by simp
    show ?thesis
    proof (cases "r = q")
      case True
      have i: "d_id q \<noteq> []" using look_id[OF Cons.prems(1) x(1)] by simp
      have "fst (rt_delete R (d_id q) s) = Inr True" using a True x(1) Cons.prems(1) by (simp add: delete_answered_def)
      with c t r(2) True i have "t = Some (TDeleted (d_id q))"
        by (auto simp: converge_def finish_delete_def Let_def split: prod.splits sum.splits bool.splits)
      with ts True show ?thesis by simp
    next
      case False
      with Cons.prems(5) have "r \<in> set rs" by simp
      moreover have "\<forall>p \<in> set rs. \<exists>z. look s1 (d_id p) = Some z \<and> same_sync p z"
      proof
        fix p assume p: "p \<in> set rs"
        with Cons.prems(3) obtain z where z: "look s (d_id p) = Some z" "same_sync p z" by auto
        moreover have "d_id p \<noteq> d_id q" using p Cons.prems(2) by (metis distinct.simps(2) imageI list.set_map list.simps(9))
        ultimately obtain z' where "look s1 (d_id p) = Some z'" "same_sync z z'" using adv unfolding advances_def by blast
        with z show "\<exists>z. look s1 (d_id p) = Some z \<and> same_sync p z" by (auto simp: same_sync_def)
      qed
      ultimately have "TDeleted (d_id r) \<in> set ts1"
        using Cons.IH[of s1 ts1] adv Cons.prems(2) c2 ts by (auto simp: advances_def)
      with ts show ?thesis by (auto split: option.splits)
    qed
  qed
qed simp

lemma sweep_deletes:
  assumes ok: "ok s" and run: "sweep R s = (Inr ts, s')" and x: "look s i = Some x" "sync_state x = sync_deleting"
    and a: "delete_answered i"
  shows "TDeleted i \<in> set ts"
proof -
  obtain l s1 where c: "rt_load R s = (l, s1)" by force
  with run obtain rs where l: "l = Inr rs" and loop: "sweep_loop R rs s1 = (Inr ts, s')"
    by (cases l) (auto simp: sweep_def)
  from load_reads[OF ok c] l have rs: "s1 = s" "\<And>z. z \<in> set rs \<longleftrightarrow> look s (d_id z) = Some z" "distinct (map d_id rs)"
    by auto
  have "x \<in> set rs" "d_id x = i" using rs(2) look_id[OF ok x(1)] x(1) by auto
  moreover have "\<forall>r \<in> set rs. \<exists>x. look s (d_id r) = Some x \<and> same_sync r x" using rs(2) by auto
  ultimately show ?thesis
    using sweep_loop_deletes[OF ok rs(3) _ loop[unfolded rs(1)]] x(2) a by blast
qed

end

end
