(* ===== verification/Reconciler_Gang.thy ===== *)
theory Reconciler_Gang
  imports Reconciler Gang_Start_Properties
begin

text \<open>
  The gang runtime keeps the reconciler's contract, whatever its node services are; the
  properties of the reconciler over it.
\<close>

section \<open>The runtime the reconciler drives\<close>

definition gang_runtime :: "'w node_services \<Rightarrow> 'w gang runtime" where
  "gang_runtime D =
     \<lparr>rt_stop = (\<lambda>i s. case stop_deployment D i s of (r, s') \<Rightarrow> (Inr r, s')),
      rt_delete = (\<lambda>i s. case delete_deployment D i s of (b, s') \<Rightarrow> (Inr b, s')),
      rt_list = (\<lambda>s. case list_deployments D s of (rs, s') \<Rightarrow> (Inr rs, s')),
      rt_load = (\<lambda>s. (Inr (g_recs s), s)),
      rt_get = (\<lambda>i s. (Inr (get_deployment i s), s)),
      rt_set_sync = (\<lambda>i st reason want s. case update_record i (with_sync st reason want) s of (r, s') \<Rightarrow> (Inr r, s')),
      rt_publish = publish, rt_forget = (\<lambda>i s. s)\<rparr>"

text \<open>Every record was made by this runtime.\<close>

definition all_native :: "'w gang \<Rightarrow> bool" where
  "all_native s \<longleftrightarrow> (\<forall>r \<in> set (g_recs s). d_runtime r = ''native'')"

definition gang_sound :: "('w \<Rightarrow> bool) \<Rightarrow> 'w gang \<Rightarrow> bool" where
  "gang_sound ok s \<longleftrightarrow> sound ok s \<and> all_native s"

definition gang_gone :: "('w \<Rightarrow> string \<Rightarrow> string \<Rightarrow> labels option) \<Rightarrow> 'w gang \<Rightarrow> string \<Rightarrow> string \<Rightarrow> bool" where
  "gang_gone lab s a n \<longleftrightarrow> lab (g_world s) a n = None"

abbreviation gang_look :: "'w gang \<Rightarrow> string \<Rightarrow> dep option" where
  "gang_look s i \<equiv> get_deployment i s"

lemma wanted_in: "(i, r) \<in> set (wanted rs) \<Longrightarrow> r \<in> set rs"
  using map_of_is_SomeI[OF wanted_distinct] by (fastforce simp: wanted_lookup dest!: find_SomeD' split: if_splits)

lemma save_recs_native: "\<forall>r \<in> set rs. d_runtime r = ''native'' \<Longrightarrow> r \<in> set (save_recs rs) \<Longrightarrow> d_runtime r = ''native''"
  by (auto simp: save_recs_def dest!: wanted_in)

lemma find_distinct: "distinct (map d_id rs) \<Longrightarrow> r \<in> set rs \<Longrightarrow> find (\<lambda>x. d_id x = d_id r) rs = Some r"
  for rs :: "dep list"
  by (induction rs) (auto simp: rev_image_eqI)

lemma recs_in_get: "recs_ok (g_recs s) \<Longrightarrow> r \<in> set (g_recs s) \<longleftrightarrow> get_deployment (d_id r) s = Some r"
  using find_distinct[of "g_recs s" r] by (auto simp: recs_ok_def get_deployment_def dest: find_SomeD')

lemma native_get: "recs_ok (g_recs s) \<Longrightarrow> all_native s \<longleftrightarrow> (\<forall>i r. get_deployment i s = Some r \<longrightarrow> d_runtime r = ''native'')"
  using recs_in_get by (auto simp: all_native_def get_deployment_def dest: find_SomeD')

section \<open>The runtime's calls leave the intents alone\<close>

lemma update_native:
  assumes "recs_ok (g_recs s)" "all_native s" "\<forall>r. d_id (f r) = d_id r" "\<forall>r. d_runtime (f r) = d_runtime r"
  shows "all_native (snd (update_record i f s))"
  using assms get_update_record[OF assms(1,3)] update_record_ok[OF assms(1)]
  by (auto simp: native_get split: if_splits)

context node_service_laws begin

text \<open>A stop in full: the record as it was, with the outcome written over it.\<close>

lemma stop_exact:
  assumes s: "gang_sound ok s" and g: "get_deployment i s = Some r"
  shows "\<exists>x s'. stop_deployment D i s = (Some x, s') \<and> gang_sound ok s' \<and> shrinks ok lab (g_world s) (g_world s') \<and>
    d_status x = ''stopped'' \<and> rank_entries x = rank_entries r \<and> same_sync r x \<and>
    (\<forall>j. get_deployment j s' = (if j = i then Some (redact_record x) else get_deployment j s)) \<and>
    (\<forall>e \<in> set (rank_entries r). accounted lab (g_world s') (d_orphans x) e) \<and>
    d_port x = d_port r \<and> d_rendezvous_port x = d_rendezvous_port r \<and> d_rpc_port x = d_rpc_port r"
proof -
  have rs: "recs_ok (g_recs s)" and ok: "ok (g_world s)" and n: "all_native s"
    using s by (simp_all add: gang_sound_def sound_def)
  let ?s = "snd (cancel_pull i s)"
  obtain os logs w where t: "teardown_entries D (rank_entries r) (g_world s) = (os, logs, w)"
    by (cases "teardown_entries D (rank_entries r) (g_world s)") auto
  let ?x = "r\<lparr>d_status := ''stopped'', d_stopped_at := Some (Some (ks_now D w)), d_orphans := os, d_final_logs := logs\<rparr>"
  have sh: "shrinks ok lab (g_world s) w" using teardown_entries_shrinks[of "g_world s" "rank_entries r"] t by simp
  from stop_locked_result[of ?s i r os logs w] rs g t obtain s' where s':
    "stop_locked D i ?s = (Some ?x, s')" "g_world s' = w" "recs_ok (g_recs s')"
    "\<forall>j. get_deployment j s' = (if j = i then Some (redact_record ?x) else get_deployment j s)" by auto
  have "d_runtime r = ''native''" using n g rs by (simp add: native_get)
  then have "all_native s'" using n s'(3,4) rs by (auto simp: native_get)
  moreover have "stop_deployment D i s = (Some ?x, s')" using g s'(1) by (simp add: stop_deployment_def)
  ultimately show ?thesis
    using s' sh shrinks_ok[OF sh ok] teardown_entries_accounted[OF ok t]
    by (intro exI[of _ ?x] exI[of _ s']) (auto simp: gang_sound_def sound_def same_sync_def rank_entries_def)
qed

lemma drop_native: "gang_sound ok s \<Longrightarrow> gang_sound ok (snd (drop_record i s))"
  using drop_record_result[of s i]
  by (auto simp: gang_sound_def sound_def native_get split: if_splits)

text \<open>A delete: gone on evidence, or what a stop leaves.\<close>

lemma delete_exact:
  assumes s: "gang_sound ok s" and run: "delete_deployment D i s = (b, s')"
  shows "gang_sound ok s' \<and> shrinks ok lab (g_world s) (g_world s') \<and>
    (\<forall>j. j \<noteq> i \<longrightarrow> get_deployment j s' = get_deployment j s) \<and>
    (case get_deployment i s of
       None \<Rightarrow> get_deployment i s' = None
     | Some r \<Rightarrow> if b then get_deployment i s' = None \<and>
           (\<forall>e \<in> set (rank_entries r). re_container e = [] \<or> lab (g_world s') (re_node e) (re_container e) = None)
         else \<exists>x. get_deployment i s' = Some x \<and> same_sync r x)"
proof (cases "get_deployment i s")
  case None
  with run s show ?thesis by (auto simp: delete_deployment_def)
next
  case (Some r)
  have rs: "recs_ok (g_recs s)" and ok: "ok (g_world s)" using s by (simp_all add: gang_sound_def sound_def)
  note d = delete_deployment_result[OF rs ok Some run]
  let ?s = "snd (cancel_pull i s)"
  have s1: "gang_sound ok ?s" using s by (simp add: gang_sound_def sound_def all_native_def)
  from stop_exact[OF s1, of i r] Some obtain x s2 where st: "stop_deployment D i ?s = (Some x, s2)" "gang_sound ok s2"
    "same_sync r x" "get_deployment i s2 = Some (redact_record x)" by auto
  have c: "(if d_orphans x \<noteq> [] then (False, s2) else drop_record i s2) = (b, s')"
    using run st(1) Some by (simp add: delete_deployment_def delete_locked_def)
  have "gang_sound ok s'" using c st(2) drop_native[OF st(2), of i] by (auto split: if_splits)
  moreover have "\<exists>x. get_deployment i s' = Some x \<and> same_sync r x" if "\<not> b"
  proof (cases "d_orphans x = []")
    case True
    with c drop_record_result[of s2 i] st(2,4) that show ?thesis by (auto simp: gang_sound_def sound_def)
  next
    case False
    with c st(3,4) show ?thesis by (auto simp: same_sync_def)
  qed
  ultimately show ?thesis using d Some by auto
qed

subsection \<open>The list\<close>

lemma judge_same [simp]: "d_id (judge_record D now cs r) = d_id r" "same_sync r (judge_record D now cs r)"
  "d_runtime (judge_record D now cs r) = d_runtime r"
  by (simp_all add: judge_record_def same_sync_def)

lemma adopted_id [simp]: "d_id (adopted_record now c) = adopt_id c" "d_runtime (adopted_record now c) = ''native''"
  by (simp_all add: adopted_record_def blank_dep_def Let_def)

lemma list_exact:
  assumes s: "gang_sound ok s" and run: "list_deployments D s = (rs, s')"
  shows "gang_sound ok s' \<and> shrinks ok lab (g_world s) (g_world s') \<and>
    (\<forall>i r. get_deployment i s = Some r \<longrightarrow> (\<exists>r'. get_deployment i s' = Some r' \<and> same_sync r r'))"
proof -
  have rok: "recs_ok (g_recs s)" and ok: "ok (g_world s)" and n: "all_native s"
    using s by (simp_all add: gang_sound_def sound_def)
  let ?q = "case ks_resolve D [] (g_world s) of Inl e \<Rightarrow> (Inl e, g_world s)
      | Inr _ \<Rightarrow> ks_list D [] [(label ''deployment'', [])] (g_world s)"
  obtain l w1 where q: "?q = (l, w1)" by force
  have sh: "shrinks ok lab (g_world s) w1"
    using q list_shrinks[of "g_world s" "[]" "[(label ''deployment'', [])]"] by (auto split: sum.splits)
  have ok1: "ok w1" using shrinks_ok[OF sh ok] .
  show ?thesis
  proof (cases l)
    case (Inl e)
    with run q have "s' = s\<lparr>g_world := w1\<rparr>" by (auto simp: list_deployments_def Let_def)
    with s sh ok1 show ?thesis by (auto simp: gang_sound_def sound_def all_native_def get_deployment_def)
  next
    case (Inr cs)
    define now where "now = ks_now D w1"
    define judge where "judge = (\<lambda>r. if d_runtime r = ''native'' then judge_record D now cs r else r)"
    define known where "known = map d_id (filter (\<lambda>r. d_runtime r = ''native'') (g_recs s))"
    define adopted where "adopted = map (adopted_record now) (filter (adopts known) cs)"
    define recs where "recs = map judge (g_recs s) @ adopted"
    define s1 where "s1 = s\<lparr>g_world := w1, g_recs := (if adopted \<noteq> [] \<or> map judge (g_recs s) \<noteq> g_recs s
        then save_recs recs else g_recs s)\<rparr>"
    have s': "s' = snd (sweep_orphans D None s1)"
      using run q Inr unfolding list_deployments_def Let_def s1_def recs_def adopted_def known_def judge_def now_def
      by auto
    have nat: "r \<in> set (g_recs s) \<Longrightarrow> d_runtime r = ''native''" for r using n by (simp add: all_native_def)
    have kn: "known = map d_id (g_recs s)" using nat by (simp add: known_def)
    have nr: "\<forall>r \<in> set recs. d_runtime r = ''native''" using nat by (auto simp: recs_def judge_def adopted_def)
    have so1: "gang_sound ok s1"
      using rok ok1 n save_recs_native[OF nr] by (auto simp: s1_def gang_sound_def sound_def recs_ok_save all_native_def)
    have get1: "\<exists>r'. get_deployment i s1 = Some r' \<and> same_sync r r'" if "get_deployment i s = Some r" for i r
    proof -
      have f: "find (\<lambda>r. d_id r = i) (g_recs s) = Some r" and i: "i \<noteq> []" and mem: "i \<in> set known"
        using that recs_ok_find_Nil[OF rok] by (auto simp: get_deployment_def kn dest: find_SomeD')
      have j: "find (\<lambda>r. d_id r = i) (map judge rs) = map_option judge (find (\<lambda>r. d_id r = i) rs)" for rs
        by (induction rs) (auto simp: judge_def)
      have "find (\<lambda>r. d_id r = i) (rev adopted) = None"
        using mem by (auto simp: adopted_def find_None_iff' adopts_def)
      moreover have "distinct (map d_id (map judge (g_recs s)))"
        using rok by (simp add: recs_ok_def judge_def comp_def if_distrib cong: if_cong)
      ultimately have "find (\<lambda>r. d_id r = i) (rev recs) = Some (judge r)"
        using find_rev_distinct[of "map judge (g_recs s)" i] f by (simp add: recs_def find_append j)
      moreover have "same_sync r (judge r)" "same_sync r (redact_record (judge r))"
        by (auto simp: judge_def same_sync_def judge_record_def)
      ultimately show ?thesis
        using f i by (auto simp: s1_def get_deployment_def find_save_recs)
    qed
    obtain k where "sweep_orphans D None s1 = (k, s')" using s' by (cases "sweep_orphans D None s1") auto
    from sweep_orphans_result[OF _ _ this] so1 have sw: "recs_ok (g_recs s')" "ok (g_world s')"
      "shrinks ok lab (g_world s1) (g_world s')"
      "\<And>i. rel_option (swept (g_world s')) (get_deployment i s1) (get_deployment i s')"
      by (auto simp: gang_sound_def sound_def)
    have ss: "same_sync r r' \<and> d_runtime r' = d_runtime r" if "swept w r r'" for w r r'
    proof -
      from that have "r' = r\<lparr>d_orphans := d_orphans r'\<rparr>" by (simp add: swept_def)
      then show ?thesis unfolding same_sync_def by (metis dep.select_convs dep.surjective dep.update_convs(25))
    qed
    have "all_native s'"
    proof -
      have "d_runtime r' = ''native''" if "get_deployment i s' = Some r'" for i r'
      proof -
        from sw(4)[of i] that obtain r where "get_deployment i s1 = Some r" "swept (g_world s') r r'"
          by (cases "get_deployment i s1") auto
        with so1 ss show ?thesis by (auto simp: gang_sound_def sound_def native_get)
      qed
      with sw(1) show ?thesis by (simp add: native_get)
    qed
    moreover have "\<exists>r'. get_deployment i s' = Some r' \<and> same_sync r r'" if g: "get_deployment i s = Some r" for i r
    proof -
      from get1[OF g] obtain r1 where r1: "get_deployment i s1 = Some r1" "same_sync r r1" by blast
      with sw(4)[of i] obtain r2 where "get_deployment i s' = Some r2" "swept (g_world s') r1 r2"
        by (auto simp: option_rel_Some1)
      with ss r1 show ?thesis by (auto simp: same_sync_def)
    qed
    ultimately show ?thesis
      using sw(1-3) shrinks_trans[OF sh] by (auto simp: gang_sound_def sound_def s1_def)
  qed
qed

lemma get_redacted: "recs_ok (g_recs s) \<Longrightarrow> get_deployment i s = Some r \<Longrightarrow> redact_record r = r \<and> d_id r = i \<and> i \<noteq> []"
  using recs_ok_find[of "g_recs s" i] recs_ok_find_Nil[of "g_recs s"]
  by (auto simp: get_deployment_def dest: find_SomeD')

lemma mark_exact:
  assumes s: "gang_sound ok s" and run: "update_record i (with_sync st re it) s = (r, s')"
  shows "gang_sound ok s' \<and> g_world s' = g_world s \<and> r = map_option (with_sync st re it) (get_deployment i s) \<and>
    (\<forall>j. get_deployment j s' = (if j = i then r else get_deployment j s))"
proof -
  have rs: "recs_ok (g_recs s)" using s by (simp add: gang_sound_def sound_def)
  have s': "s' = snd (update_record i (with_sync st re it) s)" and r: "r = fst (update_record i (with_sync st re it) s)"
    using run by simp_all
  have red: "redact_record (with_sync st re it x) = with_sync st re it x" if "redact_record x = x" for x
    using arg_cong[OF that, of d_launch_command] by (simp add: redact_record_def with_sync_def)
  have f: "r = map_option (with_sync st re it) (get_deployment i s)"
    using update_record_fst[of "with_sync st re it" i s] by (simp add: r)
  have "get_deployment j s' = (if j = i then r else get_deployment j s)" for j
    using get_update_record[OF rs, of "with_sync st re it" j i] get_redacted[OF rs, of i] red f
    by (cases "get_deployment i s") (auto simp: s')
  moreover have "gang_sound ok s'"
    using s update_record_ok[OF rs, of i "with_sync st re it"] update_native[OF rs, of "with_sync st re it" i]
    by (auto simp: gang_sound_def sound_def s')
  ultimately show ?thesis using f by (simp add: s')
qed

lemma keeps_gang:
  assumes "shrinks ok lab (g_world s) (g_world s')" "gang_sound ok s"
    and "\<forall>i r r'. get_deployment i s = Some r \<longrightarrow> get_deployment i s' = Some r' \<longrightarrow> same_sync r r'"
  shows "keeps_intents (\<lambda>s i. get_deployment i s) (gang_gone lab) s s'"
  using assms shrinks_None[OF assms(1)]
  by (auto simp: keeps_intents_def gang_gone_def gang_sound_def sound_def)

sublocale gang: converging_runtime "gang_runtime D" "gang_sound ok" "\<lambda>s i. get_deployment i s" "gang_gone lab"
proof unfold_locales
  fix s s' i r x
  assume s: "gang_sound ok s" and "rt_stop (gang_runtime D) i s = (r, s')"
  then obtain q where q: "stop_deployment D i s = (q, s')" "r = Inr q" by (auto simp: gang_runtime_def split: prod.splits)
  have "gang_sound ok s' \<and> shrinks ok lab (g_world s) (g_world s') \<and>
    (\<forall>j y. get_deployment j s = Some y \<longrightarrow> (\<exists>z. get_deployment j s' = Some z \<and> same_sync y z))"
  proof (cases "get_deployment i s")
    case None
    with q s show ?thesis by (auto simp: stop_deployment_def)
  next
    case (Some y)
    from stop_exact[OF s this] q obtain x where "gang_sound ok s'" "shrinks ok lab (g_world s) (g_world s')" "same_sync y x"
      "\<forall>j. get_deployment j s' = (if j = i then Some (redact_record x) else get_deployment j s)" by auto
    with Some show ?thesis by (auto simp: same_sync_def)
  qed
  then show "gang_sound ok s' \<and> keeps_intents (\<lambda>s i. get_deployment i s) (gang_gone lab) s s' \<and>
      (\<forall>j. get_deployment j s \<noteq> None \<longrightarrow> get_deployment j s' \<noteq> None)"
    using keeps_gang[OF _ s] by fastforce
next
  fix s s' i x
  assume s: "gang_sound ok s" and "rt_stop (gang_runtime D) i s = (Inr x, s')"
  then have q: "stop_deployment D i s = (x, s')" by (auto simp: gang_runtime_def split: prod.splits)
  show "case x of None \<Rightarrow> get_deployment i s' = None
       | Some y \<Rightarrow> (\<exists>z. get_deployment i s' = Some z \<and> d_status z = ''stopped'' \<and> d_orphans z = d_orphans y \<and>
           (d_orphans y = [] \<longrightarrow> ranks_gone (gang_gone lab) s' z))"
  proof (cases "get_deployment i s")
    case None
    with q show ?thesis by (auto simp: stop_deployment_def)
  next
    case (Some r)
    from stop_exact[OF s this] q obtain y where y: "x = Some y" "d_status y = ''stopped''" "rank_entries y = rank_entries r"
      "get_deployment i s' = Some (redact_record y)"
      "\<forall>e \<in> set (rank_entries r). accounted lab (g_world s') (d_orphans y) e" by auto
    moreover have "rank_entries (redact_record y) = rank_entries y"
      by (simp add: rank_entries_def redact_record_def)
    ultimately show ?thesis
      by (auto simp: ranks_gone_def gang_gone_def accounted_def outstanding_def)
  qed
next
  fix s s' i d
  assume s: "gang_sound ok s" and "rt_delete (gang_runtime D) i s = (d, s')"
  then obtain b where q: "delete_deployment D i s = (b, s')" "d = Inr b" by (auto simp: gang_runtime_def split: prod.splits)
  note e = delete_exact[OF s q(1)]
  have "\<forall>j y z. get_deployment j s = Some y \<longrightarrow> get_deployment j s' = Some z \<longrightarrow> same_sync y z"
  proof (intro allI impI)
    fix j y z assume h: "get_deployment j s = Some y" "get_deployment j s' = Some z"
    show "same_sync y z"
    proof (cases "j = i")
      case True
      with e h show ?thesis by (cases b) auto
    next
      case False
      with e h show ?thesis by auto
    qed
  qed
  then show "gang_sound ok s' \<and> keeps_intents (\<lambda>s i. get_deployment i s) (gang_gone lab) s s' \<and>
      (\<forall>j. j \<noteq> i \<longrightarrow> get_deployment j s \<noteq> None \<longrightarrow> get_deployment j s' \<noteq> None)"
    using keeps_gang[OF _ s] e by auto
  show "if d = Inr True then get_deployment i s' = None \<and> (\<forall>r. get_deployment i s = Some r \<longrightarrow> ranks_gone (gang_gone lab) s' r)
       else get_deployment i s \<noteq> None \<longrightarrow> get_deployment i s' \<noteq> None"
    using e q(2) by (cases "get_deployment i s") (auto simp: ranks_gone_def gang_gone_def)
next
  fix s s' l
  assume s: "gang_sound ok s" and "rt_list (gang_runtime D) s = (l, s')"
  then obtain rs where "list_deployments D s = (rs, s')" by (auto simp: gang_runtime_def split: prod.splits)
  note e = list_exact[OF s this]
  then show "gang_sound ok s' \<and> keeps_intents (\<lambda>s i. get_deployment i s) (gang_gone lab) s s' \<and>
      (\<forall>j. get_deployment j s \<noteq> None \<longrightarrow> get_deployment j s' \<noteq> None)"
    using keeps_gang[OF _ s, of s'] by fastforce
next
  fix s s' l
  assume s: "gang_sound ok s" and l: "rt_load (gang_runtime D) s = (l, s')"
  then show "s' = s \<and> (\<forall>rs. l = Inr rs \<longrightarrow>
      (\<forall>x. x \<in> set rs \<longleftrightarrow> get_deployment (d_id x) s = Some x) \<and> distinct (map d_id rs))"
    using recs_in_get[of s] by (auto simp: gang_runtime_def gang_sound_def sound_def recs_ok_def)
next
  fix s s' i g
  assume "rt_get (gang_runtime D) i s = (g, s')"
  then show "s' = s \<and> (\<forall>x. g = Inr x \<longrightarrow> x = get_deployment i s)" by (auto simp: gang_runtime_def)
next
  fix s s' i st re it r
  assume s: "gang_sound ok s" and "rt_set_sync (gang_runtime D) i st re it s = (r, s')"
  then obtain x where "update_record i (with_sync st re it) s = (x, s')" "r = Inr x"
    by (auto simp: gang_runtime_def split: prod.splits)
  with mark_exact[OF s this(1)] show "gang_sound ok s' \<and> gang_gone lab s' = gang_gone lab s \<and>
      (case r of Inl e \<Rightarrow> (\<lambda>i. get_deployment i s') = (\<lambda>i. get_deployment i s)
       | Inr x \<Rightarrow> x = map_option (with_sync st re it) (get_deployment i s) \<and>
           (\<lambda>i. get_deployment i s') = (\<lambda>i. get_deployment i s)(i := x))"
    by (auto simp: gang_gone_def fun_eq_iff)
next
  fix s t i m
  assume "gang_sound ok s"
  then show "gang_sound ok (rt_publish (gang_runtime D) t i m s) \<and>
      (\<lambda>j. get_deployment j (rt_publish (gang_runtime D) t i m s)) = (\<lambda>j. get_deployment j s) \<and>
      gang_gone lab (rt_publish (gang_runtime D) t i m s) = gang_gone lab s"
    by (auto simp: gang_runtime_def gang_sound_def sound_def all_native_def gang_gone_def fun_eq_iff)
next
  fix s i
  assume "gang_sound ok s"
  then show "gang_sound ok (rt_forget (gang_runtime D) i s) \<and>
      (\<lambda>j. get_deployment j (rt_forget (gang_runtime D) i s)) = (\<lambda>j. get_deployment j s) \<and>
      gang_gone lab (rt_forget (gang_runtime D) i s) = gang_gone lab s"
    by (simp add: gang_runtime_def)
next
  fix s i q
  assume "gang_sound ok s" "get_deployment i s = Some q"
  then show "d_id q = i \<and> i \<noteq> []" using get_redacted[of s i q] by (simp add: gang_sound_def sound_def)
qed

lemma gang_contract: "converging_runtime (gang_runtime D) (gang_sound ok) (\<lambda>s i. get_deployment i s) (gang_gone lab)"
  by (rule gang.converging_runtime_axioms)

subsection \<open>Nodes that answer\<close>

text \<open>Every node can be asked, and a container is reported gone once it has been stopped.\<close>

definition nodes_answer :: bool where
  "nodes_answer \<longleftrightarrow> (\<forall>a n w. ok w \<longrightarrow> ks_resolve D a w = Inr () \<and>
     (\<exists>b w1. ks_stop D a n w = (Inr b, w1) \<and>
        (\<exists>st w2. ks_status D a n w1 = (Inr st, w2) \<and> cst_status st = ''missing'')))"

lemma answered_entry:
  assumes n: nodes_answer and ok: "ok w"
  shows "fst (teardown_entry D e w) = None \<and> ok (snd (snd (teardown_entry D e w)))"
proof -
  let ?a = "re_node e" and ?n = "re_container e"
  obtain lg w0 where l: "final_logs D ?a ?n w = (lg, w0)" by force
  have ok0: "ok w0" using shrinks_ok[OF final_logs_shrinks[of w ?a ?n] ok] l by simp
  from n ok0 obtain b w1 st w2 where c: "ks_stop D ?a ?n w0 = (Inr b, w1)" "ks_status D ?a ?n w1 = (Inr st, w2)"
    "cst_status st = ''missing''" unfolding nodes_answer_def by blast
  have "ok (snd (snd (teardown_entry D e w)))" by (rule shrinks_ok[OF teardown_entry_shrinks ok])
  moreover have "fst (teardown_entry D e w) = None"
    using l c by (simp add: teardown_entry_def Let_def is_confirmed_gone_def confirm_gone.simps[of D ?a ?n])
  ultimately show ?thesis by simp
qed

lemma answered_loop:
  "nodes_answer \<Longrightarrow> ok w \<Longrightarrow> fst (teardown_loop D es w) = []"
proof (induction es arbitrary: w)
  case (Cons e es)
  obtain o1 lg w1 where t: "teardown_entry D e w = (o1, lg, w1)" by (cases "teardown_entry D e w") auto
  obtain os lgs w2 where l: "teardown_loop D es w1 = (os, lgs, w2)" by (cases "teardown_loop D es w1") auto
  have "ks_resolve D (re_node e) w = Inr ()" using Cons.prems by (auto simp: nodes_answer_def)
  moreover have "o1 = None" "ok w1" using answered_entry[OF Cons.prems, of e] t by auto
  ultimately show ?case using Cons.IH[OF Cons.prems(1), of w1] t l by simp
qed simp

lemma answered_delete:
  assumes n: nodes_answer and s: "gang_sound ok s" and g: "get_deployment i s = Some r"
  shows "fst (delete_deployment D i s)"
proof -
  let ?s = "snd (cancel_pull i (snd (cancel_pull i s)))"
  have rs: "recs_ok (g_recs s)" and ok: "ok (g_world s)" using s by (simp_all add: gang_sound_def sound_def)
  obtain os logs w where t: "teardown_entries D (rank_entries r) (g_world s) = (os, logs, w)"
    by (cases "teardown_entries D (rank_entries r) (g_world s)") auto
  have os: "os = []"
    using answered_loop[OF n ok, of "sort_key re_rank (rank_entries r)"] t
    by (auto simp: teardown_entries_def split: prod.splits)
  from stop_locked_result[of ?s i r os logs w] rs g t obtain x s1 where
    st: "stop_locked D i ?s = (Some x, s1)" "d_orphans x = os" "recs_ok (g_recs s1)" "get_deployment i s1 = Some (redact_record x)"
    by auto
  have "delete_deployment D i s = drop_record i s1"
    using st(1,2) g os by (simp add: delete_deployment_def delete_locked_def stop_deployment_def)
  with drop_record_result[OF st(3), of i] st(4) show ?thesis by (metis fst_conv option.distinct(1))
qed

end

end
