(* ===== verification/Reconciler_Properties.thy ===== *)
theory Reconciler_Properties
  imports Reconciler_Gang
begin

text \<open>
  What the reconciler promises over the gang runtime, for every lawful node service. The
  witnesses run on the simulated cluster with a peer that does not answer, and, for the
  completion of a removal, on a cluster whose nodes all answer.
\<close>

section \<open>A sweep over the gang runtime does not raise\<close>

lemma gang_mark_inr:
  "st \<in> set sync_states \<Longrightarrow> \<exists>r s'. mark (gang_runtime D) i st re want s = (Inr r, s')"
  by (cases "update_record i (with_sync st re want) s")
     (auto simp: mark_def gang_runtime_def split: option.split)

lemma gang_marked_inr:
  "st \<in> set sync_states \<Longrightarrow> \<exists>r s'. marked (mark (gang_runtime D) i st re want s) = (Inr r, s')"
  using gang_mark_inr[of st D i re want s] by (auto simp: marked_def)



section \<open>Properties\<close>



lemma ex_gang_gsound: "gang_sound sim_ok ex_gang"
  using ex_gang_sound by (simp add: gang_sound_def all_native_def ex_gang_def ex_dep_def blank_dep_def)




text \<open>
  C12. A stop is declared done on evidence. Converging a stop request leaves the record either
  settled, and then stopped, without orphans and with no container of it on any node; or with the
  stop still asked for.
\<close>

theorem stop_settles_on_evidence:
  assumes "node_service_laws D ok lab" and "gang_sound ok s" and "get_deployment i s = Some x"
  shows "\<exists>t s' y. finish_stop (gang_runtime D) i s = (Inr t, s') \<and> get_deployment i s' = Some y \<and>
    (sync_state y = sync_ok \<and> d_status y = ''stopped'' \<and> d_orphans y = [] \<and>
       (\<forall>e \<in> set (rank_entries y). re_container e = [] \<or> lab (g_world s') (re_node e) (re_container e) = None) \<or>
     sync_state y = sync_in_progress \<and> d_sync_intent y = intent_stop)"
proof -
  have "\<exists>t s'. finish_stop (gang_runtime D) i s = (Inr t, s')"
    by (cases "stop_deployment D i s")
       (auto simp: finish_stop_def gang_runtime_def gang_marked_inr[unfolded gang_runtime_def] split: option.split)
  then obtain t s' where r: "finish_stop (gang_runtime D) i s = (Inr t, s')" by blast
  from converging_runtime.finish_stop_result[OF node_service_laws.gang_contract[OF assms(1)] assms(2,3) r] r
  show ?thesis by (fastforce simp: wants_stop_def ranks_gone_def gang_gone_def)
qed

theorem stop_settles_on_evidence_witness:
  "\<exists>t s' y. finish_stop (gang_runtime sim_services) ''a'' ex_gang = (Inr t, s') \<and> get_deployment ''a'' s' = Some y \<and>
     (sync_state y = sync_ok \<and> d_orphans y = [] \<or> d_sync_intent y = intent_stop)"
  using stop_settles_on_evidence[OF sim_laws ex_gang_gsound ex_gang_get] by metis


text \<open>A cluster with no container, whose nodes all answer.\<close>

definition quiet_services :: "unit node_services" where
  "quiet_services =
     \<lparr>ks_resolve = (\<lambda>a w. Inr ()), ks_stop = (\<lambda>a n w. (Inr False, w)),
      ks_status = (\<lambda>a n w. (Inr (missing_status n), w)), ks_list = (\<lambda>a want w. (Inr [], w)),
      ks_run = (\<lambda>a sp w. (Inl (OtherExc ''refused''), w)), ks_logs = (\<lambda>a n k w. (Inr [], w)),
      ks_exec = (\<lambda>a n cmd det usr w. (Inl (OtherExc ''refused''), w)), ks_copy = (\<lambda>a n src dst w. (Inr False, w)),
      ks_mkdirs = (\<lambda>a ps w. (Inr [], w)), ks_image = (\<lambda>a ref w. (Inr False, w)),
      ks_listening = (\<lambda>a p w. (False, w)), ks_http = (\<lambda>url w. (None, w)), ks_tick = (\<lambda>w. w), ks_looks = 0,
      ks_now = (\<lambda>w. ''now''), ks_local = (\<lambda>a. False), ks_simulated = False, ks_mod = (\<lambda>m. None)\<rparr>"

lemma quiet_services_laws: "node_service_laws quiet_services (\<lambda>w. True) (\<lambda>w a n. None)"
  by unfold_locales (simp_all add: quiet_services_def)


text \<open>
  C14. A removal asked for while a stop is being carried out is lost. If a mark for removal lands
  between the end of the runtime's stop and the reconciler's own mark, the reconciler's mark
  overwrites it and the record reads settled.
\<close>

theorem removal_during_stop_is_lost:
  assumes "node_service_laws D ok lab" and "gang_sound ok s" and "get_deployment i s = Some x"
    and "stop_deployment D i s = (Some r, s1)" and "d_orphans r = []"
    and "mark (gang_runtime D) i sync_deleting ''removal requested'' [] s1 = (m, s2)"
  shows "\<exists>y t s3 z. get_deployment i s2 = Some y \<and> sync_state y = sync_deleting \<and>
    finish_stop ((gang_runtime D)\<lparr>rt_stop := (\<lambda>i s. (Inr (Some r), s2))\<rparr>) i s = (Inr t, s3) \<and>
    get_deployment i s3 = Some z \<and> sync_state z = sync_ok \<and> d_sync_intent z = []"
proof -
  have s1: "gang_sound ok s1" and "get_deployment i s1 \<noteq> None"
    using node_service_laws.stop_exact[OF assms(1-3)] assms(4) by auto
  then obtain y1 where y1: "get_deployment i s1 = Some y1" by blast
  let ?R = "gang_runtime D"
  obtain u where up: "update_record i (with_sync sync_deleting ''removal requested'' []) s1 = u" by blast
  from node_service_laws.mark_exact[OF assms(1) s1, of i sync_deleting "''removal requested''" "[]" "fst u" "snd u"] up y1
  have m1: "gang_sound ok (snd u)" "fst u = Some (with_sync sync_deleting ''removal requested'' [] y1)"
    "get_deployment i (snd u) = fst u" by auto
  have s2: "s2 = publish ''deployment_sync'' i ''removal requested'' (snd u)"
    using assms(6) up m1(2) by (cases u) (auto simp: mark_def gang_runtime_def py_or_def)
  have so2: "gang_sound ok s2" using m1(1) by (simp add: s2 gang_sound_def sound_def all_native_def)
  have g2: "get_deployment i s2 = Some (with_sync sync_deleting ''removal requested'' [] y1)" using m1 by (simp add: s2)
  obtain v where vp: "update_record i (with_sync sync_ok [] []) s2 = v" by blast
  from node_service_laws.mark_exact[OF assms(1) so2, of i sync_ok "[]" "[]" "fst v" "snd v"] vp g2
  have m2: "fst v = Some (with_sync sync_ok [] [] (with_sync sync_deleting ''removal requested'' [] y1))"
    "get_deployment i (snd v) = fst v" by auto
  have "finish_stop (?R\<lparr>rt_stop := (\<lambda>i s. (Inr (Some r), s2))\<rparr>) i s =
      (Inr (Some (TRecord (the (fst v)))), publish ''deployment_sync'' i (''sync: '' @ sync_ok) (snd v))"
    using assms(5) vp m2(1) by (cases v) (simp add: finish_stop_def marked_def mark_def gang_runtime_def py_or_def)
  with g2 m2 show ?thesis by simp
qed

definition ex_quiet :: "unit gang" where
  "ex_quiet = \<lparr>g_recs = [ex_dep], g_events = [], g_pulls = [], g_world = ()\<rparr>"

theorem removal_during_stop_is_lost_witness:
  "\<exists>r s1 m s2 t s3 z. stop_deployment quiet_services ''a'' ex_quiet = (Some r, s1) \<and>
     mark (gang_runtime quiet_services) ''a'' sync_deleting ''removal requested'' [] s1 = (m, s2) \<and>
     finish_stop ((gang_runtime quiet_services)\<lparr>rt_stop := (\<lambda>i s. (Inr (Some r), s2))\<rparr>) ''a'' ex_quiet = (Inr t, s3) \<and>
     get_deployment ''a'' s3 = Some z \<and> sync_state z = sync_ok"
proof -
  have s: "gang_sound (\<lambda>w. True) ex_quiet" and g: "get_deployment ''a'' ex_quiet = Some ex_dep"
    using ex_gang_gsound ex_gang_get
    by (auto simp: ex_quiet_def gang_sound_def sound_def all_native_def recs_ok_def ex_gang_def get_deployment_def ex_dep_def)
  from node_service_laws.stop_exact[OF quiet_services_laws s g] obtain r s1 where
    st: "stop_deployment quiet_services ''a'' ex_quiet = (Some r, s1)" by blast
  have "map_option d_orphans (fst (stop_deployment quiet_services ''a'' ex_quiet)) = Some []"
    by code_simp
  then have "d_orphans r = []" by (simp add: st)
  moreover obtain m s2 where "mark (gang_runtime quiet_services) ''a'' sync_deleting ''removal requested'' [] s1 = (m, s2)"
    by force
  ultimately show ?thesis
    using removal_during_stop_is_lost[OF quiet_services_laws s g st] st by blast
qed

end
