(* ===== verification/Text_Scan.thy ===== *)
theory Text_Scan
  imports SP_Prelude
begin

text \<open>
  The text operations the parsers of command output and of launch commands share: Python's
  \<open>str.splitlines\<close>, \<open>str.split\<close> and \<open>str.lower\<close> on ASCII, and a leftmost search. The lemmas are
  what the round trips of the parsers need: lines and fields written by a join are read back.
\<close>

section \<open>Lower case, lines, fields\<close>

definition lower_char :: "char \<Rightarrow> char" where
  "lower_char c = (let n = (of_char c :: nat) in if 65 \<le> n \<and> n \<le> 90 then char_of (n + 32) else c)"

definition lower :: "string \<Rightarrow> string" where
  "lower s = map lower_char s"

definition is_linebreak :: "char \<Rightarrow> bool" where
  "is_linebreak c \<longleftrightarrow> (let n = (of_char c :: nat) in (10 \<le> n \<and> n \<le> 13) \<or> (28 \<le> n \<and> n \<le> 30))"

text \<open>\<open>splitlines\<close>, with the line read so far; a carriage return and a line feed end one line.\<close>

fun lines_from :: "string \<Rightarrow> string \<Rightarrow> string list" where
  "lines_from cur [] = (if cur = [] then [] else [cur])"
| "lines_from cur [c] = (if is_linebreak c then [cur] else [cur @ [c]])"
| "lines_from cur (c # d # s) =
     (if c = CHR 0x0D \<and> d = CHR 0x0A then cur # lines_from [] s
      else if is_linebreak c then cur # lines_from [] (d # s)
      else lines_from (cur @ [c]) (d # s))"

definition splitlines :: "string \<Rightarrow> string list" where
  "splitlines s = lines_from [] s"

text \<open>\<open>s.split()\<close>: the maximal runs of characters that are not white space.\<close>

function split_ws :: "string \<Rightarrow> string list" where
  "split_ws s = (case dropWhile is_space s of
     [] \<Rightarrow> []
   | c # t \<Rightarrow> (c # takeWhile (\<lambda>x. \<not> is_space x) t) # split_ws (dropWhile (\<lambda>x. \<not> is_space x) t))"
  by pat_completeness auto
termination
proof (relation "measure length")
  fix s c t assume "dropWhile is_space s = c # t"
  then have "length (c # t) \<le> length s" by (metis length_dropWhile_le)
  with length_dropWhile_le[of "\<lambda>x. \<not> is_space x" t]
  show "(dropWhile (\<lambda>x. \<not> is_space x) t, s) \<in> measure length" by simp
qed simp

declare split_ws.simps [simp del]

text \<open>The leftmost suffix on which \<open>f\<close> answers: a regular expression search.\<close>

fun search :: "(string \<Rightarrow> 'a option) \<Rightarrow> string \<Rightarrow> 'a option" where
  "search f [] = f []"
| "search f (c # s) = (case f (c # s) of None \<Rightarrow> search f s | Some x \<Rightarrow> Some x)"

text \<open>The value of a result that was tested to be one; used on evaluated examples.\<close>

lemma case_Inr_ex: "(case x of Inl e \<Rightarrow> False | Inr v \<Rightarrow> P v) \<Longrightarrow> \<exists>v. x = Inr v \<and> P v"
  by (cases x) auto

section \<open>Reading back\<close>

lemma break_is_space: "is_linebreak c \<Longrightarrow> is_space c"
  by (auto simp: is_linebreak_def is_space_def Let_def)

lemma lines_from_line:
  "\<forall>c \<in> set l. \<not> is_linebreak c \<Longrightarrow> lines_from cur (l @ CHR 0x0A # s) = (cur @ l) # lines_from [] s"
proof (induction l arbitrary: cur)
  case Nil
  have "is_linebreak CHR 0x0A" by (simp add: is_linebreak_def)
  then show ?case by (cases s) auto
next
  case (Cons c l)
  then have "c \<noteq> CHR 0x0D" "\<not> is_linebreak c" by (auto simp: is_linebreak_def Let_def)
  with Cons show ?case by (cases l) auto
qed

lemma splitlines_Nil [simp]: "splitlines [] = []"
  by (simp add: splitlines_def)

lemma splitlines_line:
  "\<forall>c \<in> set l. \<not> is_linebreak c \<Longrightarrow> splitlines (l @ CHR 0x0A # s) = l # splitlines s"
  by (simp add: splitlines_def lines_from_line)

lemma splitlines_concat:
  assumes "\<forall>l \<in> set ls. \<forall>c \<in> set l. \<not> is_linebreak c"
  shows "splitlines (concat (map (\<lambda>l. l @ [CHR 0x0A]) ls)) = ls"
  using assms by (induction ls) (auto simp: splitlines_line)

lemma split_ws_Nil [simp]: "split_ws [] = []"
  by (simp add: split_ws.simps)

lemma split_ws_space: "is_space c \<Longrightarrow> split_ws (c # s) = split_ws s"
  by (simp add: split_ws.simps)

lemma split_ws_word:
  assumes "w \<noteq> []" "\<forall>c \<in> set w. \<not> is_space c" "s = [] \<or> is_space (hd s)"
  shows "split_ws (w @ s) = w # split_ws s"
proof -
  obtain c w' where w: "w = c # w'" using assms(1) by (cases w) auto
  have "takeWhile (\<lambda>x. \<not> is_space x) (w' @ s) = w'"
    by (rule takeWhile_append_stop) (use assms w in auto)
  moreover have "dropWhile (\<lambda>x. \<not> is_space x) (w' @ s) = s"
    by (rule dropWhile_append_stop) (use assms w in auto)
  ultimately show ?thesis using assms w by (subst split_ws.simps) simp
qed

lemma split_ws_join:
  assumes "\<forall>w \<in> set ws. w \<noteq> [] \<and> (\<forall>c \<in> set w. \<not> is_space c)"
  shows "split_ws (join '' '' ws) = ws"
  using assms
proof (induction "'' ''::string" ws rule: join.induct)
  case (2 x)
  then show ?case using split_ws_word[of x "[]"] by simp
next
  case (3 x y xs)
  then have "split_ws (x @ '' '' @ join '' '' (y # xs)) = x # split_ws ('' '' @ join '' '' (y # xs))"
    by (intro split_ws_word) (auto simp: is_space_def)
  with 3 show ?case by (simp add: split_ws_space is_space_def)
qed simp

lemma strip_id:
  assumes "s = [] \<or> (\<not> is_space (hd s) \<and> \<not> is_space (last s))"
  shows "strip s = s"
proof -
  have "dropWhile is_space s = s" "dropWhile is_space (rev s) = rev s"
    using assms by (auto simp: dropWhile_eq_self_iff hd_rev)
  then show ?thesis by (simp add: strip_def)
qed

lemma search_skip: "f (c # s) = None \<Longrightarrow> search f (c # s) = search f s"
  by simp

lemma search_hit: "f s = Some x \<Longrightarrow> search f s = Some x"
  by (cases s) auto

end
