(* ===== verification/Node_Registry.thy ===== *)
theory Node_Registry
  imports Text_Scan "HOL-Library.Product_Lexorder"
begin

text \<open>
  The node registry, \<open>spark_pulse/tools/node_registry.py\<close>: the records, the table, the one-time
  import of \<open>nodes.json\<close>, the mutations with the rules they enforce on the whole set, and the
  registration of the control node. An id minted by \<open>mint_node_id\<close>, a clock reading and what
  discovery answers are arguments. The table is its rows in insertion order.
\<close>

section \<open>Records\<close>

definition node_states :: "string list" where
  "node_states = [''healthy'', ''unknown'', ''dead'']"

definition fabric_direct :: string where "fabric_direct = ''direct''"
definition fabric_mesh :: string where "fabric_mesh = ''mesh''"
definition fabric_dual :: string where "fabric_dual = ''dual''"
definition fabric_modes :: "string list" where
  "fabric_modes = [fabric_direct, fabric_dual, fabric_mesh]"

record node_rec =
  nr_id :: string
  nr_name :: string
  nr_address :: string
  nr_control :: bool
  nr_ssh_user :: string
  nr_ssh_key :: string
  nr_ethernet :: string
  nr_infiniband :: "string list"
  nr_fabric_addresses :: "string list"
  nr_fabric_mode :: string
  nr_state :: string
  nr_last_seen :: "string option"
  nr_machine_id :: string

definition node_label :: "node_rec \<Rightarrow> string" where
  "node_label n = py_or (nr_name n) (py_or (nr_address n) (nr_id n))"

definition valid_fabric_mode :: "string \<Rightarrow> string" where
  "valid_fabric_mode v = (if v \<in> set fabric_modes then v else [])"

fun clean_from :: "string list \<Rightarrow> string list \<Rightarrow> string list" where
  "clean_from seen [] = seen"
| "clean_from seen (v # vs) =
     (let a = takeWhile (\<lambda>c. c \<noteq> CHR ''/'') (strip v)
      in clean_from (if a \<noteq> [] \<and> a \<notin> set seen then seen @ [a] else seen) vs)"

definition clean_addresses :: "string list \<Rightarrow> string list" where
  "clean_addresses vs = clean_from [] vs"

text \<open>
  \<open>NodeRecord.from_dict\<close> on a document whose fields are text already: a missing id is minted, an
  unknown mode or state falls back, blank fabric addresses are dropped.
\<close>

definition node_from_dict :: "string \<Rightarrow> node_rec \<Rightarrow> node_rec" where
  "node_from_dict minted n = n\<lparr>
     nr_id := py_or (nr_id n) minted,
     nr_fabric_addresses := filter (\<lambda>a. a \<noteq> []) (nr_fabric_addresses n),
     nr_fabric_mode := valid_fabric_mode (nr_fabric_mode n),
     nr_state := (if py_or (nr_state n) ''unknown'' \<in> set node_states then py_or (nr_state n) ''unknown'' else ''unknown''),
     nr_last_seen := (if nr_last_seen n = Some [] then None else nr_last_seen n)\<rparr>"

section \<open>The table\<close>

record node_row =
  nw_id :: string
  nw_address :: string
  nw_control :: bool
  nw_record :: node_rec

definition node_row_of :: "node_rec \<Rightarrow> node_row" where
  "node_row_of n = \<lparr>nw_id = nr_id n, nw_address = nr_address n, nw_control = nr_control n, nw_record = n\<rparr>"

text \<open>\<open>nodes.json\<close>: absent, unreadable, without a list of nodes, or its items.\<close>

datatype node_item = NodeDoc node_rec | NotADoc

datatype nodes_file = NodesMissing | NodesUnreadable string | NodesShapeless | NodesList "node_item list"

datatype node_error = NodeStateFile string | NodeValue string | NodeKey string

record node_store =
  ns_rows :: "node_row list"
  ns_imported :: bool
  ns_file :: nodes_file

definition node_get :: "string \<Rightarrow> node_row list \<Rightarrow> node_rec option" where
  "node_get i rows = map_option (\<lambda>w. node_from_dict i (nw_record w)) (find (\<lambda>w. nw_id w = i) rows)"

definition node_upsert :: "node_rec \<Rightarrow> node_row list \<Rightarrow> node_row list" where
  "node_upsert n rows =
     (case find (\<lambda>w. nw_id w = nr_id n) rows of
        None \<Rightarrow> rows @ [node_row_of n]
      | Some _ \<Rightarrow> map (\<lambda>w. if nw_id w = nr_id n
          then w\<lparr>nw_address := nr_address n, nw_control := nr_control n, nw_record := n\<rparr> else w) rows)"

definition node_delete :: "string \<Rightarrow> node_row list \<Rightarrow> bool \<times> node_row list" where
  "node_delete i rows =
     (case find (\<lambda>w. nw_id w = i) rows of
        None \<Rightarrow> (False, rows) | Some _ \<Rightarrow> (True, filter (\<lambda>w. nw_id w \<noteq> i) rows))"

definition control_plane_row :: "node_row list \<Rightarrow> node_row option" where
  "control_plane_row rows = find nw_control rows"

definition refuse_duplicate_address :: "string \<Rightarrow> string \<Rightarrow> node_row list \<Rightarrow> node_error option" where
  "refuse_duplicate_address a except rows =
     (if a = [] then None
      else if \<exists>w \<in> set rows. nw_address w = a \<and> (except = [] \<or> nw_id w \<noteq> except)
      then Some (NodeValue (''a node with address '' @ a @ '' is already registered''))
      else None)"

text \<open>The import: entry \<open>k\<close> of the file that carries no id is given \<open>mint k\<close>.\<close>

fun import_nodes :: "(nat \<Rightarrow> string) \<Rightarrow> nat \<Rightarrow> node_item list \<Rightarrow> node_row list \<Rightarrow> node_row list" where
  "import_nodes mint k [] rows = rows"
| "import_nodes mint k (NotADoc # xs) rows = import_nodes mint (Suc k) xs rows"
| "import_nodes mint k (NodeDoc n # xs) rows =
     import_nodes mint (Suc k) xs (node_upsert (node_from_dict (mint k) n) rows)"

definition migrate_nodes :: "(nat \<Rightarrow> string) \<Rightarrow> node_store \<Rightarrow> node_error + node_store" where
  "migrate_nodes mint s =
     (if ns_imported s then Inr s
      else case ns_file s of
             NodesMissing \<Rightarrow> Inr s
           | NodesUnreadable m \<Rightarrow> Inl (NodeStateFile m)
           | NodesShapeless \<Rightarrow> Inr s
           | NodesList items \<Rightarrow> Inr (s\<lparr>ns_imported := True, ns_rows := import_nodes mint 0 items (ns_rows s)\<rparr>))"

text \<open>Every operation imports first; an import that raises ends it, and changes nothing.\<close>

definition migrated :: "(nat \<Rightarrow> string) \<Rightarrow> (node_store \<Rightarrow> (node_error + 'a) \<times> node_store) \<Rightarrow> node_store \<Rightarrow> (node_error + 'a) \<times> node_store" where
  "migrated mint k s = (case migrate_nodes mint s of Inl e \<Rightarrow> (Inl e, s) | Inr s1 \<Rightarrow> k s1)"

section \<open>Reads\<close>

definition sorted_nodes :: "node_rec list \<Rightarrow> node_rec list" where
  "sorted_nodes ns = sort_key (\<lambda>n. (\<not> nr_control n, lower (node_label n))) ns"

definition list_nodes :: "(nat \<Rightarrow> string) \<Rightarrow> node_store \<Rightarrow> (node_error + node_rec list) \<times> node_store" where
  "list_nodes mint s =
     migrated mint (\<lambda>s1. (Inr (sorted_nodes (map (\<lambda>w. node_from_dict (nw_id w) (nw_record w)) (ns_rows s1))), s1)) s"

definition get_node :: "(nat \<Rightarrow> string) \<Rightarrow> string \<Rightarrow> node_store \<Rightarrow> (node_error + node_rec option) \<times> node_store" where
  "get_node mint i s =
     migrated mint (\<lambda>s1. (Inr (node_get i (ns_rows s1)), s1)) s"

definition self_node :: "(nat \<Rightarrow> string) \<Rightarrow> node_store \<Rightarrow> (node_error + node_rec option) \<times> node_store" where
  "self_node mint s =
     migrated mint (\<lambda>s1.
       (Inr (map_option (\<lambda>w. node_from_dict (nw_id w) (nw_record w)) (control_plane_row (ns_rows s1))), s1)) s"

text \<open>\<open>_save\<close>: the whole set replaced; of two records of an id the last is written, at the place of the first.\<close>

definition save_nodes :: "node_rec list \<Rightarrow> node_row list \<Rightarrow> node_row list" where
  "save_nodes nodes rows =
     (let w = foldl (\<lambda>m n. dict_set (nr_id n) n m) [] nodes
      in fold node_upsert (map snd w) (filter (\<lambda>r. nw_id r \<in> set (map fst w)) rows))"

section \<open>Mutations\<close>

text \<open>What a caller of \<open>add_node\<close> passes.\<close>

record new_node =
  nn_name :: string
  nn_address :: string
  nn_control :: bool
  nn_ssh_user :: string
  nn_ssh_key :: string
  nn_ethernet :: string
  nn_infiniband :: "string list"
  nn_fabric_mode :: string
  nn_state :: string
  nn_machine_id :: string

definition states_text :: string where "states_text = join '', '' node_states"

definition add_node :: "(nat \<Rightarrow> string) \<Rightarrow> string \<Rightarrow> string \<Rightarrow> new_node \<Rightarrow> node_store \<Rightarrow> (node_error + node_rec) \<times> node_store" where
  "add_node mint i now a s =
     (let address = strip (nn_address a); name = strip (nn_name a)
      in if address = [] \<and> \<not> nn_control a then (Inl (NodeValue ''a node needs an address''), s)
         else if nn_state a \<notin> set node_states then (Inl (NodeValue (''state must be one of '' @ states_text)), s)
         else (let n = \<lparr>nr_id = i, nr_name = py_or name address, nr_address = address, nr_control = nn_control a,
                   nr_ssh_user = strip (nn_ssh_user a), nr_ssh_key = strip (nn_ssh_key a),
                   nr_ethernet = strip (nn_ethernet a), nr_infiniband = nn_infiniband a, nr_fabric_addresses = [],
                   nr_fabric_mode = valid_fabric_mode (nn_fabric_mode a), nr_state = nn_state a,
                   nr_last_seen = (if nn_control a then Some now else None), nr_machine_id = nn_machine_id a\<rparr>
               in migrated mint (\<lambda>s1.
                    case refuse_duplicate_address address [] (ns_rows s1) of
                      Some e \<Rightarrow> (Inl e, s1)
                    | None \<Rightarrow>
                        if nn_control a \<and> control_plane_row (ns_rows s1) \<noteq> None
                        then (Inl (NodeValue ''the control plane is already registered''), s1)
                        else (Inr n, s1\<lparr>ns_rows := node_upsert n (ns_rows s1)\<rparr>)) s))"

text \<open>The changes \<open>update_node\<close> is given; the names of fields it does not know are kept apart.\<close>

record node_changes =
  nc_unknown :: "string list"
  nc_name :: "string option"
  nc_address :: "string option"
  nc_ssh_user :: "string option"
  nc_ssh_key :: "string option"
  nc_ethernet :: "string option"
  nc_infiniband :: "string list option"
  nc_fabric_addresses :: "string list option"
  nc_fabric_mode :: "string option"
  nc_state :: "string option"
  nc_last_seen :: "string option option"
  nc_machine_id :: "string option"

definition no_changes :: node_changes where
  "no_changes = \<lparr>nc_unknown = [], nc_name = None, nc_address = None, nc_ssh_user = None, nc_ssh_key = None,
     nc_ethernet = None, nc_infiniband = None, nc_fabric_addresses = None, nc_fabric_mode = None,
     nc_state = None, nc_last_seen = None, nc_machine_id = None\<rparr>"

definition check_changes :: "node_changes \<Rightarrow> node_error option" where
  "check_changes c =
     (if nc_unknown c \<noteq> [] then Some (NodeValue (''cannot change: '' @ join '', '' (sort (nc_unknown c))))
      else if (case nc_state c of None \<Rightarrow> False | Some st \<Rightarrow> st \<notin> set node_states)
      then Some (NodeValue (''state must be one of '' @ states_text))
      else if (case nc_fabric_mode c of None \<Rightarrow> False | Some m \<Rightarrow> m \<noteq> [] \<and> valid_fabric_mode m = [])
      then Some (NodeValue (''fabric_mode must be one of '' @ join '', '' fabric_modes @ '', or empty when it is not known''))
      else None)"

definition given :: "'a option \<Rightarrow> 'a \<Rightarrow> 'a" where
  "given x old = (case x of None \<Rightarrow> old | Some v \<Rightarrow> v)"

lemma given_simps [simp]: "given None x = x" "given (Some v) x = v"
  by (simp_all add: given_def)

definition change_node :: "node_changes \<Rightarrow> node_rec \<Rightarrow> node_rec" where
  "change_node c n = n\<lparr>
     nr_name := given (nc_name c) (nr_name n), nr_address := given (nc_address c) (nr_address n),
     nr_ssh_user := given (nc_ssh_user c) (nr_ssh_user n), nr_ssh_key := given (nc_ssh_key c) (nr_ssh_key n),
     nr_ethernet := given (nc_ethernet c) (nr_ethernet n), nr_infiniband := given (nc_infiniband c) (nr_infiniband n),
     nr_fabric_addresses := given (map_option clean_addresses (nc_fabric_addresses c)) (nr_fabric_addresses n),
     nr_fabric_mode := given (map_option valid_fabric_mode (nc_fabric_mode c)) (nr_fabric_mode n),
     nr_state := given (nc_state c) (nr_state n), nr_last_seen := given (nc_last_seen c) (nr_last_seen n),
     nr_machine_id := given (nc_machine_id c) (nr_machine_id n)\<rparr>"

definition update_node :: "(nat \<Rightarrow> string) \<Rightarrow> string \<Rightarrow> node_changes \<Rightarrow> node_store \<Rightarrow> (node_error + node_rec) \<times> node_store" where
  "update_node mint i c s =
     (case check_changes c of
        Some e \<Rightarrow> (Inl e, s)
      | None \<Rightarrow>
          migrated mint (\<lambda>s1.
            case node_get i (ns_rows s1) of
              None \<Rightarrow> (Inl (NodeKey i), s1)
            | Some cur \<Rightarrow>
                (let n = change_node c cur
                 in case refuse_duplicate_address (nr_address n) i (ns_rows s1) of
                      Some e \<Rightarrow> (Inl e, s1)
                    | None \<Rightarrow> (Inr n, s1\<lparr>ns_rows := node_upsert n (ns_rows s1)\<rparr>))) s)"

definition remove_node :: "(nat \<Rightarrow> string) \<Rightarrow> string \<Rightarrow> node_store \<Rightarrow> (node_error + node_rec) \<times> node_store" where
  "remove_node mint i s =
     migrated mint (\<lambda>s1.
       case node_get i (ns_rows s1) of
         None \<Rightarrow> (Inl (NodeKey i), s1)
       | Some n \<Rightarrow>
           if nr_control n then (Inl (NodeValue ''the control plane cannot be removed from the registry''), s1)
           else (Inr n, s1\<lparr>ns_rows := snd (node_delete i (ns_rows s1))\<rparr>)) s"

section \<open>The control node registers itself\<close>

text \<open>
  What discovery answers: the fabric (whether it could be read, its management interface, its
  RoCE devices, its mode), the interfaces (name, kind, whether up, whether addressed) and the
  local address. A question that raised is \<open>None\<close>, no interface or no address.
\<close>

record self_fabric =
  sf_ok :: bool
  sf_ethernet :: string
  sf_hca :: "string list"
  sf_mode :: string

record self_iface =
  si_name :: string
  si_kind :: string
  si_up :: bool
  si_ip :: string

record discovered =
  di_address :: string
  di_ethernet :: string
  di_hca :: "string list"
  di_mode :: string

definition discovered_self :: "self_fabric option \<Rightarrow> self_iface list \<Rightarrow> string option \<Rightarrow> discovered" where
  "discovered_self fabric ifs ip =
     (let (eth, hca, mode) = (case fabric of
            Some f \<Rightarrow> if sf_ok f then (sf_ethernet f, sf_hca f, sf_mode f) else ([], [], [])
          | None \<Rightarrow> ([], [], []))
      in \<lparr>di_address = (case ip of None \<Rightarrow> [] | Some a \<Rightarrow> a),
          di_ethernet = (if eth \<noteq> [] then eth
             else case find (\<lambda>x. si_kind x = ''ethernet'' \<and> si_up x \<and> si_ip x \<noteq> []) ifs of
                    Some x \<Rightarrow> si_name x | None \<Rightarrow> []),
          di_hca = (if hca \<noteq> [] then hca
             else map si_name (filter (\<lambda>x. si_kind x = ''infiniband'' \<and> si_up x) ifs)),
          di_mode = mode\<rparr>)"

text \<open>Only a blank of the record is filled.\<close>

definition fill_blanks :: "string \<Rightarrow> discovered \<Rightarrow> string \<Rightarrow> string \<Rightarrow> node_rec \<Rightarrow> node_changes" where
  "fill_blanks dname d now mid n = no_changes\<lparr>
     nc_name := (if nr_name n = [] then Some dname else None),
     nc_address := (if nr_address n = [] \<and> di_address d \<noteq> [] then Some (di_address d) else None),
     nc_ethernet := (if nr_ethernet n = [] \<and> di_ethernet d \<noteq> [] then Some (di_ethernet d) else None),
     nc_infiniband := (if nr_infiniband n = [] \<and> di_hca d \<noteq> [] then Some (di_hca d) else None),
     nc_fabric_mode := (if nr_fabric_mode n = [] \<and> di_mode d \<noteq> [] then Some (di_mode d) else None),
     nc_state := Some ''healthy'', nc_last_seen := Some (Some now), nc_machine_id := Some mid\<rparr>"

definition register_self ::
  "(nat \<Rightarrow> string) \<Rightarrow> string \<Rightarrow> string \<Rightarrow> string \<Rightarrow> string \<Rightarrow> string \<Rightarrow> discovered \<Rightarrow> node_store \<Rightarrow> (node_error + node_rec) \<times> node_store" where
  "register_self mint i now mid host name d s =
     (let dname = py_or (strip name) (py_or host ''control'')
      in case self_node mint s of
           (Inl e, s1) \<Rightarrow> (Inl e, s1)
         | (Inr None, s1) \<Rightarrow>
             add_node mint i now \<lparr>nn_name = dname, nn_address = di_address d, nn_control = True, nn_ssh_user = [],
               nn_ssh_key = [], nn_ethernet = di_ethernet d, nn_infiniband = di_hca d, nn_fabric_mode = di_mode d,
               nn_state = ''healthy'', nn_machine_id = mid\<rparr> s1
         | (Inr (Some n), s1) \<Rightarrow> update_node mint (nr_id n) (fill_blanks dname d now mid n) s1)"

end
