(* ===== verification/Node_Registry_Properties.thy ===== *)
theory Node_Registry_Properties
  imports Node_Registry
begin

text \<open>
  The rules of the node registry hold of the whole set: one row per id, one node per address, one
  control node, and every record in the shape the code's readers expect. Every operation keeps
  them, the control node is never lost, and registering it again only fills blanks. The import of
  a hand-edited file is the one write that checks no rule.
\<close>

section \<open>The rules\<close>

definition node_valid :: "node_rec \<Rightarrow> bool" where
  "node_valid n \<longleftrightarrow> nr_state n \<in> set node_states \<and> valid_fabric_mode (nr_fabric_mode n) = nr_fabric_mode n \<and>
     [] \<notin> set (nr_fabric_addresses n)"

definition row_ok :: "node_row \<Rightarrow> bool" where
  "row_ok w \<longleftrightarrow> w = node_row_of (nw_record w) \<and> nw_id w \<noteq> [] \<and> node_valid (nw_record w)"

definition one_per_address :: "node_row list \<Rightarrow> bool" where
  "one_per_address rows \<longleftrightarrow>
     (\<forall>w \<in> set rows. \<forall>v \<in> set rows. nw_address w = nw_address v \<longrightarrow> nw_address w \<noteq> [] \<longrightarrow> nw_id w = nw_id v)"

definition one_control :: "node_row list \<Rightarrow> bool" where
  "one_control rows \<longleftrightarrow> (\<forall>w \<in> set rows. \<forall>v \<in> set rows. nw_control w \<longrightarrow> nw_control v \<longrightarrow> nw_id w = nw_id v)"

definition nodes_ok :: "node_row list \<Rightarrow> bool" where
  "nodes_ok rows \<longleftrightarrow> (\<forall>w \<in> set rows. row_ok w) \<and> distinct (map nw_id rows) \<and>
     one_per_address rows \<and> one_control rows"

lemma one_per_addressD:
  "one_per_address rows \<Longrightarrow> w \<in> set rows \<Longrightarrow> v \<in> set rows \<Longrightarrow> nw_address w = nw_address v \<Longrightarrow> nw_address w \<noteq> [] \<Longrightarrow> nw_id w = nw_id v"
  unfolding one_per_address_def by blast

lemma one_controlD:
  "one_control rows \<Longrightarrow> w \<in> set rows \<Longrightarrow> v \<in> set rows \<Longrightarrow> nw_control w \<Longrightarrow> nw_control v \<Longrightarrow> nw_id w = nw_id v"
  unfolding one_control_def by blast

lemma one_per_address_subset: "one_per_address rows \<Longrightarrow> set rows' \<subseteq> set rows \<Longrightarrow> one_per_address rows'"
  unfolding one_per_address_def by blast

lemma one_control_subset: "one_control rows \<Longrightarrow> set rows' \<subseteq> set rows \<Longrightarrow> one_control rows'"
  unfolding one_control_def by blast

text \<open>Nothing is left to import.\<close>

definition registry_settled :: "node_store \<Rightarrow> bool" where
  "registry_settled s \<longleftrightarrow> ns_imported s \<or> (\<forall>items. ns_file s \<noteq> NodesList items)"

lemma registry_settled_migrate: "registry_settled s \<Longrightarrow> migrate_nodes mint s = Inr s1 \<Longrightarrow> s1 = s"
  by (auto simp: registry_settled_def migrate_nodes_def split: if_splits nodes_file.splits)

lemma registry_settled_migrated:
  assumes "registry_settled s" "migrated mint k s = (r, s')"
  obtains e where "r = Inl e" "s' = s" | "k s = (r, s')"
  using assms by (auto simp: migrated_def dest: registry_settled_migrate split: sum.splits)

lemma registry_settled_rows [simp]: "registry_settled (s\<lparr>ns_rows := rows\<rparr>) = registry_settled s"
  by (simp add: registry_settled_def)

section \<open>Writes\<close>

lemma row_of_id [simp]: "nw_id (node_row_of n) = nr_id n" "nw_address (node_row_of n) = nr_address n"
  "nw_control (node_row_of n) = nr_control n" "nw_record (node_row_of n) = n"
  by (simp_all add: node_row_of_def)

lemma upsert_ids:
  "map nw_id (node_upsert n rows) = (if nr_id n \<in> set (map nw_id rows) then map nw_id rows else map nw_id rows @ [nr_id n])"
proof (cases "find (\<lambda>w. nw_id w = nr_id n) rows")
  case None
  then have "nr_id n \<notin> set (map nw_id rows)" by (auto simp: find_None_iff)
  with None show ?thesis by (simp add: node_upsert_def)
next
  case (Some v)
  then have "nr_id n \<in> set (map nw_id rows)" using find_SomeD'[OF Some] by force
  with Some show ?thesis by (simp add: node_upsert_def comp_def if_distrib cong: map_cong if_cong)
qed

lemma upsert_set:
  "set (node_upsert n rows) = {w \<in> set rows. nw_id w \<noteq> nr_id n} \<union> {node_row_of n}"
proof (cases "find (\<lambda>w. nw_id w = nr_id n) rows")
  case None
  then have "\<forall>w \<in> set rows. nw_id w \<noteq> nr_id n" by (auto simp: find_None_iff)
  with None show ?thesis by (auto simp: node_upsert_def)
next
  case (Some v)
  then have v: "v \<in> set rows" "nw_id v = nr_id n" by (auto dest: find_SomeD')
  have "(if nw_id w = nr_id n then w\<lparr>nw_address := nr_address n, nw_control := nr_control n, nw_record := n\<rparr> else w)
      = (if nw_id w = nr_id n then node_row_of n else w)" for w
    by (simp add: node_row_of_def)
  then have "node_upsert n rows = map (\<lambda>w. if nw_id w = nr_id n then node_row_of n else w) rows"
    using Some by (simp add: node_upsert_def)
  with v show ?thesis by auto
qed

lemma nodes_ok_upsert:
  assumes ok: "nodes_ok rows" and n: "node_valid n" "nr_id n \<noteq> []"
    and a: "nr_address n \<noteq> [] \<Longrightarrow> \<forall>w \<in> set rows. nw_address w = nr_address n \<longrightarrow> nw_id w = nr_id n"
    and c: "nr_control n \<Longrightarrow> \<forall>w \<in> set rows. nw_control w \<longrightarrow> nw_id w = nr_id n"
  shows "nodes_ok (node_upsert n rows)"
proof -
  have "row_ok (node_row_of n)" using n by (simp add: row_ok_def)
  moreover have "distinct (map nw_id (node_upsert n rows))" using ok by (auto simp: upsert_ids nodes_ok_def)
  moreover have "\<forall>w \<in> set (node_upsert n rows). row_ok w"
    using ok calculation(1) by (auto simp: upsert_set nodes_ok_def)
  moreover have "one_per_address (node_upsert n rows)"
    unfolding one_per_address_def
  proof (intro ballI impI)
    fix w v assume w: "w \<in> set (node_upsert n rows)" "v \<in> set (node_upsert n rows)" "nw_address w = nw_address v" "nw_address w \<noteq> []"
    have new: "nw_id x = nr_id n" if "x \<in> set rows" "nw_address x = nr_address n" "nw_address x \<noteq> []" for x
      using a that by simp
    consider "w \<in> set rows" "v \<in> set rows" | "w = node_row_of n" "v \<in> set rows" | "w \<in> set rows" "v = node_row_of n"
      | "w = node_row_of n" "v = node_row_of n" using w(1,2) by (auto simp: upsert_set)
    then show "nw_id w = nw_id v"
    proof cases
      case 1 then show ?thesis using ok w(3,4) by (metis nodes_ok_def one_per_addressD)
    next
      case 2 show ?thesis using new[of v] 2 w by simp
    next
      case 3 show ?thesis using new[of w] 3 w by simp
    qed simp
  qed
  moreover have "one_control (node_upsert n rows)"
    unfolding one_control_def
  proof (intro ballI impI)
    fix w v assume w: "w \<in> set (node_upsert n rows)" "v \<in> set (node_upsert n rows)" "nw_control w" "nw_control v"
    have new: "nw_id x = nr_id n" if "x \<in> set rows" "nr_control n" "nw_control x" for x
      using c that by simp
    consider "w \<in> set rows" "v \<in> set rows" | "w = node_row_of n" "v \<in> set rows" | "w \<in> set rows" "v = node_row_of n"
      | "w = node_row_of n" "v = node_row_of n" using w(1,2) by (auto simp: upsert_set)
    then show "nw_id w = nw_id v"
    proof cases
      case 1 then show ?thesis using ok w(3,4) by (metis nodes_ok_def one_controlD)
    next
      case 2 show ?thesis using new[of v] 2 w by simp
    next
      case 3 show ?thesis using new[of w] 3 w by simp
    qed simp
  qed
  ultimately show ?thesis by (simp add: nodes_ok_def)
qed

lemma nodes_okI:
  "(\<And>w. w \<in> set rows \<Longrightarrow> row_ok w) \<Longrightarrow> distinct (map nw_id rows) \<Longrightarrow> one_per_address rows \<Longrightarrow> one_control rows \<Longrightarrow> nodes_ok rows"
  unfolding nodes_ok_def by blast

lemma nodes_okD:
  assumes "nodes_ok rows"
  shows "w \<in> set rows \<Longrightarrow> row_ok w" "distinct (map nw_id rows)" "one_per_address rows" "one_control rows"
  using assms unfolding nodes_ok_def by blast+

lemma nodes_ok_filter:
  assumes "nodes_ok rows" shows "nodes_ok (filter P rows)"
proof (rule nodes_okI)
  have sub: "set (filter P rows) \<subseteq> set rows" by (rule filter_is_subset)
  show "row_ok w" if "w \<in> set (filter P rows)" for w
    using that sub nodes_okD(1)[OF assms] by blast
  show "distinct (map nw_id (filter P rows))" by (rule distinct_map_filter) (rule nodes_okD(2)[OF assms])
  show "one_per_address (filter P rows)" by (rule one_per_address_subset[OF nodes_okD(3)[OF assms] sub])
  show "one_control (filter P rows)" by (rule one_control_subset[OF nodes_okD(4)[OF assms] sub])
qed

lemma node_get_ok:
  assumes "nodes_ok rows" "node_get i rows = Some n"
  shows "node_valid n \<and> nr_id n = i \<and> i \<noteq> [] \<and>
    (\<exists>w \<in> set rows. nw_id w = i \<and> nw_control w = nr_control n \<and> nw_address w = nr_address n)"
proof -
  obtain w where w: "w \<in> set rows" "nw_id w = i" "n = node_from_dict i (nw_record w)"
    using assms(2) by (auto simp: node_get_def dest: find_SomeD')
  then have r: "row_ok w" using assms(1) by (simp add: nodes_ok_def)
  then have eq: "nw_id w = nr_id (nw_record w)" "nw_control w = nr_control (nw_record w)"
    "nw_address w = nr_address (nw_record w)" "nw_id w \<noteq> []" "node_valid (nw_record w)"
    unfolding row_ok_def by (metis row_of_id)+
  have "''unknown'' \<in> set node_states" by (simp add: node_states_def)
  then have "node_valid n"
    using eq(5) unfolding w(3) node_valid_def node_from_dict_def by simp
  moreover have "nr_id n = i" using eq(1,4) w(2,3) by (auto simp: node_from_dict_def py_or_def)
  moreover have "nw_control w = nr_control n" "nw_address w = nr_address n"
    using eq(2,3) unfolding w(3) node_from_dict_def by simp_all
  ultimately show ?thesis using eq(4) w(1,2) by blast
qed

lemma clean_from_clean:
  assumes "[] \<notin> set seen" and "distinct seen"
  shows "[] \<notin> set (clean_from seen vs) \<and> distinct (clean_from seen vs)"
  using assms
proof (induction vs arbitrary: seen)
  case (Cons v vs)
  have "[] \<notin> set (if a \<noteq> [] \<and> a \<notin> set seen then seen @ [a] else seen)"
    "distinct (if a \<noteq> [] \<and> a \<notin> set seen then seen @ [a] else seen)" for a
    using Cons.prems by auto
  then show ?case unfolding clean_from.simps Let_def by (intro Cons.IH)
qed simp

lemma valid_mode_valid [simp]: "valid_fabric_mode (valid_fabric_mode m) = valid_fabric_mode m"
  by (simp add: valid_fabric_mode_def)

lemma change_node_ok:
  assumes n: "node_valid n" and c: "check_changes c = None"
  shows "node_valid (change_node c n)" "nr_id (change_node c n) = nr_id n" "nr_control (change_node c n) = nr_control n"
proof -
  have "given (nc_state c) (nr_state n) \<in> set node_states"
  proof (cases "nc_state c")
    case None
    then show ?thesis using n by (simp add: node_valid_def)
  next
    case (Some st)
    with c show ?thesis by (simp add: check_changes_def split: if_splits)
  qed
  moreover have "[] \<notin> set (clean_addresses vs)" for vs by (simp add: clean_addresses_def clean_from_clean)
  then have "[] \<notin> set (given (map_option clean_addresses (nc_fabric_addresses c)) (nr_fabric_addresses n))"
    using n by (cases "nc_fabric_addresses c") (auto simp: node_valid_def)
  moreover have "valid_fabric_mode (given (map_option valid_fabric_mode (nc_fabric_mode c)) (nr_fabric_mode n))
      = given (map_option valid_fabric_mode (nc_fabric_mode c)) (nr_fabric_mode n)"
    using n by (cases "nc_fabric_mode c") (auto simp: node_valid_def)
  ultimately show "node_valid (change_node c n)" by (simp add: change_node_def node_valid_def)
qed (simp_all add: change_node_def)

lemma refuse_None:
  assumes "refuse_duplicate_address a e rows = None" "a \<noteq> []" "w \<in> set rows" "nw_address w = a"
  shows "e \<noteq> [] \<and> nw_id w = e"
  using assms by (auto simp: refuse_duplicate_address_def split: if_splits)

lemma control_row_None: "control_plane_row rows = None \<longleftrightarrow> (\<forall>w \<in> set rows. \<not> nw_control w)"
  by (auto simp: control_plane_row_def find_None_iff)

section \<open>Every operation\<close>

lemma add_node_result:
  assumes "registry_settled s" and "add_node mint i now a s = (r, s')"
  shows "(\<exists>e. r = Inl e) \<and> s' = s \<or>
    (\<exists>n. r = Inr n \<and> s' = s\<lparr>ns_rows := node_upsert n (ns_rows s)\<rparr> \<and> nr_id n = i \<and> node_valid n \<and>
       nr_control n = nn_control a \<and> nr_address n = strip (nn_address a) \<and>
       refuse_duplicate_address (nr_address n) [] (ns_rows s) = None \<and>
       (nn_control a \<longrightarrow> control_plane_row (ns_rows s) = None))"
  using assms(2) unfolding add_node_def Let_def
  by (auto split: if_splits option.splits elim!: registry_settled_migrated[OF assms(1)] simp: node_valid_def)

lemma update_node_result:
  assumes s: "registry_settled s" and ok: "nodes_ok (ns_rows s)" and run: "update_node mint i c s = (r, s')"
  shows "(\<exists>e. r = Inl e) \<and> s' = s \<or>
    (\<exists>n cur. r = Inr n \<and> s' = s\<lparr>ns_rows := node_upsert n (ns_rows s)\<rparr> \<and> node_get i (ns_rows s) = Some cur \<and>
       check_changes c = None \<and> n = change_node c cur \<and> node_valid n \<and> nr_id n = i \<and> nr_control n = nr_control cur \<and>
       refuse_duplicate_address (nr_address n) i (ns_rows s) = None)"
proof (cases "check_changes c")
  case (Some e)
  with run show ?thesis by (auto simp: update_node_def)
next
  case None
  then have "update_node mint i c s = migrated mint (\<lambda>s1.
            case node_get i (ns_rows s1) of
              None \<Rightarrow> (Inl (NodeKey i), s1)
            | Some cur \<Rightarrow>
                (let n = change_node c cur
                 in case refuse_duplicate_address (nr_address n) i (ns_rows s1) of
                      Some e \<Rightarrow> (Inl e, s1)
                    | None \<Rightarrow> (Inr n, s1\<lparr>ns_rows := node_upsert n (ns_rows s1)\<rparr>))) s"
    by (simp add: update_node_def)
  with run have m: "migrated mint (\<lambda>s1.
            case node_get i (ns_rows s1) of
              None \<Rightarrow> (Inl (NodeKey i), s1)
            | Some cur \<Rightarrow>
                (let n = change_node c cur
                 in case refuse_duplicate_address (nr_address n) i (ns_rows s1) of
                      Some e \<Rightarrow> (Inl e, s1)
                    | None \<Rightarrow> (Inr n, s1\<lparr>ns_rows := node_upsert n (ns_rows s1)\<rparr>))) s = (r, s')" by simp
  show ?thesis
  proof (rule registry_settled_migrated[OF s m])
    assume k: "(case node_get i (ns_rows s) of
              None \<Rightarrow> (Inl (NodeKey i), s)
            | Some cur \<Rightarrow>
                (let n = change_node c cur
                 in case refuse_duplicate_address (nr_address n) i (ns_rows s) of
                      Some e \<Rightarrow> (Inl e, s)
                    | None \<Rightarrow> (Inr n, s\<lparr>ns_rows := node_upsert n (ns_rows s)\<rparr>))) = (r, s')"
    show ?thesis
    proof (cases "node_get i (ns_rows s)")
      case None
      with k show ?thesis by auto
    next
      case (Some cur)
      have ch: "node_valid (change_node c cur)" "nr_id (change_node c cur) = i" "nr_control (change_node c cur) = nr_control cur"
        using node_get_ok[OF ok Some] change_node_ok[of cur c] None by auto
      show ?thesis
      proof (cases "refuse_duplicate_address (nr_address (change_node c cur)) i (ns_rows s)")
        case (Some e)
        with k \<open>node_get i (ns_rows s) = Some cur\<close> show ?thesis by (simp add: Let_def) auto
      next
        case None
        with k \<open>node_get i (ns_rows s) = Some cur\<close> ch \<open>check_changes c = None\<close> show ?thesis
          by (auto simp: Let_def)
      qed
    qed
  qed auto
qed

lemma remove_node_result:
  assumes "registry_settled s" and "remove_node mint i s = (r, s')"
  shows "(\<exists>e. r = Inl e) \<and> s' = s \<or>
    (\<exists>n. r = Inr n \<and> node_get i (ns_rows s) = Some n \<and> \<not> nr_control n \<and>
       s' = s\<lparr>ns_rows := filter (\<lambda>w. nw_id w \<noteq> i) (ns_rows s)\<rparr>)"
  using assms(2) unfolding remove_node_def
  by (auto simp: node_get_def node_delete_def split: if_splits option.splits elim!: registry_settled_migrated[OF assms(1)])

lemma self_node_result:
  assumes "registry_settled s" "nodes_ok (ns_rows s)" "self_node mint s = (r, s')"
  shows "s' = s \<and> (\<forall>n. r = Inr (Some n) \<longrightarrow> nr_control n \<and> node_get (nr_id n) (ns_rows s) = Some n)"
proof -
  have "node_get (nr_id n) (ns_rows s) = Some n \<and> nr_control n"
    if n: "n = node_from_dict (nw_id w) (nw_record w)" and f: "find nw_control (ns_rows s) = Some w" for n w
  proof -
    have w: "w \<in> set (ns_rows s)" "nw_control w" using f by (auto dest: find_SomeD')
    with assms(2) have r: "row_ok w" "distinct (map nw_id (ns_rows s))" by (simp_all add: nodes_ok_def)
    then have eq: "nw_id w = nr_id (nw_record w)" "nw_control w = nr_control (nw_record w)" "nw_id w \<noteq> []"
      unfolding row_ok_def by (metis row_of_id)+
    then have i: "nr_id n = nw_id w" "nr_control n"
      using n w(2) by (auto simp: node_from_dict_def py_or_def)
    have "find (\<lambda>v. nw_id v = nw_id w) rs = Some w" if "w \<in> set rs" "distinct (map nw_id rs)" for rs
      using that by (induction rs) auto
    from this[OF w(1) r(2)] i n show ?thesis by (simp add: node_get_def)
  qed
  with assms(3) show ?thesis unfolding self_node_def
    by (auto simp: control_plane_row_def elim!: registry_settled_migrated[OF assms(1)])
qed

section \<open>The steps of the registry\<close>

text \<open>One operation; a minted id is one no row carries.\<close>

inductive registry_step :: "(nat \<Rightarrow> string) \<Rightarrow> node_store \<Rightarrow> node_store \<Rightarrow> bool" for mint where
  Added: "i \<noteq> [] \<Longrightarrow> i \<notin> nw_id ` set (ns_rows s) \<Longrightarrow> add_node mint i now a s = (r, s') \<Longrightarrow> registry_step mint s s'"
| Updated: "update_node mint i c s = (r, s') \<Longrightarrow> registry_step mint s s'"
| Removed: "remove_node mint i s = (r, s') \<Longrightarrow> registry_step mint s s'"
| Registered: "i \<noteq> [] \<Longrightarrow> i \<notin> nw_id ` set (ns_rows s) \<Longrightarrow>
    register_self mint i now mid host name d s = (r, s') \<Longrightarrow> registry_step mint s s'"
| Listed: "list_nodes mint s = (r, s') \<Longrightarrow> registry_step mint s s'"

definition keeps_control :: "node_row list \<Rightarrow> node_row list \<Rightarrow> bool" where
  "keeps_control rows rows' \<longleftrightarrow>
     (\<forall>w \<in> set rows. nw_control w \<longrightarrow> (\<exists>v \<in> set rows'. nw_control v \<and> nw_id v = nw_id w))"

lemma keeps_control_refl [simp]: "keeps_control rows rows"
  unfolding keeps_control_def by blast

lemma keeps_control_trans: "keeps_control a b \<Longrightarrow> keeps_control b c \<Longrightarrow> keeps_control a c"
  unfolding keeps_control_def by metis

lemma keeps_control_upsert:
  assumes "\<And>w. w \<in> set rows \<Longrightarrow> nw_id w = nr_id n \<Longrightarrow> nw_control w \<Longrightarrow> nr_control n"
  shows "keeps_control rows (node_upsert n rows)"
  using assms unfolding keeps_control_def upsert_set by (metis (mono_tags, lifting) Un_iff insertI1 mem_Collect_eq row_of_id(1,3))

lemma add_step:
  assumes "registry_settled s" "nodes_ok (ns_rows s)" "i \<noteq> []" "i \<notin> nw_id ` set (ns_rows s)" "add_node mint i now a s = (r, s')"
  shows "registry_settled s' \<and> nodes_ok (ns_rows s') \<and> keeps_control (ns_rows s) (ns_rows s')"
  using add_node_result[OF assms(1,5)]
proof (elim disjE exE conjE)
  fix n
  assume n: "s' = s\<lparr>ns_rows := node_upsert n (ns_rows s)\<rparr>" "nr_id n = i" "node_valid n" "nr_control n = nn_control a"
    "refuse_duplicate_address (nr_address n) [] (ns_rows s) = None" "nn_control a \<longrightarrow> control_plane_row (ns_rows s) = None"
  have "nodes_ok (node_upsert n (ns_rows s))"
    by (rule nodes_ok_upsert[OF assms(2) n(3)]) (use n assms(3) refuse_None[OF n(5)] control_row_None in auto)
  moreover have "keeps_control (ns_rows s) (node_upsert n (ns_rows s))"
    by (rule keeps_control_upsert) (use n(2) assms(4) in auto)
  ultimately show ?thesis using n(1) assms(1) by simp
qed (use assms in auto)

lemma update_step:
  assumes "registry_settled s" "nodes_ok (ns_rows s)" "update_node mint i c s = (r, s')"
  shows "registry_settled s' \<and> nodes_ok (ns_rows s') \<and> keeps_control (ns_rows s) (ns_rows s')"
  using update_node_result[OF assms]
proof (elim disjE exE conjE)
  fix n cur
  assume n: "s' = s\<lparr>ns_rows := node_upsert n (ns_rows s)\<rparr>" "node_get i (ns_rows s) = Some cur" "node_valid n" "nr_id n = i"
    "nr_control n = nr_control cur" "refuse_duplicate_address (nr_address n) i (ns_rows s) = None"
  from node_get_ok[OF assms(2) n(2)] obtain w where
    w: "w \<in> set (ns_rows s)" "nw_id w = i" "nw_control w = nr_control n" "i \<noteq> []" using n(5) by auto
  have one: "nw_id v = i" if "nr_control n" "v \<in> set (ns_rows s)" "nw_control v" for v
    using one_controlD[OF nodes_okD(4)[OF assms(2)] that(2) w(1) that(3)] w that(1) by simp
  have same: "v = w" if "v \<in> set (ns_rows s)" "nw_id v = i" for v
    using that w nodes_okD(2)[OF assms(2)] by (metis distinct_map inj_onD)
  have "nodes_ok (node_upsert n (ns_rows s))"
    by (rule nodes_ok_upsert[OF assms(2) n(3)]) (use n(4) w(4) refuse_None[OF n(6)] one in auto)
  moreover have "keeps_control (ns_rows s) (node_upsert n (ns_rows s))"
    by (rule keeps_control_upsert) (use n(4) w(3) same in auto)
  ultimately show ?thesis using n(1) assms(1) by simp
qed (use assms in auto)

lemma remove_step:
  assumes "registry_settled s" "nodes_ok (ns_rows s)" "remove_node mint i s = (r, s')"
  shows "registry_settled s' \<and> nodes_ok (ns_rows s') \<and> keeps_control (ns_rows s) (ns_rows s')"
  using remove_node_result[OF assms(1,3)]
proof (elim disjE exE conjE)
  fix n
  assume n: "node_get i (ns_rows s) = Some n" "\<not> nr_control n" "s' = s\<lparr>ns_rows := filter (\<lambda>w. nw_id w \<noteq> i) (ns_rows s)\<rparr>"
  from node_get_ok[OF assms(2) n(1)] obtain w where
    w: "w \<in> set (ns_rows s)" "nw_id w = i" "nw_control w = nr_control n" by auto
  have "nw_id v \<noteq> i" if "v \<in> set (ns_rows s)" "nw_control v" for v
    using that w n(2) nodes_okD(2)[OF assms(2)] by (metis distinct_map inj_onD)
  then have "keeps_control (ns_rows s) (filter (\<lambda>w. nw_id w \<noteq> i) (ns_rows s))"
    unfolding keeps_control_def by auto
  with n(3) nodes_ok_filter[OF assms(2)] assms(1) show ?thesis by simp
qed (use assms in auto)

lemma register_step:
  assumes s: "registry_settled s" "nodes_ok (ns_rows s)" and i: "i \<noteq> []" "i \<notin> nw_id ` set (ns_rows s)"
    and run: "register_self mint i now mid host name d s = (r, s')"
  shows "registry_settled s' \<and> nodes_ok (ns_rows s') \<and> keeps_control (ns_rows s) (ns_rows s')"
proof -
  obtain q s1 where q: "self_node mint s = (q, s1)" by force
  have s1: "s1 = s" using self_node_result[OF s q] by simp
  show ?thesis
  proof (cases q)
    case (Inl e)
    with q run s s1 show ?thesis by (simp add: register_self_def Let_def)
  next
    case (Inr x)
    then show ?thesis
      using run q s1 add_step[OF s i] update_step[OF s] by (cases x) (auto simp: register_self_def Let_def)
  qed
qed

lemma list_step:
  assumes "registry_settled s" "list_nodes mint s = (r, s')"
  shows "s' = s"
  using assms(2) unfolding list_nodes_def by (auto elim!: registry_settled_migrated[OF assms(1)])

lemma registry_step_keeps:
  assumes "registry_step mint s s'" and "registry_settled s" and "nodes_ok (ns_rows s)"
  shows "registry_settled s' \<and> nodes_ok (ns_rows s') \<and> keeps_control (ns_rows s) (ns_rows s')"
  using assms
proof (cases rule: registry_step.cases)
  case (Added i now a r)
  then show ?thesis using add_step[OF assms(2,3)] by blast
next
  case (Updated i c r)
  then show ?thesis using update_step[OF assms(2,3)] by blast
next
  case (Removed i r)
  then show ?thesis using remove_step[OF assms(2,3)] by blast
next
  case (Registered i now mid host name d r)
  then show ?thesis using register_step[OF assms(2,3)] by blast
next
  case (Listed r)
  then show ?thesis using list_step[OF assms(2), of mint r s'] assms(2,3) by simp
qed

lemma registry_steps_keep:
  assumes "(registry_step mint)\<^sup>*\<^sup>* s s'" and "registry_settled s" and "nodes_ok (ns_rows s)"
  shows "registry_settled s' \<and> nodes_ok (ns_rows s') \<and> keeps_control (ns_rows s) (ns_rows s')"
  using assms
proof (induction rule: rtranclp_induct)
  case (step y z)
  then have "registry_settled y" "nodes_ok (ns_rows y)" "keeps_control (ns_rows s) (ns_rows y)" by auto
  with registry_step_keeps[OF step.hyps(2)] show ?case by (blast intro: keeps_control_trans)
qed simp

section \<open>Properties\<close>

text \<open>
  C15. The rules of the registry hold in every state any sequence of operations reaches, errors
  included: one row per id that agrees with its record, a legal state and mode in every record,
  one node per address, one control node. A control node, once there, stays there.
\<close>

theorem registry_rules_hold:
  assumes "(registry_step mint)\<^sup>*\<^sup>* s s'" and "registry_settled s" and "nodes_ok (ns_rows s)"
  shows "registry_settled s' \<and> nodes_ok (ns_rows s') \<and> keeps_control (ns_rows s) (ns_rows s')"
  using assms by (rule registry_steps_keep)

definition empty_registry :: node_store where
  "empty_registry = \<lparr>ns_rows = [], ns_imported = False, ns_file = NodesMissing\<rparr>"

definition ex_self :: discovered where
  "ex_self = \<lparr>di_address = ''10.0.0.1'', di_ethernet = ''enP7s7'', di_hca = [''rocep1s0f1''], di_mode = ''direct''\<rparr>"

definition ex_peer :: new_node where
  "ex_peer = \<lparr>nn_name = [], nn_address = '' 10.0.0.2 '', nn_control = False, nn_ssh_user = [], nn_ssh_key = [],
     nn_ethernet = ''enP7s7'', nn_infiniband = [''rocep1s0f1''], nn_fabric_mode = ''direct'', nn_state = ''healthy'', nn_machine_id = []\<rparr>"

definition ex_registry1 :: node_store where
  "ex_registry1 = snd (register_self (\<lambda>k. ''x'') ''n1'' ''t1'' ''m1'' ''spark1'' [] ex_self empty_registry)"

definition ex_registry :: node_store where
  "ex_registry = snd (add_node (\<lambda>k. ''x'') ''n2'' ''t2'' ex_peer ex_registry1)"

lemma ex_registry1_ids: "map nw_id (ns_rows ex_registry1) = [''n1'']"
  by code_simp

lemma ex_registry_reached: "(registry_step (\<lambda>k. ''x''))\<^sup>*\<^sup>* empty_registry ex_registry"
proof -
  have "registry_step (\<lambda>k. ''x'') empty_registry ex_registry1"
    by (rule Registered[of "''n1''" _ _ "''t1''" "''m1''" "''spark1''" "[]" ex_self "fst (register_self (\<lambda>k. ''x'') ''n1'' ''t1'' ''m1'' ''spark1'' [] ex_self empty_registry)"])
       (simp_all add: ex_registry1_def empty_registry_def)
  moreover have "nw_id ` set (ns_rows ex_registry1) = {''n1''}"
    using ex_registry1_ids by (metis list.set_map list.simps(15) list.set(1))
  then have "registry_step (\<lambda>k. ''x'') ex_registry1 ex_registry"
    by (intro Added[of "''n2''" _ _ "''t2''" ex_peer "fst (add_node (\<lambda>k. ''x'') ''n2'' ''t2'' ex_peer ex_registry1)"])
       (simp_all add: ex_registry_def)
  ultimately show ?thesis by simp
qed

lemma empty_registry_ok: "registry_settled empty_registry" "nodes_ok (ns_rows empty_registry)"
  by (simp_all add: registry_settled_def empty_registry_def nodes_ok_def one_per_address_def one_control_def)

theorem registry_rules_hold_witness:
  "nodes_ok (ns_rows ex_registry) \<and> map nw_address (ns_rows ex_registry) = [''10.0.0.1'', ''10.0.0.2'']"
proof -
  have "map nw_address (ns_rows ex_registry) = [''10.0.0.1'', ''10.0.0.2'']" by code_simp
  with registry_rules_hold[OF ex_registry_reached empty_registry_ok] show ?thesis by blast
qed

text \<open>
  C25. Registering the control node again keeps its identity and everything an operator has set:
  a discovered value goes only into a field that is blank, the observations are refreshed, and
  no other row of the registry changes.
\<close>

theorem register_self_fills_blanks:
  assumes "registry_settled s" and "nodes_ok (ns_rows s)" and "self_node mint s = (Inr (Some n), s)"
    and "register_self mint i now mid host name d s = (Inr n', s')"
  shows "nr_id n' = nr_id n \<and> nr_control n' \<and> nr_ssh_user n' = nr_ssh_user n \<and> nr_ssh_key n' = nr_ssh_key n \<and>
    nr_fabric_addresses n' = nr_fabric_addresses n \<and> nr_state n' = ''healthy'' \<and> nr_last_seen n' = Some now \<and> nr_machine_id n' = mid \<and>
    nr_name n' = py_or (nr_name n) (py_or (strip name) (py_or host ''control'')) \<and>
    nr_address n' = py_or (nr_address n) (di_address d) \<and> nr_ethernet n' = py_or (nr_ethernet n) (di_ethernet d) \<and>
    nr_infiniband n' = py_or (nr_infiniband n) (di_hca d) \<and> nr_fabric_mode n' = py_or (nr_fabric_mode n) (di_mode d) \<and>
    {w \<in> set (ns_rows s'). nw_id w \<noteq> nr_id n} = {w \<in> set (ns_rows s). nw_id w \<noteq> nr_id n}"
proof -
  let ?c = "fill_blanks (py_or (strip name) (py_or host ''control'')) d now mid n"
  have n: "nr_control n" "node_get (nr_id n) (ns_rows s) = Some n"
    using self_node_result[OF assms(1-3)] by auto
  have "update_node mint (nr_id n) ?c s = (Inr n', s')" using assms(3,4) by (simp add: register_self_def Let_def)
  from update_node_result[OF assms(1,2) this] n(2)
  have r: "n' = change_node ?c n" "check_changes ?c = None" "s' = s\<lparr>ns_rows := node_upsert n' (ns_rows s)\<rparr>"
    "nr_id n' = nr_id n" "nr_control n' = nr_control n" by auto
  have mode: "nr_fabric_mode n = [] \<Longrightarrow> di_mode d \<noteq> [] \<Longrightarrow> valid_fabric_mode (di_mode d) = di_mode d"
    using r(2) by (auto simp: check_changes_def fill_blanks_def no_changes_def valid_fabric_mode_def split: if_splits)
  have "{w \<in> set (ns_rows s'). nw_id w \<noteq> nr_id n} = {w \<in> set (ns_rows s). nw_id w \<noteq> nr_id n}"
    using r(3,4) by (auto simp: upsert_set)
  with r(4,5) n(1) mode show ?thesis
    by (simp add: r(1) change_node_def fill_blanks_def no_changes_def py_or_def)
qed

theorem register_self_fills_blanks_witness:
  "\<exists>n'. fst (register_self (\<lambda>k. ''x'') ''n9'' ''t9'' ''m9'' ''other'' []
       (ex_self\<lparr>di_address := ''10.9.9.9''\<rparr>) ex_registry) = Inr n' \<and> nr_id n' = ''n1'' \<and> nr_address n' = ''10.0.0.1''"
proof -
  have ok: "registry_settled ex_registry" "nodes_ok (ns_rows ex_registry)"
    using registry_steps_keep[OF ex_registry_reached empty_registry_ok] by simp_all
  let ?d = "ex_self\<lparr>di_address := ''10.9.9.9''\<rparr>"
  let ?r = "register_self (\<lambda>k. ''x'') ''n9'' ''t9'' ''m9'' ''other'' [] ?d ex_registry"
  have c: "(case fst (self_node (\<lambda>k. ''x'') ex_registry) of Inr (Some n) \<Rightarrow> nr_id n = ''n1'' \<and> nr_address n = ''10.0.0.1'' | _ \<Rightarrow> False)"
    by code_simp
  then obtain n where n: "fst (self_node (\<lambda>k. ''x'') ex_registry) = Inr (Some n)" "nr_id n = ''n1''" "nr_address n = ''10.0.0.1''"
    by (auto split: sum.splits option.splits)
  have self: "self_node (\<lambda>k. ''x'') ex_registry = (Inr (Some n), ex_registry)"
    using n(1) self_node_result[OF ok, of "\<lambda>k. ''x''"] by (metis prod.collapse)
  have "(case fst ?r of Inr n' \<Rightarrow> True | Inl e \<Rightarrow> False)" by code_simp
  then obtain n' where "fst ?r = Inr n'" by (cases "fst ?r") auto
  then have n': "?r = (Inr n', snd ?r)" by (cases ?r) simp
  have "nr_id n' = nr_id n" "nr_address n' = py_or (nr_address n) (di_address ?d)"
    using register_self_fills_blanks[OF ok self n'] by blast+
  with n(2,3) \<open>fst ?r = Inr n'\<close> show ?thesis by simp
qed



end
