(* ===== verification/Topology.thy ===== *)
theory Topology
  imports Node_Registry Gang_Start
begin

text \<open>
  Which nodes a deployment runs on and whether it fits them: the parallelism a launch command asks
  for (\<open>spark_pulse/tools/parallelism.py\<close>), the constraints of a recipe, the capacity check and
  the resolution of addresses against the registry (\<open>tools/native_runtime.py\<close>, \<open>engines/base.py\<close>).
  A raised \<open>NativeRuntimeError\<close> is the left side of a sum with its message. \<open>\\d\<close> is an ASCII digit.
\<close>

section \<open>Parallelism in a command\<close>

text \<open>
  \<open>-{1,2}(?:name|...)[=\s]+(\\d+)\<close> at the head of a string. No name starts with a dash and no name
  followed by a separator is the head of another one, so the first name that fits is the match.
\<close>

definition flag_number :: "string \<Rightarrow> nat option" where
  "flag_number s =
     (let w = takeWhile (\<lambda>c. c = CHR ''='' \<or> is_space c) s;
          d = takeWhile is_digit (dropWhile (\<lambda>c. c = CHR ''='' \<or> is_space c) s)
      in if w = [] \<or> d = [] then None else Some (nat_of_str d))"

fun named_number :: "string list \<Rightarrow> string \<Rightarrow> nat option" where
  "named_number [] s = None"
| "named_number (n # ns) s =
     (case (if starts_with n s then flag_number (drop (length n) s) else None) of
        Some v \<Rightarrow> Some v | None \<Rightarrow> named_number ns s)"

definition flag_at :: "string list \<Rightarrow> string \<Rightarrow> nat option" where
  "flag_at names s =
     (case s of
        [] \<Rightarrow> None
      | c # r \<Rightarrow>
          if c \<noteq> CHR ''-'' then None
          else case (case r of [] \<Rightarrow> None | d # r2 \<Rightarrow> if d = CHR ''-'' then named_number names r2 else None) of
                 Some v \<Rightarrow> Some v | None \<Rightarrow> named_number names r)"

record parallelism =
  pa_tp :: nat
  pa_pp :: nat
  pa_dp :: nat

definition tp_names :: "string list" where "tp_names = [''tensor-parallel-size'', ''tp-size'', ''tp'']"
definition pp_names :: "string list" where "pp_names = [''pipeline-parallel-size'', ''pp-size'', ''pp'']"
definition dp_names :: "string list" where "dp_names = [''data-parallel-size'', ''dp-size'', ''dp'']"

definition one_or :: "nat option \<Rightarrow> nat" where
  "one_or x = (case x of None \<Rightarrow> 1 | Some n \<Rightarrow> n)"

definition parse_parallelism :: "string \<Rightarrow> parallelism" where
  "parse_parallelism cmd =
     (if cmd = [] then \<lparr>pa_tp = 1, pa_pp = 1, pa_dp = 1\<rparr>
      else \<lparr>pa_tp = one_or (search (flag_at tp_names) cmd), pa_pp = one_or (search (flag_at pp_names) cmd),
            pa_dp = one_or (search (flag_at dp_names) cmd)\<rparr>)"

section \<open>Capacity\<close>

text \<open>A cluster is the list of the GPU counts of its nodes.\<close>

definition for_nodes :: "nat \<Rightarrow> nat list" where
  "for_nodes n = replicate n 1"

definition times_sign :: string where "times_sign = [CHR 0xC3, CHR 0x97]"

definition validate_cluster_capacity :: "parallelism \<Rightarrow> nat list \<Rightarrow> bool \<times> string" where
  "validate_cluster_capacity p nodes =
     (let needed = pa_tp p * pa_pp p * pa_dp p; have = sum_list nodes; groups = pa_pp p * pa_dp p; n = length nodes
      in if needed > have
         then (False, ''Insufficient GPUs: need '' @ str_of_nat needed @ '', have '' @ str_of_nat have)
         else if groups > n
         then (False, ''Insufficient nodes: need '' @ str_of_nat groups @ '' groups (pp'' @ times_sign @ ''dp), have '' @ str_of_nat n)
         else (True, ''Cluster capacity OK: '' @ str_of_nat have @ '' GPUs across '' @ str_of_nat n @ '' nodes for tp='' @
                 str_of_nat (pa_tp p) @ '' pp='' @ str_of_nat (pa_pp p) @ '' dp='' @ str_of_nat (pa_dp p) @ '' ('' @ str_of_nat needed @ '' total)''))"

text \<open>The part of a recipe the checks read.\<close>

record constraints =
  rc_solo_only :: bool
  rc_cluster_only :: bool
  rc_min_nodes :: "int option"

definition check_constraints :: "string \<Rightarrow> constraints \<Rightarrow> nat \<Rightarrow> string option" where
  "check_constraints i r n =
     (if rc_solo_only r \<and> n > 1
      then Some (''recipe '' @ quoted i @ '' is marked solo_only, so it cannot be deployed across '' @ str_of_nat n @ '' nodes; deploy it on one node'')
      else if rc_cluster_only r \<and> n < 2
      then Some (''recipe '' @ quoted i @ '' is marked cluster_only, so it needs at least 2 nodes; '' @ str_of_nat n @ '' was requested'')
      else case rc_min_nodes r of
             None \<Rightarrow> None
           | Some m \<Rightarrow> if int n < m
               then Some (''recipe '' @ quoted i @ '' needs at least '' @ str_of_int m @ '' nodes; '' @ str_of_nat n @ '' was requested'')
               else None)"

definition check_capacity :: "string \<Rightarrow> string \<Rightarrow> nat \<Rightarrow> string option" where
  "check_capacity i cmd n =
     (let p = parse_parallelism cmd; needed = pa_tp p * pa_pp p * pa_dp p;
          shape = ''tp='' @ str_of_nat (pa_tp p) @ '' pp='' @ str_of_nat (pa_pp p) @ '' dp='' @ str_of_nat (pa_dp p)
      in case validate_cluster_capacity p (for_nodes n) of
           (False, message) \<Rightarrow>
             Some (''recipe '' @ quoted i @ '' does not fit '' @ str_of_nat n @ '' node(s): '' @ message @ '' ('' @ shape @
               ''). This hardware has one GPU per node, so either lower the parallelism or deploy across '' @ str_of_nat needed @ '' nodes'')
         | (True, message) \<Rightarrow>
             if needed < n
             then Some (''recipe '' @ quoted i @ '' asks for '' @ str_of_nat n @ '' nodes but its parallelism only occupies '' @
               str_of_nat needed @ '' of them ('' @ shape @ ''). One GPU per node means the world size is the node count, and vLLM refuses a --nnodes that does not divide the world size exactly, so this would fail on every rank rather than serve on a subset. Deploy on '' @
               str_of_nat needed @ '' node(s), or raise the parallelism until tp*pp*dp is '' @ str_of_nat n)
             else None)"

section \<open>Topology\<close>

record node_info =
  ni_host :: string
  ni_ip :: string
  ni_eth_if :: string
  ni_ib_if :: string
  ni_mesh :: bool
  ni_fabric :: "string list"

definition ni_address :: "node_info \<Rightarrow> string" where
  "ni_address n = py_or (ni_ip n) (ni_host n)"

text \<open>\<open>NodeInfo.local\<close> on a machine named \<open>host\<close>, and \<open>Topology(nodes=...)\<close>, which is never empty.\<close>

definition local_node :: "string \<Rightarrow> node_info" where
  "local_node host = \<lparr>ni_host = py_or host ''localhost'', ni_ip = ''127.0.0.1'', ni_eth_if = [], ni_ib_if = [], ni_mesh = False, ni_fabric = []\<rparr>"

definition topology :: "string \<Rightarrow> node_info list \<Rightarrow> node_info list" where
  "topology host ns = py_or ns [local_node host]"

definition mesh_ring_nodes :: nat where "mesh_ring_nodes = 3"

text \<open>\<open>_registry_by_address\<close>: of two records at one address the later one in the list stands.\<close>

definition registry_by_address :: "node_error + node_rec list \<Rightarrow> string + (string \<times> node_rec) list" where
  "registry_by_address reg =
     (case reg of
        Inl e \<Rightarrow> Inl (''the node registry could not be read, so a multi-node deployment cannot resolve its nodes: '' @
          (case e of NodeStateFile m \<Rightarrow> m | NodeValue m \<Rightarrow> m | NodeKey m \<Rightarrow> m))
      | Inr ns \<Rightarrow> Inr (foldl (\<lambda>m n. dict_set (nr_address n) n m) [] (filter (\<lambda>n. nr_address n \<noteq> []) ns)))"

fun first_repeat :: "string list \<Rightarrow> string list \<Rightarrow> string option" where
  "first_repeat seen [] = None"
| "first_repeat seen (a # as) = (if a \<in> set seen then Some a else first_repeat (seen @ [a]) as)"

definition node_info_of :: "string \<Rightarrow> node_rec \<Rightarrow> node_info" where
  "node_info_of a r = \<lparr>ni_host = a, ni_ip = a, ni_eth_if = nr_ethernet r, ni_ib_if = join '','' (nr_infiniband r),
     ni_mesh = (nr_fabric_mode r = fabric_mesh), ni_fabric = nr_fabric_addresses r\<rparr>"

text \<open>The labels of the requested nodes by cabling, a node whose cabling is unknown left out.\<close>

definition by_fabric :: "node_rec list \<Rightarrow> (string \<times> string list) list" where
  "by_fabric rs = foldl (\<lambda>m r. if nr_fabric_mode r = [] then m
     else dict_set (nr_fabric_mode r) (dict_lookup m (nr_fabric_mode r) [] @ [node_label r]) m) [] rs"

definition unpinned :: "node_rec list \<Rightarrow> string list" where
  "unpinned rs = map node_label (filter (\<lambda>r. nr_ethernet r = [] \<and> nr_infiniband r = []) rs)"

definition known_text :: "(string \<times> node_rec) list \<Rightarrow> string" where
  "known_text recs = py_or (join '', '' (sort (map fst recs))) ''none''"

definition described :: "(string \<times> string list) list \<Rightarrow> string" where
  "described m = join ''; '' (map (\<lambda>(mode, ls). mode @ '': '' @ join '', '' (sort ls)) (sort_key fst m))"

definition resolve_topology ::
  "string \<Rightarrow> node_error + node_rec list \<Rightarrow> string list \<Rightarrow> string list \<Rightarrow> string + (node_info list \<times> string list)" where
  "resolve_topology host reg nodes ws =
     (if nodes = [] then Inr (topology host [], ws)
      else case first_repeat [] nodes of
        Some a \<Rightarrow> Inl (''node '' @ quoted a @ '' is listed twice; each rank runs on its own machine, and one GPU per node means a machine cannot hold two'')
      | None \<Rightarrow>
        (case registry_by_address reg of
           Inl m \<Rightarrow> Inl m
         | Inr recs \<Rightarrow>
             if length nodes > length recs
             then Inl (str_of_nat (length nodes) @ '' nodes were requested but the registry holds '' @ str_of_nat (length recs) @
               '' ('' @ known_text recs @ ''). Enroll the missing machines on the Cluster page (POST /api/nodes) before deploying across them'')
             else
             (let missing = filter (\<lambda>a. map_of recs a = None) nodes in
              if missing \<noteq> []
              then Inl (''node(s) '' @ join '', '' missing @ '' are not in the node registry (it holds '' @ known_text recs @
                ''). A peer is deployed to by its registry record, which is where its fabric interface names live; NCCL pinning is find-or-fail, so an unregistered address would be launched with no pinning at all'')
              else
              (let rs = map (\<lambda>a. the (map_of recs a)) nodes; m = by_fabric rs in
               if length m > 1
               then Inl (''the nodes disagree about how the fabric is cabled ('' @ described m @
                 ''). A switchless mesh is a ring every node is part of, and it needs NCCL settings a single-cable fabric must not get, so the collective cannot be configured for both. Re-run discovery on the nodes whose cabling changed, or correct fabric_mode on their registry records (PATCH /api/nodes/{id})'')
               else if map_of m fabric_mesh \<noteq> None \<and> length nodes \<noteq> mesh_ring_nodes
               then Inl (join '', '' (sort (the (map_of m fabric_mesh))) @ '' report the switchless ring, which NVIDIA documents at exactly '' @
                 str_of_nat mesh_ring_nodes @ '' nodes and not at '' @ str_of_nat (length nodes) @
                 ''. Its own NCCL launcher refuses any other count outright, and a four-node ring has no published cabling, no published NCCL configuration and no reference bandwidth. Deploy the ring on three nodes, or put the cluster behind a QSFP switch and re-run discovery so the nodes report a single cable'')
               else Inr (topology host (map2 node_info_of nodes rs),
                 if length nodes > 1 \<and> unpinned rs \<noteq> []
                 then ws @ [''no interface names are recorded for '' @ join '', '' (unpinned rs) @
                   '', so NCCL will choose a link itself '' @ em_dash @ '' usually the management one, which is a performance bug rather than a failure. Record them on the node's registry entry (PATCH /api/nodes/{id})'']
                 else ws)))))"

end
