(* ===== verification/Topology_Properties.thy ===== *)
theory Topology_Properties
  imports Topology
begin

text \<open>
  What the topology checks promise: the capacity check accepts exactly the commands whose
  parallelism is the node count; a resolved topology is made of registered, distinct nodes that
  agree about their cabling. And where they fall short: the first parallelism flag in the text
  decides, and a ring with a node of unknown cabling is accepted.
\<close>

section \<open>Fabric groups\<close>

lemma dom_update_keys: "set (map fst (dict_set k v m)) = insert k (set (map fst m))"
  by (induction m) auto

lemma by_fabric_keys: "set (map fst (by_fabric rs)) = nr_fabric_mode ` set rs - {[]} \<and> distinct (map fst (by_fabric rs))"
proof (induction rs rule: rev_induct)
  case (snoc r rs)
  have "by_fabric (rs @ [r]) = (if nr_fabric_mode r = [] then by_fabric rs
      else dict_set (nr_fabric_mode r) (dict_lookup (by_fabric rs) (nr_fabric_mode r) [] @ [node_label r]) (by_fabric rs))"
    by (simp add: by_fabric_def)
  with snoc show ?case
    by (cases "nr_fabric_mode r = []") (simp_all only: dom_update_keys distinct_update if_True if_False, auto)
qed (simp add: by_fabric_def)

lemma by_fabric_agree:
  assumes "\<not> length (by_fabric rs) > 1" "r \<in> set rs" "q \<in> set rs" "nr_fabric_mode r \<noteq> []" "nr_fabric_mode q \<noteq> []"
  shows "nr_fabric_mode r = nr_fabric_mode q"
proof -
  have "nr_fabric_mode r \<in> set (map fst (by_fabric rs))" "nr_fabric_mode q \<in> set (map fst (by_fabric rs))"
    using assms by_fabric_keys[of rs] by auto
  moreover have "length (map fst (by_fabric rs)) \<le> 1" using assms(1) by simp
  ultimately show ?thesis by (cases "map fst (by_fabric rs)") auto
qed

lemma by_fabric_mesh: "r \<in> set rs \<Longrightarrow> nr_fabric_mode r = fabric_mesh \<Longrightarrow> map_of (by_fabric rs) fabric_mesh \<noteq> None"
proof -
  assume "r \<in> set rs" "nr_fabric_mode r = fabric_mesh"
  then have "fabric_mesh \<in> nr_fabric_mode ` set rs - {[]}" by (auto simp: fabric_mesh_def intro: rev_image_eqI)
  then have "fabric_mesh \<in> set (map fst (by_fabric rs))" using by_fabric_keys[of rs] by blast
  then show ?thesis by (simp add: map_of_eq_None_iff)
qed

section \<open>The registry by address\<close>

lemma by_address_entry:
  "map_of (foldl (\<lambda>m n. dict_set (nr_address n) n m) d ns) a = Some r \<Longrightarrow> map_of d a = Some r \<or> r \<in> set ns \<and> nr_address r = a"
proof (induction ns arbitrary: d)
  case (Cons n ns)
  from Cons.IH[of "dict_set (nr_address n) n d"] Cons.prems show ?case by (auto split: if_splits)
qed simp

lemma registry_by_address_entry:
  "registry_by_address (Inr ns) = Inr recs \<Longrightarrow> map_of recs a = Some r \<Longrightarrow> r \<in> set ns \<and> nr_address r = a"
  by (auto simp: registry_by_address_def dest!: by_address_entry)

lemma first_repeat_distinct: "first_repeat seen as = None \<Longrightarrow> distinct as \<and> set as \<inter> set seen = {}"
proof (induction as arbitrary: seen)
  case (Cons a as)
  then have "a \<notin> set seen" "first_repeat (seen @ [a]) as = None" by (auto split: if_splits)
  with Cons.IH[of "seen @ [a]"] show ?case by auto
qed simp

section \<open>Flags\<close>

lemma search_append_skip:
  assumes "\<And>x y. x \<noteq> [] \<Longrightarrow> set x \<subseteq> set a \<Longrightarrow> f (x @ y) = None"
  shows "search f (a @ s) = search f s"
  using assms by (induction a) (fastforce intro: search_skip)+

lemma flag_at_no_dash: "x \<noteq> [] \<Longrightarrow> CHR ''-'' \<notin> set x \<Longrightarrow> flag_at names (x @ y) = None"
  by (cases x) (auto simp: flag_at_def)

lemma flag_number_written:
  assumes "rest = [] \<or> \<not> is_digit (hd rest)"
  shows "flag_number ('' '' @ str_of_nat n @ rest) = Some n"
proof -
  let ?P = "\<lambda>c. c = CHR ''='' \<or> is_space c"
  have d: "\<not> ?P c" if "c \<in> set (str_of_nat n)" for c
    using that str_of_nat_digits[of n] by (auto simp: is_digit_def is_space_def Let_def)
  obtain c cs where s: "str_of_nat n = c # cs" by (cases "str_of_nat n") auto
  have drop: "dropWhile ?P ('' '' @ str_of_nat n @ rest) = str_of_nat n @ rest"
    using d[of c] by (simp add: s is_space_def)
  have "takeWhile is_digit (str_of_nat n @ rest) = str_of_nat n"
    by (rule takeWhile_append_stop) (use assms str_of_nat_digits in auto)
  moreover have "takeWhile ?P ('' '' @ str_of_nat n @ rest) \<noteq> []" by (simp add: is_space_def)
  ultimately show ?thesis by (simp only: flag_number_def Let_def drop) simp
qed

section \<open>Properties\<close>

text \<open>
  C21. The capacity check accepts a launch exactly when the parallelism of its command is the
  number of nodes it is planned across: neither more ranks than nodes nor fewer.
\<close>

theorem capacity_exact:
  assumes "0 < n"
  shows "check_capacity i cmd n = None \<longleftrightarrow>
    pa_tp (parse_parallelism cmd) * pa_pp (parse_parallelism cmd) * pa_dp (parse_parallelism cmd) = n"
proof -
  let ?p = "parse_parallelism cmd"
  let ?m = "pa_tp ?p * pa_pp ?p * pa_dp ?p"
  have "pa_pp ?p * pa_dp ?p \<le> ?m" if "?m = n"
    using that assms by (cases "pa_tp ?p") auto
  then show ?thesis
    by (auto simp: check_capacity_def validate_cluster_capacity_def for_nodes_def Let_def sum_list_replicate)
qed

theorem capacity_exact_witness:
  "check_capacity ''r'' ''vllm serve m --tensor-parallel-size 2'' 2 = None"
proof -
  have "pa_tp (parse_parallelism ''vllm serve m --tensor-parallel-size 2'') * pa_pp (parse_parallelism ''vllm serve m --tensor-parallel-size 2'') *
      pa_dp (parse_parallelism ''vllm serve m --tensor-parallel-size 2'') = 2" by code_simp
  then show ?thesis using capacity_exact[of 2] by simp
qed

text \<open>
  C22. A topology that is resolved is made of the requested nodes, in their order and each once;
  every node carries the interfaces of a registry record at its address; the records that know
  their cabling agree about it, and a ring has exactly three nodes.
\<close>

theorem topology_sound:
  assumes "resolve_topology host reg nodes ws = Inr (topo, ws')" and "nodes \<noteq> []"
  shows "\<exists>ns rs. reg = Inr ns \<and> distinct nodes \<and> list_all2 (\<lambda>a r. r \<in> set ns \<and> nr_address r = a) nodes rs \<and>
    topo = map2 node_info_of nodes rs \<and>
    (\<forall>r \<in> set rs. \<forall>q \<in> set rs. nr_fabric_mode r \<noteq> [] \<longrightarrow> nr_fabric_mode q \<noteq> [] \<longrightarrow> nr_fabric_mode r = nr_fabric_mode q) \<and>
    (\<forall>r \<in> set rs. nr_fabric_mode r = fabric_mesh \<longrightarrow> length nodes = 3)"
proof -
  obtain recs where recs: "registry_by_address reg = Inr recs" and d: "first_repeat [] nodes = None"
    using assms by (auto simp: resolve_topology_def split: option.splits sum.splits)
  obtain ns where ns: "reg = Inr ns" using recs by (cases reg) (auto simp: registry_by_address_def)
  let ?rs = "map (\<lambda>a. the (map_of recs a)) nodes"
  have all: "filter (\<lambda>a. map_of recs a = None) nodes = []" and one: "\<not> length (by_fabric ?rs) > 1"
    and ring: "\<not> (map_of (by_fabric ?rs) fabric_mesh \<noteq> None \<and> length nodes \<noteq> mesh_ring_nodes)"
    and topo: "topo = topology host (map2 node_info_of nodes ?rs)"
    using assms recs d unfolding resolve_topology_def by (simp_all add: Let_def split: if_splits)
  have "list_all2 (\<lambda>a r. r \<in> set ns \<and> nr_address r = a) nodes ?rs"
    unfolding list_all2_map2
  proof (rule list.rel_refl_strong)
    fix a assume "a \<in> set nodes"
    with all obtain r where "map_of recs a = Some r" by (auto simp: filter_empty_conv)
    with registry_by_address_entry[of ns recs a r] recs ns
    show "the (map_of recs a) \<in> set ns \<and> nr_address (the (map_of recs a)) = a" by simp
  qed
  moreover have "topo = map2 node_info_of nodes ?rs" using topo assms(2) by (cases nodes) (auto simp: topology_def)
  moreover have "nr_fabric_mode r = nr_fabric_mode q"
    if "r \<in> set ?rs" "q \<in> set ?rs" "nr_fabric_mode r \<noteq> []" "nr_fabric_mode q \<noteq> []" for r q
    using by_fabric_agree[OF one that] .
  moreover have "length nodes = 3" if "r \<in> set ?rs" "nr_fabric_mode r = fabric_mesh" for r
    using ring by_fabric_mesh[OF that] by (simp add: mesh_ring_nodes_def)
  ultimately show ?thesis using first_repeat_distinct[OF d] ns by blast
qed

definition ex_mesh_node :: "string \<Rightarrow> string \<Rightarrow> node_rec" where
  "ex_mesh_node a mode = \<lparr>nr_id = a, nr_name = a, nr_address = a, nr_control = False, nr_ssh_user = [], nr_ssh_key = [],
     nr_ethernet = ''enP7s7'', nr_infiniband = [''rocep1s0f0'', ''rocep1s0f1''], nr_fabric_addresses = [], nr_fabric_mode = mode,
     nr_state = ''healthy'', nr_last_seen = None, nr_machine_id = []\<rparr>"

definition ex_pair :: "node_error + node_rec list" where
  "ex_pair = Inr [ex_mesh_node ''a'' ''direct'', ex_mesh_node ''b'' ''direct'']"

theorem topology_sound_witness:
  "\<exists>topo. resolve_topology ''h'' ex_pair [''b'', ''a''] [] = Inr (topo, []) \<and> map ni_host topo = [''b'', ''a'']"
proof -
  have c: "(case resolve_topology ''h'' ex_pair [''b'', ''a''] [] of Inl m \<Rightarrow> False | Inr tw \<Rightarrow> snd tw = [])" by code_simp
  obtain tw where tw: "resolve_topology ''h'' ex_pair [''b'', ''a''] [] = Inr tw" "snd tw = []" using case_Inr_ex[OF c] by blast
  then have t: "resolve_topology ''h'' ex_pair [''b'', ''a''] [] = Inr (fst tw, [])" by (metis prod.collapse)
  have ne: "[''b'', ''a''] \<noteq> ([] :: string list)" by simp
  have "\<exists>rs. list_all2 (\<lambda>a r. nr_address r = a) [''b'', ''a''] rs \<and> fst tw = map2 node_info_of [''b'', ''a''] rs"
    using topology_sound[OF t ne] list_all2_mono by fast
  then have "map ni_host (fst tw) = [''b'', ''a'']" by (auto simp: list_all2_Cons1 node_info_of_def)
  with t show ?thesis by (intro exI conjI)
qed

text \<open>
  C38. The capacity check reads the first tensor parallelism flag of a command and ignores the
  rest, where the engine's own parser takes the last: an extra argument that overrides the
  recipe's flag does not change what is checked.
\<close>

theorem first_flag_wins:
  assumes "CHR ''-'' \<notin> set a"
  shows "pa_tp (parse_parallelism (a @ ''--tensor-parallel-size '' @ str_of_nat n @ '' --tensor-parallel-size '' @ str_of_nat m)) = n"
proof -
  let ?t = "'' --tensor-parallel-size '' @ str_of_nat m"
  let ?s = "''--tensor-parallel-size '' @ str_of_nat n @ ?t"
  have f: "flag_number ('' '' @ str_of_nat n @ ?t) = Some n" by (rule flag_number_written) (simp add: is_digit_def)
  have "flag_at tp_names ?s = Some n"
    using f by (simp add: flag_at_def tp_names_def starts_with_def)
  then have "search (flag_at tp_names) ?s = Some n" by (rule search_hit)
  moreover have "search (flag_at tp_names) (a @ ?s) = search (flag_at tp_names) ?s"
    by (rule search_append_skip, rule flag_at_no_dash) (use assms in auto)
  ultimately show ?thesis by (simp add: parse_parallelism_def one_or_def)
qed

theorem first_flag_wins_witness:
  "pa_tp (parse_parallelism ''vllm serve m --tensor-parallel-size 1 --tensor-parallel-size 2'') = 1"
proof -
  have "str_of_nat 1 = ''1''" "str_of_nat 2 = ''2''" by code_simp+
  with first_flag_wins[of "''vllm serve m ''" 1 2] show ?thesis by simp
qed

end
