(* ===== verification/Ports.thy ===== *)
theory Ports
  imports Topology
begin

text \<open>
  Which ports a deployment may have (\<open>spark_pulse/tools/native_runtime.py\<close>): the nodes a run still
  occupies, the ports runs on record hold there, what the nodes say is listening
  (\<open>tools/preflight.py\<close>: the targets of a plan, the parser of the \<open>ss\<close> output), and the choice of
  the API port. A Python set is a list without repetitions; the order of its elements decides
  only which of several holders a warning names. The registry, the address test and the probe of
  a node are arguments; a test of an address that raises reads as not local.
\<close>

section \<open>Listening ports\<close>

text \<open>\<open>[:.](\d{1,5})\s\<close> searched in a token and one space: the digits that end the token.\<close>

definition port_token :: "string \<Rightarrow> nat option" where
  "port_token t =
     (let ds = rev (takeWhile is_digit (rev t)); before = dropWhile is_digit (rev t)
      in if 1 \<le> length ds \<and> length ds \<le> 5 \<and> before \<noteq> [] \<and> hd before \<in> {CHR '':'', CHR ''.''}
         then Some (nat_of_str ds) else None)"

fun first_token :: "string list \<Rightarrow> nat option" where
  "first_token [] = None"
| "first_token (t # ts) = (case port_token t of Some p \<Rightarrow> Some p | None \<Rightarrow> first_token ts)"

definition line_port :: "string \<Rightarrow> nat option" where
  "line_port line =
     (let s = strip line
      in if s = [] \<or> starts_with ''state'' (lower s) \<or> starts_with ''proto'' (lower s) \<or> starts_with ''active'' (lower s) then None
         else case first_token (split_ws s) of
                None \<Rightarrow> None | Some p \<Rightarrow> if 0 < p \<and> p < 65536 then Some p else None)"

definition parse_listening_ports :: "string \<Rightarrow> nat list" where
  "parse_listening_ports text = remdups (List.map_filter line_port (splitlines text))"

section \<open>The machines of a plan\<close>

record ntarget =
  nt_id :: string
  nt_label :: string
  nt_address :: string
  nt_control :: bool
  nt_ssh_user :: string
  nt_ethernet :: string
  nt_infiniband :: "string list"
  nt_ranks :: "nat list"

record probe_result =
  pr_reachable :: bool
  pr_returncode :: int
  pr_stdout :: string
  pr_stderr :: string
  pr_error :: string

definition probe_ok :: "probe_result \<Rightarrow> bool" where
  "probe_ok p \<longleftrightarrow> pr_reachable p \<and> pr_returncode p = 0"

definition probe_message :: "probe_result \<Rightarrow> string" where
  "probe_message p =
     (let text = strip (py_or (pr_stderr p) (py_or (pr_stdout p) (pr_error p)))
      in if text = [] then [] else take 200 (hd (splitlines text)))"

record planner =
  pl_registry :: "node_error + node_rec list"
  pl_self :: "node_rec option"
  pl_local :: "string \<Rightarrow> bool"
  pl_probe :: "ntarget \<Rightarrow> exc + probe_result"
  pl_range :: "nat \<times> nat"

definition registry_records :: "planner \<Rightarrow> (string \<times> node_rec) list" where
  "registry_records P =
     (case pl_registry P of Inl e \<Rightarrow> [] | Inr ns \<Rightarrow> foldl (\<lambda>m n. dict_set (nr_address n) n m) [] ns)"

definition control_record :: "planner \<Rightarrow> (string \<times> node_rec) list \<Rightarrow> node_rec option" where
  "control_record P recs =
     (case find nr_control (map snd recs) of Some n \<Rightarrow> Some n | None \<Rightarrow> pl_self P)"

definition target_from :: "node_rec option \<Rightarrow> string \<Rightarrow> bool \<Rightarrow> nat list \<Rightarrow> ntarget" where
  "target_from rec a control ranks =
     (case rec of
        None \<Rightarrow>
          (let addr = py_or a ''localhost''
           in \<lparr>nt_id = ''address:'' @ addr, nt_label = (if control then ''this machine'' else addr), nt_address = addr,
               nt_control = control, nt_ssh_user = [], nt_ethernet = [], nt_infiniband = [], nt_ranks = ranks\<rparr>)
      | Some r \<Rightarrow>
          \<lparr>nt_id = nr_id r, nt_label = node_label r, nt_address = py_or a (nr_address r),
           nt_control = (control \<or> nr_control r), nt_ssh_user = nr_ssh_user r, nt_ethernet = nr_ethernet r,
           nt_infiniband = nr_infiniband r, nt_ranks = ranks\<rparr>)"

definition targets_for :: "planner \<Rightarrow> string list \<Rightarrow> ntarget list" where
  "targets_for P nodes =
     (let addrs = filter (\<lambda>a. strip a \<noteq> []) nodes; recs = registry_records P
      in if addrs = [] then [target_from (control_record P recs) [] True [0]]
         else map (\<lambda>(rank, a). let r = map_of recs a in
                 target_from r a ((case r of None \<Rightarrow> False | Some n \<Rightarrow> nr_control n) \<or> pl_local P a) [rank])
               (List.enumerate 0 addrs))"

section \<open>Nodes and ports of the runs on record\<close>

definition node_key :: "(string \<Rightarrow> bool) \<Rightarrow> string \<Rightarrow> string" where
  "node_key is_local a = (let t = strip a in if t = [] \<or> is_local t then [] else t)"

definition occupied_nodes :: "(string \<Rightarrow> bool) \<Rightarrow> dep \<Rightarrow> string list option" where
  "occupied_nodes is_local r =
     (let finished = d_status r \<in> {''stopped'', ''error''}
      in if finished \<and> d_orphans r = [] then None
         else Some (py_or (remdups (map (node_key is_local)
                (if finished then map or_node (d_orphans r)
                 else if d_ranks r \<noteq> [] then map re_node (rank_entries r)
                 else d_nodes r))) [[]]))"

definition record_ports :: "dep \<Rightarrow> nat list" where
  "record_ports r = filter (\<lambda>p. p \<noteq> 0) (List.map_filter id [d_port r, d_rendezvous_port r, d_rpc_port r])"

definition hold_ports :: "dep \<Rightarrow> string \<Rightarrow> (string \<times> (nat \<times> string) list) list \<Rightarrow> (string \<times> (nat \<times> string) list) list" where
  "hold_ports r node held =
     dict_set node (foldl (\<lambda>m p. dict_setdefault p (py_or (d_name r) (d_id r)) m) (dict_lookup held node []) (record_ports r)) held"

fun ports_in_use :: "(string \<Rightarrow> bool) \<Rightarrow> string \<Rightarrow> dep list \<Rightarrow> (string \<times> (nat \<times> string) list) list \<Rightarrow> (string \<times> (nat \<times> string) list) list" where
  "ports_in_use is_local exclude [] held = held"
| "ports_in_use is_local exclude (r # rs) held =
     (if exclude \<noteq> [] \<and> d_id r = exclude then ports_in_use is_local exclude rs held
      else case occupied_nodes is_local r of
             None \<Rightarrow> ports_in_use is_local exclude rs held
           | Some nodes \<Rightarrow> ports_in_use is_local exclude rs (foldl (\<lambda>h n. hold_ports r n h) held nodes))"

section \<open>The choice\<close>

definition allocate_port :: "nat \<times> nat \<Rightarrow> nat list \<Rightarrow> exc + nat" where
  "allocate_port bounds taken =
     (case find (\<lambda>p. p \<notin> set taken) [fst bounds..<Suc (snd bounds)] of
        Some p \<Rightarrow> Inr p
      | None \<Rightarrow> Inl (NativeError (''no free port in the configured range '' @ str_of_nat (fst bounds) @ ''-'' @ str_of_nat (snd bounds) @
          ''; widen default_port_range_* or stop an existing deployment'')))"

text \<open>What each node is listening on: its key, its label, and the ports or the reason there are none.\<close>

definition node_listeners :: "planner \<Rightarrow> string list \<Rightarrow> (string \<times> string \<times> (string + nat list)) list" where
  "node_listeners P nodes =
     map (\<lambda>t. (if nt_control t then [] else node_key (pl_local P) (nt_address t), nt_label t,
       case pl_probe P t of
         Inl e \<Rightarrow> Inl (exc_text e)
       | Inr p \<Rightarrow> if probe_ok p then Inr (parse_listening_ports (pr_stdout p))
           else Inl (py_or (pr_error p) (py_or (probe_message p) (''exit '' @ str_of_int (pr_returncode p))))))
       (targets_for P nodes)"

definition node_keys :: "(string \<Rightarrow> bool) \<Rightarrow> string list \<Rightarrow> string list" where
  "node_keys is_local nodes = py_or (remdups (map (node_key is_local) nodes)) [[]]"

definition taken_by_runs :: "planner \<Rightarrow> string list \<Rightarrow> string \<Rightarrow> dep list \<Rightarrow> (nat \<times> string) list" where
  "taken_by_runs P nodes exclude recs =
     (let held = ports_in_use (pl_local P) exclude recs []
      in foldl (\<lambda>m (p, h). dict_setdefault p (''run '' @ h) m) []
           (concat (map (\<lambda>k. dict_lookup held k []) (node_keys (pl_local P) nodes))))"

definition listening_ports :: "(string \<times> string \<times> (string + nat list)) list \<Rightarrow> (nat \<times> string) list" where
  "listening_ports ls = concat (map (\<lambda>(k, label, x). case x of Inl why \<Rightarrow> [] | Inr ps \<Rightarrow> map (\<lambda>p. (p, ''a process on '' @ label)) ps) ls)"

definition unasked_warnings :: "(string \<times> string \<times> (string + nat list)) list \<Rightarrow> string list" where
  "unasked_warnings ls = concat (map (\<lambda>(k, label, x). case x of Inr ps \<Rightarrow> [] | Inl why \<Rightarrow>
     [''could not list the ports in use on '' @ label @ '' ('' @ why @ ''); the API port was chosen from the runs on record alone, and the pre-flight checks it again before launch'']) ls)"

definition reserved_entries :: "(nat option \<times> string) list \<Rightarrow> (nat \<times> string) list" where
  "reserved_entries rs = concat (map (\<lambda>(p, role). case p of None \<Rightarrow> [] | Some n \<Rightarrow>
     if n = 0 then [] else [(n, ''the engine's own '' @ role @ '' port'')]) rs)"

definition taken_ports :: "planner \<Rightarrow> string list \<Rightarrow> (nat option \<times> string) list \<Rightarrow> string \<Rightarrow> dep list \<Rightarrow> (nat \<times> string) list" where
  "taken_ports P nodes reserved exclude recs =
     foldl (\<lambda>m (p, h). dict_setdefault p h m) (taken_by_runs P nodes exclude recs)
       (listening_ports (node_listeners P nodes) @ reserved_entries reserved)"

text \<open>
  \<open>_choose_port\<close>: the preference where it is free, else the first free port of the range. The
  answer carries the warnings; a zero preference is none.
\<close>

definition choose_port ::
  "planner \<Rightarrow> nat option \<Rightarrow> string list \<Rightarrow> (nat option \<times> string) list \<Rightarrow> string \<Rightarrow> string list \<Rightarrow> dep list \<Rightarrow> exc + (nat \<times> string list)" where
  "choose_port P preferred nodes reserved exclude ws recs =
     (let taken = taken_ports P nodes reserved exclude recs;
          ws1 = ws @ unasked_warnings (node_listeners P nodes);
          pref = (if preferred = Some 0 then None else preferred)
      in case pref of
           None \<Rightarrow>
             (case allocate_port (pl_range P) (map fst taken) of Inl e \<Rightarrow> Inl e | Inr p \<Rightarrow> Inr (p, ws1))
         | Some q \<Rightarrow>
             (case map_of taken q of
                None \<Rightarrow> Inr (q, ws1)
              | Some holder \<Rightarrow>
                  (case allocate_port (pl_range P) (map fst taken) of
                     Inl e \<Rightarrow> Inl e
                   | Inr p \<Rightarrow> Inr (p, ws1 @ [''port '' @ str_of_nat q @ '' is held by '' @ holder @ ''; this run gets '' @ str_of_nat p]))))"

end
