(* ===== verification/Memory_Budget.thy ===== *)
theory Memory_Budget
  imports Ports
begin

text \<open>
  Who holds a node's memory and how much a new run may claim (\<open>spark_pulse/tools/memory_budget.py\<close>,
  and its use in \<open>tools/native_runtime.py\<close>). Floating point numbers are rationals, so a product or
  a quotient is exact; \<open>int\<close> of a number that is not negative is its floor. What a node answers
  about its memory is an argument.
\<close>

section \<open>Fractions\<close>

definition gib :: int where "gib = 1024 ^ 3"
definition os_reserve_bytes :: int where "os_reserve_bytes = 4 * gib"
definition engine_default_fraction :: rat where "engine_default_fraction = 9 / 10"
definition fraction_flags :: "string list" where
  "fraction_flags = [''--gpu-memory-utilization'', ''--mem-fraction-static'']"

text \<open>
  \<open>[0-9]*\.?[0-9]+\<close> at the head of a string: the whole part, the decimals and the rest. The point
  belongs to the match only when a digit follows it.
\<close>

definition decimal_at :: "string \<Rightarrow> (string \<times> string \<times> string) option" where
  "decimal_at s =
     (let d = takeWhile is_digit s; r = dropWhile is_digit s
      in if r \<noteq> [] \<and> hd r = CHR ''.'' \<and> takeWhile is_digit (tl r) \<noteq> []
         then Some (d, takeWhile is_digit (tl r), dropWhile is_digit (tl r))
         else if d \<noteq> [] then Some (d, [], r) else None)"

definition decimal_value :: "string \<Rightarrow> string \<Rightarrow> rat" where
  "decimal_value d e = of_nat (nat_of_str d) + of_nat (nat_of_str e) / 10 ^ length e"

text \<open>\<open>flag(?:=|\s+)number\<close> at the head of a string: the number and the rest.\<close>

definition fraction_at :: "string \<Rightarrow> string \<Rightarrow> (rat \<times> string) option" where
  "fraction_at flag s =
     (if \<not> starts_with flag s then None
      else let r = drop (length flag) s;
               body = (if r \<noteq> [] \<and> hd r = CHR ''='' then Some (tl r)
                       else if r \<noteq> [] \<and> is_space (hd r) then Some (dropWhile is_space r) else None)
           in case body of
                None \<Rightarrow> None
              | Some b \<Rightarrow> (case decimal_at b of None \<Rightarrow> None | Some (d, e, rest) \<Rightarrow> Some (decimal_value d e, rest)))"

lemma decimal_at_shorter:
  assumes "decimal_at s = Some (d, e, rest)"
  shows "length rest \<le> length s"
proof -
  let ?r = "dropWhile is_digit s"
  have "rest = dropWhile is_digit (tl ?r) \<or> rest = ?r"
    using assms by (simp add: decimal_at_def Let_def split: if_splits)
  moreover have "length ?r \<le> length s" by (rule length_dropWhile_le)
  moreover have "length (dropWhile is_digit (tl ?r)) \<le> length (tl ?r)" by (rule length_dropWhile_le)
  ultimately show ?thesis by auto
qed

lemma fraction_at_shorter:
  assumes "fraction_at flag s = Some (v, rest)" "s \<noteq> []"
  shows "length rest < length s"
proof -
  obtain r b d e where r: "r = drop (length flag) s" "r \<noteq> []" "decimal_at b = Some (d, e, rest)"
    "b = tl r \<or> (is_space (hd r) \<and> b = dropWhile is_space r)"
    using assms by (auto simp: fraction_at_def Let_def split: if_splits option.splits)
  have "length b < length r"
  proof (cases "b = tl r")
    case False
    with r have "is_space (hd r)" "b = dropWhile is_space r" by auto
    with r(2) length_dropWhile_le[of is_space "tl r"] show ?thesis by (cases r) auto
  qed (use r(2) in \<open>cases r; simp\<close>)
  with decimal_at_shorter[OF r(3)] r(1) show ?thesis by simp
qed

text \<open>\<open>re.finditer\<close>: every match from the left, each search going on after the last one.\<close>

function fractions_in :: "string \<Rightarrow> string \<Rightarrow> rat list" where
  "fractions_in flag s =
     (if s = [] then []
      else case fraction_at flag s of
             Some (v, rest) \<Rightarrow> v # fractions_in flag rest
           | None \<Rightarrow> fractions_in flag (tl s))"
  by pat_completeness auto
termination
  by (relation "measure (\<lambda>(flag, s). length s)") (auto dest: fraction_at_shorter)

declare fractions_in.simps [simp del]

definition legal_fraction :: "rat \<Rightarrow> bool" where
  "legal_fraction v \<longleftrightarrow> 0 < v \<and> v \<le> 1"

definition fraction_in_command :: "string \<Rightarrow> string list \<Rightarrow> rat option" where
  "fraction_in_command cmd flags =
     (let vs = filter legal_fraction (concat (map (\<lambda>f. fractions_in f cmd) flags))
      in if vs = [] then None else Some (last vs))"

definition record_fraction :: "dep \<Rightarrow> rat option" where
  "record_fraction r =
     (case d_gpu_fraction r of
        Some v \<Rightarrow> (case v of None \<Rightarrow> None | Some x \<Rightarrow> if legal_fraction x then Some x else None)
      | None \<Rightarrow> fraction_in_command (d_launch_command r) fraction_flags)"

text \<open>
  \<open>_claimed_fraction\<close>: \<open>flag\<close> is the engine's flag for the fraction, \<open>param\<close> the number the
  parameters carry, if they carry one.
\<close>

definition claimed_fraction :: "string option \<Rightarrow> string \<Rightarrow> rat option \<Rightarrow> rat option" where
  "claimed_fraction flag cmd param =
     (case flag of
        None \<Rightarrow> None
      | Some f \<Rightarrow>
          if f = [] then None
          else case fraction_in_command cmd [f] of
                 Some v \<Rightarrow> Some v
               | None \<Rightarrow> (case param of
                            None \<Rightarrow> Some engine_default_fraction
                          | Some v \<Rightarrow> Some (if legal_fraction v then v else engine_default_fraction)))"

section \<open>The budget of one node\<close>

record holder =
  ho_id :: string
  ho_name :: string
  ho_fraction :: "rat option"
  ho_bytes :: "int option"
  ho_source :: string
  ho_reason :: string

record node_budget =
  nb_node :: string
  nb_key :: string
  nb_label :: string
  nb_total :: "int option"
  nb_reserve :: int
  nb_holders :: "holder list"
  nb_held :: int
  nb_left :: "int option"
  nb_max_fraction :: "rat option"
  nb_claim_fraction :: "rat option"
  nb_claim :: "int option"
  nb_fits :: "bool option"
  nb_complete :: bool
  nb_reason :: string

definition nb_unknown :: "node_budget \<Rightarrow> holder list" where
  "nb_unknown b = filter (\<lambda>h. ho_bytes h = None) (nb_holders b)"

definition holder_of :: "int option \<Rightarrow> (string \<times> int option) list option \<Rightarrow> string \<Rightarrow> string \<times> string \<times> rat option \<Rightarrow> holder" where
  "holder_of tot measured reason h =
     (case h of (i, name, f) \<Rightarrow>
        (let base = \<lparr>ho_id = i, ho_name = py_or name i, ho_fraction = f, ho_bytes = None, ho_source = ''unknown'', ho_reason = []\<rparr>
         in case f of
              Some x \<Rightarrow>
                (case tot of
                   Some t \<Rightarrow> base\<lparr>ho_source := ''fraction'', ho_bytes := Some \<lfloor>x * of_int t\<rfloor>\<rparr>
                 | None \<Rightarrow> base\<lparr>ho_source := ''fraction'', ho_reason := py_or reason ''the node did not report its total memory''\<rparr>)
            | None \<Rightarrow>
                (case measured of
                   None \<Rightarrow> base\<lparr>ho_reason := py_or reason ''the node could not be asked''\<rparr>
                 | Some m \<Rightarrow>
                     (case map_of m i of
                        Some (Some b) \<Rightarrow> base\<lparr>ho_source := ''measured'', ho_bytes := Some b\<rparr>
                      | Some None \<Rightarrow> base\<lparr>ho_reason := ''the node reports its process but not its memory''\<rparr>
                      | None \<Rightarrow> base\<lparr>ho_reason := ''the node reports no GPU process for it''\<rparr>))))"

definition bytes_or_zero :: "holder \<Rightarrow> int" where
  "bytes_or_zero h = (case ho_bytes h of None \<Rightarrow> 0 | Some b \<Rightarrow> b)"

definition largest_fraction :: "int \<Rightarrow> int \<Rightarrow> rat" where
  "largest_fraction left tot = max 0 (of_int \<lfloor>(of_int left / of_int tot * 100 + 1 / 10 ^ 9 :: rat)\<rfloor> / 100)"

definition budget_for_node ::
  "string \<Rightarrow> string \<Rightarrow> string \<Rightarrow> (string \<times> string \<times> rat option) list \<Rightarrow> int option \<Rightarrow> (string \<times> int option) list option \<Rightarrow>
   rat option \<Rightarrow> int option \<Rightarrow> string \<Rightarrow> int \<Rightarrow> node_budget" where
  "budget_for_node node key lbl holders tb measured claim_fraction claim_bytes reason reserve =
     (let tot = (case tb of None \<Rightarrow> None | Some t \<Rightarrow> if t > 0 then Some t else None);
          hs = map (holder_of tot measured reason) holders;
          held = sum_list (map bytes_or_zero hs);
          b = \<lparr>nb_node = node, nb_key = key, nb_label = lbl, nb_total = tot, nb_reserve = reserve, nb_holders = hs, nb_held = held,
               nb_left = None, nb_max_fraction = None, nb_claim_fraction = claim_fraction, nb_claim = claim_bytes, nb_fits = None,
               nb_complete = (filter (\<lambda>h. ho_bytes h = None) hs = [] \<and> (tot \<noteq> None \<or> holders = [])), nb_reason = reason\<rparr>
      in case tot of
           None \<Rightarrow> b
         | Some t \<Rightarrow>
             (let left = max 0 (t - held - reserve);
                  claim = (case claim_fraction of Some f \<Rightarrow> Some \<lfloor>f * of_int t\<rfloor> | None \<Rightarrow> claim_bytes)
              in b\<lparr>nb_left := Some left, nb_max_fraction := Some (largest_fraction left t), nb_claim := claim,
                   nb_fits := map_option (\<lambda>c. c \<le> left) claim\<rparr>))"

section \<open>The budgets of a plan\<close>

definition tenant_of :: "dep \<Rightarrow> string \<times> string \<times> rat option" where
  "tenant_of r = (d_id r, py_or (d_name r) (d_id r), record_fraction r)"

definition add_tenant :: "dep \<Rightarrow> string \<Rightarrow> (string \<times> (string \<times> string \<times> rat option) list) list \<Rightarrow> (string \<times> (string \<times> string \<times> rat option) list) list" where
  "add_tenant r node ts = dict_set node (dict_lookup ts node [] @ [tenant_of r]) ts"

fun tenants :: "(string \<Rightarrow> bool) \<Rightarrow> string \<Rightarrow> dep list \<Rightarrow> (string \<times> (string \<times> string \<times> rat option) list) list \<Rightarrow> (string \<times> (string \<times> string \<times> rat option) list) list" where
  "tenants is_local exclude [] ts = ts"
| "tenants is_local exclude (r # rs) ts =
     (if exclude \<noteq> [] \<and> d_id r = exclude then tenants is_local exclude rs ts
      else case occupied_nodes is_local r of
             None \<Rightarrow> tenants is_local exclude rs ts
           | Some nodes \<Rightarrow> tenants is_local exclude rs (foldl (\<lambda>t n. add_tenant r n t) ts nodes))"

text \<open>\<open>_node_labels\<close>: the registered names by address, and the name of the control node.\<close>

definition node_labels :: "planner \<Rightarrow> (string \<times> string) list \<times> string" where
  "node_labels P =
     (case pl_registry P of
        Inl e \<Rightarrow> ([], ''this machine'')
      | Inr ns \<Rightarrow>
          (foldl (\<lambda>m n. dict_set (nr_address n) (node_label n) m) [] (filter (\<lambda>n. nr_address n \<noteq> []) ns),
           case find nr_control ns of Some n \<Rightarrow> node_label n | None \<Rightarrow> ''this machine''))"

text \<open>
  The loop of \<open>_memory_budget\<close>; \<open>stats\<close> is \<open>node_stats.memory_by_deployment\<close> over the service of an
  address. A node is asked only when somebody else is on it.
\<close>

type_synonym node_stats = "string \<Rightarrow> exc + (int option \<times> (string \<times> int option) list)"

definition budget_at :: "planner \<Rightarrow> node_stats \<Rightarrow> rat option \<Rightarrow> (string \<times> (string \<times> string \<times> rat option) list) list \<Rightarrow> string \<Rightarrow> node_budget" where
  "budget_at P stats fraction ts a =
     (let key = node_key (pl_local P) a; (labels, control) = node_labels P;
          lbl = (case map_of labels a of Some l \<Rightarrow> py_or l (if key = [] then control else a) | None \<Rightarrow> if key = [] then control else a);
          hs = dict_lookup ts key []
      in if hs = [] then budget_for_node a key lbl [] None (Some []) fraction None [] os_reserve_bytes
         else case stats a of
                Inl e \<Rightarrow> budget_for_node a key lbl hs None None fraction None
                  (''could not ask '' @ lbl @ '' for its memory: '' @ take 200 (exc_text e)) os_reserve_bytes
              | Inr (tot, measured) \<Rightarrow> budget_for_node a key lbl hs tot (Some measured) fraction None [] os_reserve_bytes)"

fun budgets_from :: "planner \<Rightarrow> node_stats \<Rightarrow> rat option \<Rightarrow> (string \<times> (string \<times> string \<times> rat option) list) list \<Rightarrow> string list \<Rightarrow> string list \<Rightarrow> node_budget list" where
  "budgets_from P stats fraction ts seen [] = []"
| "budgets_from P stats fraction ts seen (a # as) =
     (let key = node_key (pl_local P) a
      in if key \<in> set seen then budgets_from P stats fraction ts seen as
         else budget_at P stats fraction ts a # budgets_from P stats fraction ts (key # seen) as)"

definition memory_budget :: "planner \<Rightarrow> node_stats \<Rightarrow> string list \<Rightarrow> rat option \<Rightarrow> string \<Rightarrow> dep list \<Rightarrow> node_budget list" where
  "memory_budget P stats nodes fraction exclude recs =
     budgets_from P stats fraction (tenants (pl_local P) exclude recs []) [] (py_or nodes [[]])"

end
