(* ===== verification/Ports_Properties.thy ===== *)
theory Ports_Properties
  imports Ports Reconciler_Properties
begin

text \<open>
  What the port choice promises: the port it gives is free as far as the records and the nodes
  that answered say, it is the preference or the first free one of the range, and a run that was
  stopped keeps its ports on a node where its container may still be.
\<close>

section \<open>What the runs on record hold\<close>

definition held_port :: "(string \<Rightarrow> bool) \<Rightarrow> string \<Rightarrow> dep list \<Rightarrow> string \<Rightarrow> nat \<Rightarrow> bool" where
  "held_port is_local exclude recs node p \<longleftrightarrow>
     (\<exists>r \<in> set recs. \<not> (exclude \<noteq> [] \<and> d_id r = exclude) \<and>
        (\<exists>ns. occupied_nodes is_local r = Some ns \<and> node \<in> set ns) \<and> p \<in> set (record_ports r))"

lemma setdefault_fold_keys:
  "fst ` set (foldl (\<lambda>m p. dict_setdefault p h m) d ps) = fst ` set d \<union> set ps"
proof (induction ps arbitrary: d)
  case (Cons p ps)
  have "fst ` set (dict_setdefault p h d) = insert p (fst ` set d)"
    by (auto simp: dict_setdefault_def dest: map_of_Some_in split: option.split)
  with Cons show ?case by simp
qed simp

lemma setdefault_pairs_keys:
  "fst ` set (foldl (\<lambda>m (p, h). dict_setdefault p (f h) m) d ps) = fst ` set d \<union> fst ` set ps"
proof (induction ps arbitrary: d)
  case (Cons q ps)
  obtain p h where q: "q = (p, h)" by (cases q)
  have "fst ` set (dict_setdefault p (f h) d) = insert p (fst ` set d)"
    by (auto simp: dict_setdefault_def dest: map_of_Some_in split: option.split)
  with Cons q show ?case by simp
qed simp

lemma hold_ports_keys:
  "fst ` set (dict_lookup (hold_ports r node held) k []) =
     fst ` set (dict_lookup held k []) \<union> (if k = node then set (record_ports r) else {})"
  by (simp add: hold_ports_def dict_lookup_def setdefault_fold_keys)

lemma hold_all_keys:
  "fst ` set (dict_lookup (foldl (\<lambda>h n. hold_ports r n h) held ns) k []) =
     fst ` set (dict_lookup held k []) \<union> (if k \<in> set ns then set (record_ports r) else {})"
  by (induction ns arbitrary: held) (auto simp: hold_ports_keys)

lemma ports_in_use_keys:
  "fst ` set (dict_lookup (ports_in_use l exclude recs held) k []) =
     fst ` set (dict_lookup held k []) \<union> {p. held_port l exclude recs k p}"
proof (induction recs arbitrary: held)
  case (Cons r rs)
  have split: "{p. held_port l exclude (r # rs) k p} = {p. held_port l exclude rs k p} \<union>
      (if exclude \<noteq> [] \<and> d_id r = exclude then {}
       else case occupied_nodes l r of None \<Rightarrow> {} | Some ns \<Rightarrow> if k \<in> set ns then set (record_ports r) else {})"
    by (auto simp: held_port_def split: option.splits)
  show ?case unfolding split
    by (cases "exclude \<noteq> [] \<and> d_id r = exclude"; cases "occupied_nodes l r") (auto simp: Cons hold_all_keys)
qed (auto simp: held_port_def)

text \<open>What is taken, in full.\<close>

definition port_taken :: "planner \<Rightarrow> string list \<Rightarrow> (nat option \<times> string) list \<Rightarrow> string \<Rightarrow> dep list \<Rightarrow> nat \<Rightarrow> bool" where
  "port_taken P nodes reserved exclude recs p \<longleftrightarrow>
     (\<exists>k \<in> set (node_keys (pl_local P) nodes). held_port (pl_local P) exclude recs k p) \<or>
     (\<exists>k label ps. (k, label, Inr ps) \<in> set (node_listeners P nodes) \<and> p \<in> set ps) \<or>
     p \<noteq> 0 \<and> p \<in> Option.these (fst ` set reserved)"

lemma taken_ports_keys: "p \<in> fst ` set (taken_ports P nodes reserved exclude recs) \<longleftrightarrow> port_taken P nodes reserved exclude recs p"
proof -
  have runs: "fst ` set (taken_by_runs P nodes exclude recs) =
      {p. \<exists>k \<in> set (node_keys (pl_local P) nodes). held_port (pl_local P) exclude recs k p}"
    using ports_in_use_keys[of "pl_local P" exclude recs "[]"]
    by (auto simp: taken_by_runs_def Let_def setdefault_pairs_keys dict_lookup_def image_UN)
  have listen: "fst ` set (listening_ports ls) = {p. \<exists>k label ps. (k, label, Inr ps) \<in> set ls \<and> p \<in> set ps}" for ls
    by (force simp: listening_ports_def split: sum.splits)
  have res: "fst ` set (reserved_entries reserved) = {p. p \<noteq> 0 \<and> p \<in> Option.these (fst ` set reserved)}"
    by (force simp: reserved_entries_def Option.these_def split: option.splits if_splits)
  show ?thesis
    unfolding taken_ports_def setdefault_pairs_keys[of "\<lambda>h. h"] set_append image_Un runs listen res port_taken_def by blast
qed

lemma map_of_taken: "map_of (taken_ports P nodes reserved exclude recs) p = None \<longleftrightarrow> \<not> port_taken P nodes reserved exclude recs p"
  by (simp add: map_of_eq_None_iff taken_ports_keys)

lemma allocate_result:
  assumes "allocate_port bounds taken = Inr p"
  shows "fst bounds \<le> p \<and> p \<le> snd bounds \<and> p \<notin> set taken \<and> (\<forall>q. fst bounds \<le> q \<longrightarrow> q < p \<longrightarrow> q \<in> set taken)"
proof -
  obtain k where k: "k < length [fst bounds..<Suc (snd bounds)]" "[fst bounds..<Suc (snd bounds)] ! k = p" "p \<notin> set taken"
    "\<forall>j < k. [fst bounds..<Suc (snd bounds)] ! j \<in> set taken"
    using assms by (auto simp: allocate_port_def find_Some_iff simp del: upt_Suc split: option.splits)
  then have p: "p = fst bounds + k" "p \<le> snd bounds" by (auto simp del: upt_Suc)
  have "q \<in> set taken" if "fst bounds \<le> q" "q < p" for q
    using k(4)[rule_format, of "q - fst bounds"] that p by (simp del: upt_Suc)
  with p k(3) show ?thesis by auto
qed

lemma allocate_error:
  "(\<exists>e. allocate_port bounds taken = Inl e) \<longleftrightarrow> (\<forall>q. fst bounds \<le> q \<longrightarrow> q \<le> snd bounds \<longrightarrow> q \<in> set taken)"
proof -
  have "(\<exists>e. allocate_port bounds taken = Inl e) \<longleftrightarrow> find (\<lambda>p. p \<notin> set taken) [fst bounds..<Suc (snd bounds)] = None"
    by (auto simp: allocate_port_def simp del: upt_Suc split: option.splits)
  then show ?thesis by (auto simp: find_None_iff simp del: upt_Suc)
qed

text \<open>The choice in full.\<close>

lemma choose_port_result:
  "choose_port P preferred nodes reserved exclude ws recs =
     (let taken = taken_ports P nodes reserved exclude recs; ws1 = ws @ unasked_warnings (node_listeners P nodes)
      in if \<exists>q. preferred = Some q \<and> q \<noteq> 0 \<and> \<not> port_taken P nodes reserved exclude recs q then Inr (the preferred, ws1)
         else case allocate_port (pl_range P) (map fst taken) of
                Inl e \<Rightarrow> Inl e
              | Inr p \<Rightarrow> Inr (p, ws1 @ (if preferred = None \<or> preferred = Some 0 then []
                  else [''port '' @ str_of_nat (the preferred) @ '' is held by '' @ the (map_of taken (the preferred)) @ ''; this run gets '' @ str_of_nat p])))"
proof (cases "preferred = None \<or> preferred = Some 0")
  case True
  then show ?thesis by (auto simp: choose_port_def Let_def split: sum.split)
next
  case False
  then obtain q where q: "preferred = Some q" "q \<noteq> 0" by auto
  show ?thesis
  proof (cases "map_of (taken_ports P nodes reserved exclude recs) q")
    case None
    with q map_of_taken[of P nodes reserved exclude recs q] show ?thesis by (simp add: choose_port_def Let_def)
  next
    case (Some h)
    with q map_of_taken[of P nodes reserved exclude recs q] show ?thesis
      by (auto simp: choose_port_def Let_def split: sum.split)
  qed
qed

lemma choose_port_chosen:
  assumes "choose_port P preferred nodes reserved exclude ws recs = Inr (p, ws')"
  shows "\<not> port_taken P nodes reserved exclude recs p \<and>
    (preferred = Some p \<and> p \<noteq> 0 \<or> fst (pl_range P) \<le> p \<and> p \<le> snd (pl_range P) \<and>
       (\<forall>q. fst (pl_range P) \<le> q \<longrightarrow> q < p \<longrightarrow> port_taken P nodes reserved exclude recs q) \<and>
       (\<forall>q. preferred = Some q \<longrightarrow> q = 0 \<or> port_taken P nodes reserved exclude recs q))"
proof (cases "\<exists>q. preferred = Some q \<and> q \<noteq> 0 \<and> \<not> port_taken P nodes reserved exclude recs q")
  case True
  then have "Inr (the preferred, ws @ unasked_warnings (node_listeners P nodes)) = (Inr (p, ws') :: exc + _)"
    using assms unfolding choose_port_result Let_def by simp
  with True show ?thesis by auto
next
  case False
  then have "allocate_port (pl_range P) (map fst (taken_ports P nodes reserved exclude recs)) = Inr p"
    using assms unfolding choose_port_result Let_def if_not_P[OF False] by (simp split: sum.splits)
  from allocate_result[OF this] taken_ports_keys False show ?thesis by auto
qed

section \<open>Properties\<close>





text \<open>
  C19. The choice is the specification: the preference if it is free, else the least free port of
  the configured range, else an error; never anything else.
\<close>

theorem choose_port_exact:
  "map_sum (\<lambda>e. ()) fst (choose_port P preferred nodes reserved exclude ws recs) =
     (let free = (\<lambda>p. \<not> port_taken P nodes reserved exclude recs p);
          able = (\<lambda>p. fst (pl_range P) \<le> p \<and> p \<le> snd (pl_range P) \<and> free p)
      in if \<exists>q. preferred = Some q \<and> q \<noteq> 0 \<and> free q then Inr (the preferred)
         else if \<exists>p. able p then Inr (LEAST p. able p) else Inl ())"
proof (cases "\<exists>q. preferred = Some q \<and> q \<noteq> 0 \<and> \<not> port_taken P nodes reserved exclude recs q")
  case True
  then show ?thesis unfolding choose_port_result Let_def by simp
next
  case False
  let ?t = "map fst (taken_ports P nodes reserved exclude recs)"
  let ?able = "\<lambda>p. fst (pl_range P) \<le> p \<and> p \<le> snd (pl_range P) \<and> \<not> port_taken P nodes reserved exclude recs p"
  have t: "p \<in> set ?t \<longleftrightarrow> port_taken P nodes reserved exclude recs p" for p by (simp add: taken_ports_keys)
  have "map_sum (\<lambda>e. ()) id (allocate_port (pl_range P) ?t) = (if \<exists>p. ?able p then Inr (LEAST p. ?able p) else Inl ())"
  proof (cases "allocate_port (pl_range P) ?t")
    case (Inl e)
    then have "\<not> (\<exists>p. ?able p)" using allocate_error[of "pl_range P" ?t] t by blast
    with Inl show ?thesis by simp
  next
    case (Inr p)
    from allocate_result[OF this] t have p: "?able p" "\<forall>q < p. \<not> ?able q" by blast+
    then have "(LEAST p. ?able p) = p" by (intro Least_equality) (auto simp: not_less[symmetric])
    with Inr p show ?thesis by auto
  qed
  then show ?thesis
    unfolding choose_port_result Let_def if_not_P[OF False] by (cases "allocate_port (pl_range P) ?t") simp_all
qed

lemma occupied_orphan:
  assumes "d_status r = ''stopped''" "x \<in> set (d_orphans r)" "or_node x = a"
  shows "\<exists>ns. occupied_nodes l r = Some ns \<and> node_key l a \<in> set ns"
proof -
  let ?ns = "remdups (map (node_key l) (map or_node (d_orphans r)))"
  have "node_key l a \<in> set ?ns" using assms(2,3) by auto
  moreover from this have "py_or ?ns [[]] = ?ns" by (auto simp: py_or_def)
  moreover have "d_orphans r \<noteq> []" using assms(2) by auto
  ultimately show ?thesis using assms(1) by (simp add: occupied_nodes_def Let_def)
qed

text \<open>
  C7. A stopped run keeps its ports where it may still be running. After a stop, a plan for
  another deployment that uses a node on which a container of the stopped run is still present
  is given none of the ports of that run.
\<close>

theorem stopped_run_keeps_ports:
  assumes "node_service_laws D ok lab" and "gang_sound ok s" and "get_deployment i s = Some r"
    and "stop_deployment D i s = (x, s')" and "e \<in> set (rank_entries r)"
    and "re_container e \<noteq> []" and "lab (g_world s') (re_node e) (re_container e) \<noteq> None"
    and "choose_port P preferred nodes reserved exclude ws (g_recs s') = Inr (p, ws')"
    and "exclude \<noteq> i" and "node_key (pl_local P) (re_node e) \<in> set (node_keys (pl_local P) nodes)"
  shows "p \<notin> set (record_ports r)"
proof
  assume p: "p \<in> set (record_ports r)"
  from node_service_laws.stop_exact[OF assms(1-3)] assms(4) obtain y where y: "d_status y = ''stopped''"
    "get_deployment i s' = Some (redact_record y)" "\<forall>e \<in> set (rank_entries r). accounted lab (g_world s') (d_orphans y) e"
    "d_port y = d_port r" "d_rendezvous_port y = d_rendezvous_port r" "d_rpc_port y = d_rpc_port r" by auto
  from y(3) assms(5-7) obtain z where z: "z \<in> set (d_orphans y)" "or_node z = re_node e"
    by (auto simp: accounted_def outstanding_def)
  have rec: "redact_record y \<in> set (g_recs s')" "d_id (redact_record y) = i"
    using y(2) by (auto simp: get_deployment_def dest: find_SomeD')
  have "record_ports (redact_record y) = record_ports r"
    using y(4-6) by (simp add: record_ports_def redact_record_def)
  moreover from occupied_orphan[of "redact_record y" z "re_node e" "pl_local P"] y(1) z obtain ns where
    "occupied_nodes (pl_local P) (redact_record y) = Some ns" "node_key (pl_local P) (re_node e) \<in> set ns" by auto
  ultimately have "held_port (pl_local P) exclude (g_recs s') (node_key (pl_local P) (re_node e)) p"
    using rec assms(9) p unfolding held_port_def by (intro bexI[of _ "redact_record y"]) auto
  then have "port_taken P nodes reserved exclude (g_recs s') p" using assms(10) unfolding port_taken_def by blast
  with choose_port_chosen[OF assms(8)] show False by blast
qed

text \<open>A cluster whose nodes do not answer, with a container under every name.\<close>

definition silent_services :: "unit node_services" where
  "silent_services = quiet_services\<lparr>ks_resolve := (\<lambda>a w. Inl (OtherExc ''no agent'')), ks_stop := (\<lambda>a n w. (Inl (OtherExc ''no agent''), w)),
     ks_status := (\<lambda>a n w. (Inl (OtherExc ''no agent''), w)), ks_list := (\<lambda>a want w. (Inl (OtherExc ''no agent''), w))\<rparr>"

lemma silent_services_laws: "node_service_laws silent_services (\<lambda>w. True) (\<lambda>w a n. Some [])"
  by unfold_locales (simp_all add: silent_services_def quiet_services_def)

definition ex_held_dep :: dep where
  "ex_held_dep = ex_dep\<lparr>d_port := Some 3\<rparr>"

definition ex_held :: "unit gang" where
  "ex_held = ex_quiet\<lparr>g_recs := [ex_held_dep]\<rparr>"

definition ex_far_planner :: planner where
  "ex_far_planner = \<lparr>pl_registry = Inr [], pl_self = None, pl_local = (\<lambda>a. False), pl_probe = (\<lambda>t. Inl (OtherExc ''no agent'')), pl_range = (1, 4)\<rparr>"

lemma ex_held_facts: "gang_sound (\<lambda>w. True) ex_held" "get_deployment ''a'' ex_held = Some ex_held_dep"
  using ex_gang_gsound
  by (auto simp: ex_held_def ex_held_dep_def gang_sound_def sound_def all_native_def recs_ok_def ex_gang_def redact_record_def
      ex_dep_def blank_dep_def get_deployment_def)

theorem stopped_run_keeps_ports_witness:
  "\<exists>x s' p ws'. stop_deployment silent_services ''a'' ex_held = (x, s') \<and>
     choose_port ex_far_planner (Some 3) [''10.0.0.2''] [] [] [] (g_recs s') = Inr (p, ws') \<and> p \<notin> set (record_ports ex_held_dep)"
proof -
  let ?s = "snd (stop_deployment silent_services ''a'' ex_held)"
  let ?e = "ex_rank 1 ''10.0.0.2''"
  have st: "stop_deployment silent_services ''a'' ex_held = (fst (stop_deployment silent_services ''a'' ex_held), ?s)" by simp
  have e: "?e \<in> set (rank_entries ex_held_dep)" "re_container ?e \<noteq> []" by (code_simp, code_simp)
  have l: "Some [] \<noteq> (None :: labels option)" by simp
  have k: "node_key (pl_local ex_far_planner) (re_node ?e) \<in> set (node_keys (pl_local ex_far_planner) [''10.0.0.2''])" by code_simp
  have "(case choose_port ex_far_planner (Some 3) [''10.0.0.2''] [] [] [] (g_recs ?s) of Inl e \<Rightarrow> False | Inr pw \<Rightarrow> True)"
    by code_simp
  from case_Inr_ex[OF this] obtain pw where
    c: "choose_port ex_far_planner (Some 3) [''10.0.0.2''] [] [] [] (g_recs ?s) = Inr (fst pw, snd pw)" by auto
  have "fst pw \<notin> set (record_ports ex_held_dep)"
    by (rule stopped_run_keeps_ports[OF silent_services_laws ex_held_facts st e l c _ k]) simp
  with st c show ?thesis by (intro exI conjI)
qed

section \<open>The listening ports are read back\<close>

lemma str_of_nat_length: "0 < k \<Longrightarrow> n < 10 ^ k \<Longrightarrow> length (str_of_nat n) \<le> k"
proof (induction k arbitrary: n)
  case (Suc k)
  show ?case
  proof (cases "n < 10")
    case True
    then show ?thesis by (subst str_of_nat.simps) simp
  next
    case False
    with Suc.prems have "0 < k" by (cases k) auto
    moreover have "n div 10 < 10 ^ k" using Suc.prems(2) by (intro less_mult_imp_div_less) simp
    ultimately have "0 < k" "n div 10 < 10 ^ k" by simp_all
    with Suc.IH[of "n div 10"] False show ?thesis by (subst str_of_nat.simps) simp
  qed
qed simp

lemma port_token_address:
  assumes "p < 65536"
  shows "port_token (a @ '':'' @ str_of_nat p) = Some p"
proof -
  have d: "\<forall>c \<in> set (rev (str_of_nat p)). is_digit c" using str_of_nat_digits[of p] by auto
  have stop: "CHR '':'' # rev a = [] \<or> \<not> is_digit (hd (CHR '':'' # rev a))" by (simp add: is_digit_def)
  have "takeWhile is_digit (rev (str_of_nat p) @ CHR '':'' # rev a) = rev (str_of_nat p)"
    by (rule takeWhile_append_stop[OF d stop])
  moreover have "dropWhile is_digit (rev (str_of_nat p) @ CHR '':'' # rev a) = CHR '':'' # rev a"
    by (rule dropWhile_append_stop[OF d stop])
  moreover have "length (str_of_nat p) \<le> 5" using assms by (intro str_of_nat_length) auto
  moreover have "length (str_of_nat p) \<noteq> 0" by simp
  ultimately show ?thesis by (simp add: port_token_def Let_def Suc_le_eq)
qed

text \<open>One line of \<open>ss -H -ltn\<close>.\<close>

definition ss_line :: "string \<times> nat \<Rightarrow> string" where
  "ss_line ap = join '' '' [''LISTEN'', ''0'', ''4096'', fst ap @ '':'' @ str_of_nat (snd ap), ''0.0.0.0:*'']"

lemma line_port_ss:
  assumes "\<forall>c \<in> set a. \<not> is_space c" "0 < p" "p < 65536"
  shows "line_port (ss_line (a, p)) = Some p"
proof -
  let ?w = "a @ '':'' @ str_of_nat p"
  have w: "\<forall>c \<in> set ?w. \<not> is_space c"
    using assms(1) str_of_nat_digits[of p] by (auto simp: is_digit_def is_space_def Let_def)
  have f: "split_ws (ss_line (a, p)) = [''LISTEN'', ''0'', ''4096'', ?w, ''0.0.0.0:*'']"
    unfolding ss_line_def fst_conv snd_conv
    by (rule split_ws_join) (use w in \<open>simp add: is_space_def\<close>)
  have s: "strip (ss_line (a, p)) = ss_line (a, p)"
    by (rule strip_id) (simp add: ss_line_def is_space_def)
  have l: "\<exists>t. ss_line (a, p) = CHR ''L'' # t" by (simp add: ss_line_def)
  have "lower_char CHR ''L'' = CHR ''l''" by code_simp
  then have h: "\<exists>t. lower (ss_line (a, p)) = CHR ''l'' # t" using l by (auto simp: lower_def)
  have n: "port_token ''LISTEN'' = None" "port_token ''0'' = None" "port_token ''4096'' = None"
    by (simp_all add: port_token_def Let_def is_digit_def)
  have "first_token (split_ws (ss_line (a, p))) = Some p"
    unfolding f first_token.simps n using port_token_address[OF assms(3), of a] by simp
  with s l h assms(2,3) show ?thesis by (auto simp: line_port_def Let_def starts_with_def)
qed

text \<open>
  C24. What a node lists is what is read: the listening lines for any addresses and any ports
  between 1 and 65535 are parsed back to exactly those ports.
\<close>

theorem listening_ports_roundtrip:
  assumes "\<forall>ap \<in> set aps. (\<forall>c \<in> set (fst ap). \<not> is_space c) \<and> 0 < snd ap \<and> snd ap < 65536"
  shows "parse_listening_ports (concat (map (\<lambda>ap. ss_line ap @ [CHR 0x0A]) aps)) = remdups (map snd aps)"
proof -
  have b: "\<not> is_linebreak c" if "ap \<in> set aps" "c \<in> set (ss_line ap)" for ap c
  proof
    assume "is_linebreak c"
    moreover have "c = CHR '' '' \<or> \<not> is_space c"
      using that assms str_of_nat_digits[of "snd ap"] by (fastforce simp: ss_line_def is_digit_def is_space_def Let_def)
    ultimately show False using break_is_space[of c] by (auto simp: is_linebreak_def)
  qed
  have "splitlines (concat (map (\<lambda>l. l @ [CHR 0x0A]) (map ss_line aps))) = map ss_line aps"
    by (rule splitlines_concat) (use b in auto)
  then have "splitlines (concat (map (\<lambda>ap. ss_line ap @ [CHR 0x0A]) aps)) = map ss_line aps" by (simp add: comp_def)
  moreover have "List.map_filter line_port (map ss_line aps) = map snd aps"
    using assms by (induction aps) (auto simp: map_filter_simps line_port_ss)
  ultimately show ?thesis by (simp add: parse_listening_ports_def)
qed

theorem listening_ports_roundtrip_witness:
  "parse_listening_ports (concat (map (\<lambda>ap. ss_line ap @ [CHR 0x0A]) [(''0.0.0.0'', 8000), (''[::]'', 22), (''*'', 8000)])) = [22, 8000]"
  by (subst listening_ports_roundtrip) (simp_all add: is_space_def)

end
