(* ===== verification/Memory_Budget_Properties.thy ===== *)
theory Memory_Budget_Properties
  imports Memory_Budget Ports_Properties
begin

text \<open>
  What the memory budget promises: a run that fits leaves the reserve and every known claim
  untouched, a budget is complete only when every claim in it is known, the nodes it counts as
  occupied are those of the port choice. The suggested largest fraction may overshoot, by a bounded
  amount.
\<close>

lemma budget_cases:
  assumes "b = budget_for_node node key lbl holders tb measured cf cb reason reserve"
  obtains "nb_total b = None" "nb_left b = None" "nb_fits b = None"
  | t where "nb_total b = Some t" "0 < t" "nb_left b = Some (max 0 (t - nb_held b - reserve))"
      "nb_max_fraction b = Some (largest_fraction (max 0 (t - nb_held b - reserve)) t)"
      "nb_claim b = (case cf of Some f \<Rightarrow> Some \<lfloor>f * of_int t\<rfloor> | None \<Rightarrow> cb)"
      "nb_fits b = map_option (\<lambda>c. c \<le> max 0 (t - nb_held b - reserve)) (nb_claim b)"
proof -
  define tot where "tot = (case tb of None \<Rightarrow> None | Some t \<Rightarrow> if t > 0 then Some t else None)"
  show thesis
  proof (cases tot)
    case None
    then have "nb_total b = None \<and> nb_left b = None \<and> nb_fits b = None"
      unfolding assms budget_for_node_def tot_def[symmetric] Let_def by simp
    then show thesis by (intro that(1)) simp_all
  next
    case (Some t)
    then have "0 < t" by (auto simp: tot_def split: option.splits if_splits)
    with Some show thesis
      by (intro that(2)[of t]) (simp_all add: assms budget_for_node_def tot_def[symmetric] Let_def)
  qed
qed

lemma budget_common:
  assumes "b = budget_for_node node key lbl holders tb measured cf cb reason reserve"
  shows "nb_held b = sum_list (map bytes_or_zero (nb_holders b))" "nb_reserve b = reserve"
    "nb_holders b = map (holder_of (nb_total b) measured reason) holders"
    "nb_complete b \<longleftrightarrow> nb_unknown b = [] \<and> (nb_total b \<noteq> None \<or> holders = [])"
  using assms by (auto simp: budget_for_node_def Let_def nb_unknown_def split: option.splits)

text \<open>
  C20. A run that is said to fit does: when a budget says that a claim of at least one byte fits,
  the claims known on the node, the reserve of the host and the new claim together are at most
  the node's total; and where the budget is complete, every run on the node is among those claims.
\<close>

theorem budget_fits_sound:
  assumes "b = budget_for_node node key lbl holders tb measured cf cb reason reserve"
    and "nb_fits b = Some True" and "nb_claim b = Some c" and "0 < c"
  shows "\<exists>t. nb_total b = Some t \<and> sum_list (map bytes_or_zero (nb_holders b)) + nb_reserve b + c \<le> t \<and>
    map ho_id (nb_holders b) = map fst holders \<and>
    (if nb_complete b then \<forall>h \<in> set (nb_holders b). ho_bytes h \<noteq> None else nb_unknown b \<noteq> [])"
proof (rule budget_cases[OF assms(1)])
  fix t
  assume t: "nb_total b = Some t" "nb_fits b = map_option (\<lambda>c. c \<le> max 0 (t - nb_held b - reserve)) (nb_claim b)"
  with assms(2-4) have "c \<le> t - nb_held b - reserve" by auto
  moreover have "map ho_id (nb_holders b) = map fst holders"
    unfolding budget_common(3)[OF assms(1)] by (auto simp: holder_of_def Let_def split: option.splits prod.splits)
  ultimately show ?thesis
    using budget_common(1,2,4)[OF assms(1)] t(1) by (auto simp: nb_unknown_def filter_empty_conv)
qed (use assms(2) in auto)

theorem budget_fits_sound_witness:
  "\<exists>t. nb_total (budget_for_node ''n'' ''n'' ''n'' [(''a'', ''a'', Some (1 / 2))] (Some (16 * gib)) None (Some (1 / 4)) None [] os_reserve_bytes) = Some t \<and>
     8 * gib + os_reserve_bytes + 4 * gib \<le> t"
proof -
  let ?b = "budget_for_node ''n'' ''n'' ''n'' [(''a'', ''a'', Some (1 / 2))] (Some (16 * gib)) None (Some (1 / 4)) None [] os_reserve_bytes"
  have "nb_fits ?b = Some True" "nb_claim ?b = Some (4 * gib)" "sum_list (map bytes_or_zero (nb_holders ?b)) = 8 * gib" "nb_reserve ?b = os_reserve_bytes"
    by (simp_all add: budget_for_node_def holder_of_def bytes_or_zero_def gib_def os_reserve_bytes_def)
  with budget_fits_sound[OF refl, of "''n''" "''n''" "''n''" "[(''a'', ''a'', Some (1 / 2))]" "Some (16 * gib)" None "Some (1 / 4)" None "[]" os_reserve_bytes "4 * gib"]
  show ?thesis by (auto simp: gib_def)
qed

lemma largest_fraction_bounds:
  assumes "0 < t" "0 \<le> left" "left \<le> t"
  shows "0 \<le> largest_fraction left t \<and> largest_fraction left t \<le> 1 \<and> largest_fraction left t * of_int t \<le> of_int left + of_int t / 10 ^ 11"
proof -
  let ?x = "of_int left / of_int t * 100 + 1 / 10 ^ 9 :: rat"
  have t: "(0::rat) < of_int t" using assms(1) by simp
  have l: "of_int left / of_int t \<le> (1::rat)" using assms t by (simp add: divide_le_eq)
  have nn: "0 \<le> of_int left / (of_int t :: rat)" using assms by simp
  then have f0: "0 \<le> \<lfloor>?x\<rfloor>" by simp
  have fx: "of_int \<lfloor>?x\<rfloor> \<le> ?x" by (rule of_int_floor_le)
  have "\<lfloor>?x\<rfloor> \<le> 100"
  proof -
    have "?x < of_int 101" using l by simp
    then show ?thesis by (metis floor_less_iff zle_add1_eq_le add.commute numeral_plus_one one_plus_numeral semiring_norm(2,4,5))
  qed
  then have "of_int \<lfloor>?x\<rfloor> / 100 \<le> (1::rat)" by simp
  moreover have "of_int \<lfloor>?x\<rfloor> / 100 * of_int t \<le> of_int left + (of_int t / 10 ^ 11 :: rat)"
  proof -
    have "of_int \<lfloor>?x\<rfloor> / 100 \<le> of_int left / of_int t + 1 / (10 ^ 11 :: rat)" using fx by simp
    then have "of_int \<lfloor>?x\<rfloor> / 100 * of_int t \<le> (of_int left / of_int t + 1 / 10 ^ 11) * (of_int t :: rat)"
      using t by (intro mult_right_mono) auto
    also have "\<dots> = of_int left + of_int t / 10 ^ 11" using t by (simp add: distrib_right)
    finally show ?thesis .
  qed
  ultimately show ?thesis using f0 by (simp add: largest_fraction_def max_def)
qed

text \<open>
  C26. The largest fraction that is suggested lies between nothing and the whole, and taking it
  overshoots what is left by at most one part in a hundred thousand million of the total.
\<close>

theorem max_fraction_bounded:
  assumes "b = budget_for_node node key lbl holders tb measured cf cb reason reserve"
    and "nb_max_fraction b = Some f" and "0 \<le> nb_held b" and "0 \<le> reserve"
  shows "\<exists>t left. nb_total b = Some t \<and> nb_left b = Some left \<and> 0 \<le> f \<and> f \<le> 1 \<and> f * of_int t \<le> of_int left + of_int t / 10 ^ 11"
proof (rule budget_cases[OF assms(1)])
  assume "nb_total b = None"
  then have "nb_max_fraction b = None"
    using assms(1) by (auto simp: budget_for_node_def Let_def split: option.splits if_splits)
  with assms(2) show ?thesis by simp
next
  fix t
  assume t: "nb_total b = Some t" "0 < t" "nb_left b = Some (max 0 (t - nb_held b - reserve))"
    "nb_max_fraction b = Some (largest_fraction (max 0 (t - nb_held b - reserve)) t)"
  have "0 \<le> max 0 (t - nb_held b - reserve)" "max 0 (t - nb_held b - reserve) \<le> t" using assms(3,4) t(2) by auto
  from largest_fraction_bounds[OF t(2) this] t assms(2) show ?thesis by auto
qed

theorem max_fraction_bounded_witness:
  "\<exists>f t left. nb_max_fraction (budget_for_node ''n'' ''n'' ''n'' [(''a'', ''a'', Some (1 / 2))] (Some (16 * gib)) None None None [] os_reserve_bytes) = Some f \<and>
     f * of_int t \<le> of_int left + of_int t / 10 ^ 11 \<and> t = 16 * gib \<and> left = 4 * gib"
proof -
  let ?b = "budget_for_node ''n'' ''n'' ''n'' [(''a'', ''a'', Some (1 / 2))] (Some (16 * gib)) None None None [] os_reserve_bytes"
  have b: "nb_total ?b = Some (16 * gib)" "nb_left ?b = Some (4 * gib)" "nb_held ?b = 8 * gib" "nb_max_fraction ?b = Some (largest_fraction (4 * gib) (16 * gib))"
    by (simp_all add: budget_for_node_def holder_of_def bytes_or_zero_def gib_def os_reserve_bytes_def)
  from max_fraction_bounded[OF refl b(4)] b show ?thesis by (auto simp: gib_def os_reserve_bytes_def)
qed


lemma dict_set_keys: "fst ` set (dict_set k v d) = insert k (fst ` set d)"
  by (induction d) auto

text \<open>
  C27. A node is busy for the memory budget exactly when it is busy for the port choice: both read
  the same runs on the same nodes.
\<close>

theorem budget_and_ports_agree:
  "fst ` set (tenants is_local exclude recs []) = fst ` set (ports_in_use is_local exclude recs [])"
proof -
  have t: "fst ` set (foldl (\<lambda>t n. add_tenant r n t) ts ns) = fst ` set ts \<union> set ns" for r ts ns
    by (induction ns arbitrary: ts) (auto simp: add_tenant_def dict_set_keys)
  have p: "fst ` set (foldl (\<lambda>h n. hold_ports r n h) hs ns) = fst ` set hs \<union> set ns" for r hs ns
    by (induction ns arbitrary: hs) (auto simp: hold_ports_def dict_set_keys)
  have "fst ` set ts = fst ` set hs \<Longrightarrow>
      fst ` set (tenants is_local exclude recs ts) = fst ` set (ports_in_use is_local exclude recs hs)" for ts hs
  proof (induction recs arbitrary: ts hs)
    case (Cons r rs)
    show ?case
    proof (cases "exclude \<noteq> [] \<and> d_id r = exclude")
      case True
      then show ?thesis using Cons.IH[OF Cons.prems] by simp
    next
      case False
      have "fst ` set (foldl (\<lambda>t n. add_tenant r n t) ts ns) = fst ` set (foldl (\<lambda>h n. hold_ports r n h) hs ns)" for ns
        using Cons.prems by (simp add: t p)
      then show ?thesis
        unfolding tenants.simps ports_in_use.simps if_not_P[OF False]
        using Cons.IH[OF Cons.prems] Cons.IH by (cases "occupied_nodes is_local r") simp_all
    qed
  qed simp
  then show ?thesis by simp
qed

end
