(* ===== verification/Spec2Isabelle.thy ===== *)
theory Spec2Isabelle
  imports Gang_Start_Properties Reconciler_Properties Node_Registry_Properties Topology_Properties Memory_Budget_Properties
begin

text \<open>
  Spark Pulse: deployments of inference engines on a small cluster.
\<close>

end
